theory Spec2Isabelle
  imports Complex_Main "HOL-Library.Multiset" "HOL-Library.Log_Nat"
begin

section \<open>Python values\<close>

text \<open>
  The debate platform is a Flask application over MongoDB. Its state lives in two
  collections, \<^verbatim>\<open>debates\<close> and \<^verbatim>\<open>personalities\<close>; the services in
  \<^verbatim>\<open>services/\<close> read and update documents, the routes in \<^verbatim>\<open>routes/api.py\<close>
  sequence the services. The embedding follows that layering.

  Conventions. A Python \<^verbatim>\<open>str\<close> is a \<^typ>\<open>string\<close> whose characters stand for
  code points below 256. A Python \<^verbatim>\<open>int\<close> is an \<^typ>\<open>int\<close>. A Python
  \<^verbatim>\<open>float\<close> is a binary64 value of IEEE 754, see below. An \<^verbatim>\<open>ObjectId\<close> is a natural
  number. The fields \<^verbatim>\<open>created_at\<close>, \<^verbatim>\<open>updated_at\<close> and
  \<^verbatim>\<open>timestamp\<close> and the \<^verbatim>\<open>_id\<close> of an argument are values of the clock and of
  the id generator; no operation below branches on them and they are left out.
  An update that the driver or the server refuses raises in the caller; the loss of
  the connection to the database and the 60 second deadline of the worker pool are
  not modelled.
\<close>

datatype py_error = ZeroDivisionError | OverflowError | TypeError

definition and_then :: "'e + 'a \<Rightarrow> ('a \<Rightarrow> 'e + 'b) \<Rightarrow> 'e + 'b" where
  \<comment> \<open>sequencing: the first exception raised is the result\<close>
  "and_then r f = (case r of Inl e \<Rightarrow> Inl e | Inr x \<Rightarrow> f x)"

subsection \<open>Floats\<close>

text \<open>
  A finite float is kept as the rational number it stands for; the results of the
  operations are rounded to the nearest binary64 value, ties to the even
  significand, as the hardware and CPython's conversions round them. The two zeros
  are one value: they compare equal, and nothing in the application reads the sign of
  a zero. A finite value \<open>x\<close> other than 0 lies in a binade \<open>e\<close>, with
  \<open>pow2 e \<le> \<bar>x\<bar>\<close> and \<open>\<bar>x\<bar> < pow2 (e + 1)\<close>; the doubles of that binade are the
  multiples of \<open>pow2 (e - 52)\<close>, and below the normal range the multiples of
  \<open>pow2 (- 1074)\<close>. A result of magnitude \<open>2 ^ 1024 - 2 ^ 970\<close> or more, half a
  step beyond the largest double, rounds to an infinity.
\<close>

datatype double = Finite rat | PosInf | NegInf | NaN

definition round_half_even :: "rat \<Rightarrow> int" where
  "round_half_even q = (let f = \<lfloor>q\<rfloor>; r = q - of_int f in
     if r < 1/2 then f else if 1/2 < r then f + 1 else if even f then f else f + 1)"

definition pow2 :: "int \<Rightarrow> rat" where
  "pow2 e = (if 0 \<le> e then 2 ^ nat e else 1 / 2 ^ nat (- e))"

definition binade :: "rat \<Rightarrow> int" where
  "binade x = (if 1 \<le> \<bar>x\<bar> then bitlen \<lfloor>\<bar>x\<bar>\<rfloor> - 1 else - bitlen (\<lceil>1 / \<bar>x\<bar>\<rceil> - 1))"

definition round_to_double :: "rat \<Rightarrow> rat" where
  "round_to_double x =
     (if x = 0 then 0
      else (let q = pow2 (max (binade x - 52) (- 1074))
            in of_int (round_half_even (x / q)) * q))"

definition overflow_threshold :: rat where
  "overflow_threshold = 2 ^ 1024 - 2 ^ 970"

definition fl :: "rat \<Rightarrow> double" where
  \<comment> \<open>the double nearest to \<open>x\<close>; also what a decimal literal denotes\<close>
  "fl x = (if overflow_threshold \<le> x then PosInf
           else if x \<le> - overflow_threshold then NegInf
           else Finite (round_to_double x))"

definition float_of_int :: "int \<Rightarrow> py_error + double" where
  \<comment> \<open>the conversion of an int operand of a float operation\<close>
  "float_of_int n =
     (case fl (of_int n) of Finite q \<Rightarrow> Inr (Finite q) | _ \<Rightarrow> Inl OverflowError)"

definition int_truediv :: "int \<Rightarrow> int \<Rightarrow> py_error + double" where
  \<comment> \<open>\<^verbatim>\<open>a / b\<close> on two ints: the quotient, rounded once\<close>
  "int_truediv a b =
     (if b = 0 then Inl ZeroDivisionError
      else case fl (of_int a / of_int b) of
             Finite q \<Rightarrow> Inr (Finite q)
           | _ \<Rightarrow> Inl OverflowError)"

fun float_mul :: "double \<Rightarrow> double \<Rightarrow> double" where
  "float_mul (Finite x) (Finite y) = fl (x * y)"
| "float_mul (Finite x) PosInf = (if x = 0 then NaN else if 0 < x then PosInf else NegInf)"
| "float_mul (Finite x) NegInf = (if x = 0 then NaN else if 0 < x then NegInf else PosInf)"
| "float_mul PosInf (Finite y) = (if y = 0 then NaN else if 0 < y then PosInf else NegInf)"
| "float_mul NegInf (Finite y) = (if y = 0 then NaN else if 0 < y then NegInf else PosInf)"
| "float_mul PosInf PosInf = PosInf"
| "float_mul PosInf NegInf = NegInf"
| "float_mul NegInf PosInf = NegInf"
| "float_mul NegInf NegInf = PosInf"
| "float_mul NaN _ = NaN"
| "float_mul _ NaN = NaN"

fun float_add :: "double \<Rightarrow> double \<Rightarrow> double" where
  "float_add (Finite x) (Finite y) = fl (x + y)"
| "float_add NaN _ = NaN"
| "float_add _ NaN = NaN"
| "float_add PosInf NegInf = NaN"
| "float_add NegInf PosInf = NaN"
| "float_add PosInf _ = PosInf"
| "float_add _ PosInf = PosInf"
| "float_add NegInf _ = NegInf"
| "float_add _ NegInf = NegInf"

fun float_truediv :: "double \<Rightarrow> double \<Rightarrow> py_error + double" where
  \<comment> \<open>\<^verbatim>\<open>a / b\<close> on two floats raises on a zero divisor, whatever \<^verbatim>\<open>a\<close> is\<close>
  "float_truediv a (Finite y) =
     (if y = 0 then Inl ZeroDivisionError
      else Inr (case a of
                  Finite x \<Rightarrow> fl (x / y)
                | PosInf \<Rightarrow> (if 0 < y then PosInf else NegInf)
                | NegInf \<Rightarrow> (if 0 < y then NegInf else PosInf)
                | NaN \<Rightarrow> NaN))"
| "float_truediv (Finite x) PosInf = Inr (Finite 0)"
| "float_truediv (Finite x) NegInf = Inr (Finite 0)"
| "float_truediv a b = Inr NaN"

definition float_round2 :: "double \<Rightarrow> py_error + double" where
  \<comment> \<open>\<^verbatim>\<open>round(x, 2)\<close> on a float: the value the float stands for is rounded to two
      decimals, ties to even, and the decimal result converted back; an infinity or
      a NaN rounds to itself\<close>
  "float_round2 x =
     (case x of
        Finite q \<Rightarrow>
          (case fl (of_int (round_half_even (q * 100)) / 100) of
             Finite r \<Rightarrow> Inr (Finite r)
           | _ \<Rightarrow> Inl OverflowError)
      | _ \<Rightarrow> Inr x)"

subsection \<open>Numbers\<close>

text \<open>
  A number read from a document is an int or a float, and the arithmetic operators
  convert an int operand when the other operand is a float.
\<close>

datatype py_num = PyInt int | PyFloat double

fun num_mul :: "py_num \<Rightarrow> py_num \<Rightarrow> py_error + py_num" where
  "num_mul (PyInt a) (PyInt b) = Inr (PyInt (a * b))"
| "num_mul (PyFloat x) (PyInt b) = and_then (float_of_int b) (\<lambda>y. Inr (PyFloat (float_mul x y)))"
| "num_mul (PyInt a) (PyFloat y) = and_then (float_of_int a) (\<lambda>x. Inr (PyFloat (float_mul x y)))"
| "num_mul (PyFloat x) (PyFloat y) = Inr (PyFloat (float_mul x y))"

fun num_add :: "py_num \<Rightarrow> py_num \<Rightarrow> py_error + py_num" where
  "num_add (PyInt a) (PyInt b) = Inr (PyInt (a + b))"
| "num_add (PyFloat x) (PyInt b) = and_then (float_of_int b) (\<lambda>y. Inr (PyFloat (float_add x y)))"
| "num_add (PyInt a) (PyFloat y) = and_then (float_of_int a) (\<lambda>x. Inr (PyFloat (float_add x y)))"
| "num_add (PyFloat x) (PyFloat y) = Inr (PyFloat (float_add x y))"

fun num_truediv :: "py_num \<Rightarrow> py_num \<Rightarrow> py_error + py_num" where
  "num_truediv (PyInt a) (PyInt b) = and_then (int_truediv a b) (\<lambda>q. Inr (PyFloat q))"
| "num_truediv (PyFloat x) (PyInt b) =
     and_then (float_of_int b) (\<lambda>y. and_then (float_truediv x y) (\<lambda>q. Inr (PyFloat q)))"
| "num_truediv (PyInt a) (PyFloat y) =
     and_then (float_of_int a) (\<lambda>x. and_then (float_truediv x y) (\<lambda>q. Inr (PyFloat q)))"
| "num_truediv (PyFloat x) (PyFloat y) = and_then (float_truediv x y) (\<lambda>q. Inr (PyFloat q))"

fun py_round2 :: "py_num \<Rightarrow> py_error + py_num" where
  \<comment> \<open>\<^verbatim>\<open>round(x, 2)\<close>; an int rounds to itself\<close>
  "py_round2 (PyInt n) = Inr (PyInt n)"
| "py_round2 (PyFloat x) = and_then (float_round2 x) (\<lambda>r. Inr (PyFloat r))"

definition bson_int :: "int \<Rightarrow> bool" where
  \<comment> \<open>the ints the driver encodes: eight bytes at most, or it raises
      \<^verbatim>\<open>OverflowError\<close>\<close>
  "bson_int n = (- (2 ^ 63) \<le> n \<and> n < 2 ^ 63)"

fun bson_num :: "py_num \<Rightarrow> bool" where
  "bson_num (PyInt n) = bson_int n"
| "bson_num (PyFloat x) = True"

definition newline :: char where
  "newline = CHR 0x0A"

definition is_space :: "char \<Rightarrow> bool" where
  \<comment> \<open>\<^verbatim>\<open>str.isspace\<close> and the regular expression class \<^verbatim>\<open>\s\<close>\<close>
  "is_space c = (let n = (of_char c :: nat) in
     (9 \<le> n \<and> n \<le> 13) \<or> (28 \<le> n \<and> n \<le> 32) \<or> n = 133 \<or> n = 160)"

definition is_word :: "char \<Rightarrow> bool" where
  \<comment> \<open>the regular expression class \<^verbatim>\<open>\w\<close>: \<^verbatim>\<open>str.isalnum\<close> or an underscore\<close>
  "is_word c = (let n = (of_char c :: nat) in
     (48 \<le> n \<and> n \<le> 57) \<or> (65 \<le> n \<and> n \<le> 90) \<or> (97 \<le> n \<and> n \<le> 122) \<or> n = 95 \<or>
     n = 170 \<or> n = 178 \<or> n = 179 \<or> n = 181 \<or> n = 185 \<or> n = 186 \<or>
     (188 \<le> n \<and> n \<le> 190) \<or> (192 \<le> n \<and> n \<le> 214) \<or> (216 \<le> n \<and> n \<le> 246) \<or>
     (248 \<le> n \<and> n \<le> 255))"

definition ascii_lower :: "char \<Rightarrow> char" where
  "ascii_lower c = (let n = (of_char c :: nat) in
     if 65 \<le> n \<and> n \<le> 90 then char_of (n + 32) else c)"

definition lstrip :: "string \<Rightarrow> string" where
  "lstrip s = dropWhile is_space s"

definition rstrip :: "string \<Rightarrow> string" where
  "rstrip s = rev (dropWhile is_space (rev s))"

definition strip :: "string \<Rightarrow> string" where
  "strip s = rstrip (lstrip s)"

definition endswith :: "string \<Rightarrow> string \<Rightarrow> bool" where
  "endswith s suffix = (length suffix \<le> length s \<and> drop (length s - length suffix) s = suffix)"

definition startswith :: "string \<Rightarrow> string \<Rightarrow> bool" where
  "startswith s pre = (take (length pre) s = pre)"

fun py_join :: "string \<Rightarrow> string list \<Rightarrow> string" where
  "py_join sep [] = []"
| "py_join sep [x] = x"
| "py_join sep (x # y # ys) = x @ sep @ py_join sep (y # ys)"

definition last_n :: "nat \<Rightarrow> 'a list \<Rightarrow> 'a list" where
  \<comment> \<open>the slice \<^verbatim>\<open>xs[-n:]\<close> for a positive literal \<^verbatim>\<open>n\<close>\<close>
  "last_n n xs = drop (length xs - n) xs"

fun digit_char :: "nat \<Rightarrow> char" where
  "digit_char n = char_of (48 + n mod 10)"

function str_nat :: "nat \<Rightarrow> string" where
  "str_nat n = (if n < 10 then [digit_char n] else str_nat (n div 10) @ [digit_char n])"
  by pat_completeness auto
termination
  by (relation "measure id") auto

definition str_int :: "int \<Rightarrow> string" where
  \<comment> \<open>\<^verbatim>\<open>str(i)\<close>, as an f-string formats an int\<close>
  "str_int i = (if i < 0 then CHR ''-'' # str_nat (nat (- i)) else str_nat (nat i))"

section \<open>Personalities (\<^verbatim>\<open>models/personality.py\<close>)\<close>

record AIPersonality =
  name :: string
  description :: string
  personality_traits :: "string list"
  debate_style :: string
  system_prompt :: string
  wins :: int
  total_debates :: int
  total_arguments :: int
  average_votes :: py_num

definition AIPersonality_init ::
  "string \<Rightarrow> string \<Rightarrow> string list \<Rightarrow> string \<Rightarrow> string \<Rightarrow> AIPersonality" where
  "AIPersonality_init n d traits style prompt =
     \<lparr>name = n, description = d, personality_traits = traits, debate_style = style,
      system_prompt = prompt, wins = 0, total_debates = 0, total_arguments = 0,
      average_votes = PyFloat (Finite 0)\<rparr>"

definition get_win_rate :: "AIPersonality \<Rightarrow> py_error + double" where
  \<comment> \<open>the int \<^verbatim>\<open>100\<close> converts to the float 100.0\<close>
  "get_win_rate p =
     (if total_debates p = 0 then Inr (Finite 0)
      else case int_truediv (wins p) (total_debates p) of
             Inl e \<Rightarrow> Inl e
           | Inr q \<Rightarrow> float_round2 (float_mul q (Finite 100)))"

definition calculate_win_rate :: "int \<Rightarrow> int \<Rightarrow> py_error + double" where
  \<comment> \<open>\<^verbatim>\<open>utils/helpers.py\<close>\<close>
  "calculate_win_rate w tot =
     (if tot = 0 then Inr (Finite 0)
      else case int_truediv w tot of
             Inl e \<Rightarrow> Inl e
           | Inr q \<Rightarrow> float_round2 (float_mul q (Finite 100)))"

definition update_stats :: "AIPersonality \<Rightarrow> bool \<Rightarrow> int \<Rightarrow> py_error + AIPersonality" where
  \<comment> \<open>\<^verbatim>\<open>AIPersonality.update_stats\<close>; the division is guarded by
      \<^verbatim>\<open>total_arguments > 1\<close>, and an exception of the arithmetic leaves the method\<close>
  "update_stats p won votes_received =
     (let p1 = p\<lparr>total_debates := total_debates p + 1\<rparr>;
          p2 = p1\<lparr>total_arguments := total_arguments p1 + 1\<rparr>;
          p3 = (if won then p2\<lparr>wins := wins p2 + 1\<rparr> else p2)
      in if total_arguments p3 > 1
         then and_then (num_mul (average_votes p3) (PyInt (total_arguments p3 - 1))) (\<lambda>prod.
              and_then (num_add prod (PyInt votes_received)) (\<lambda>total_sum.
              and_then (num_truediv total_sum (PyInt (total_arguments p3))) (\<lambda>avg.
              Inr (p3\<lparr>average_votes := avg\<rparr>))))
         else Inr (p3\<lparr>average_votes := PyInt votes_received\<rparr>))"

definition philosopher_system_prompt :: string where
  \<open>philosopher_system_prompt = py_join [newline]
    [''You are The Philosopher, a deep thinker who approaches every debate through the lens of ethics, morality, and philosophical reasoning. '',
     '''',
     ''Your approach:'',
     ''- Ask probing questions that challenge fundamental assumptions'',
     ''- Reference philosophical concepts, ethical frameworks, and moral principles'',
     ''- Consider the broader implications for humanity and society'',
     ''- Use logical reasoning while acknowledging the complexity of human nature'',
     ''- Draw from historical philosophical thought when relevant'',
     ''- Always consider multiple perspectives before forming conclusions'',
     '''',
     ''Keep responses thoughtful but concise (under 500 characters). Focus on the ethical dimensions and deeper meaning of the topic.'']\<close>

definition the_philosopher :: AIPersonality where
  \<open>the_philosopher = AIPersonality_init
     ''The Philosopher''
     ''Deep thinker who approaches debates with ethical and philosophical reasoning, always seeking the deeper meaning and moral implications.''
     [''thoughtful'', ''ethical'', ''analytical'', ''questioning'', ''wisdom-seeking'']
     ''Socratic questioning and ethical frameworks with philosophical depth''
     philosopher_system_prompt\<close>

definition scientist_system_prompt :: string where
  \<open>scientist_system_prompt = py_join [newline]
    [''You are The Scientist, who approaches debates with rigorous logical thinking and evidence-based reasoning.'',
     '''',
     ''Your approach:'',
     ''- Always ask for data and empirical evidence'',
     ''- Apply the scientific method to evaluate claims'',
     ''- Be precise and methodical in your arguments'',
     ''- Reference studies, statistics, and research when possible'',
     ''- Acknowledge uncertainty and the need for more data when appropriate'',
     ''- Focus on what can be measured and verified'',
     ''- Challenge claims that lack scientific support'',
     '''',
     ''Keep responses factual and concise (under 500 characters). Prioritize evidence over opinion.'']\<close>

definition the_scientist :: AIPersonality where
  \<open>the_scientist = AIPersonality_init
     ''The Scientist''
     ''Evidence-based debater who relies on data, research, and logical reasoning to form conclusions.''
     [''logical'', ''evidence-based'', ''methodical'', ''precise'', ''data-driven'']
     ''Data-driven arguments with scientific methodology and empirical evidence''
     scientist_system_prompt\<close>

definition advocate_system_prompt :: string where
  \<open>advocate_system_prompt = py_join [newline]
    [''You are The Advocate, passionate about social justice and human rights. You debate with empathy and moral conviction.'',
     '''',
     ''Your approach:'',
     ''- Focus on how issues affect vulnerable and marginalized populations'',
     ''- Use emotional appeals combined with strong moral arguments'',
     ''- Advocate for equality, fairness, and protection of rights'',
     ''- Consider the human cost of policies and decisions'',
     ''- Challenge systems of oppression and inequality'',
     ''- Speak for those who cannot speak for themselves'',
     ''- Balance passion with factual arguments'',
     '''',
     ''Keep responses passionate but focused (under 500 characters). Always consider the human impact.'']\<close>

definition the_advocate :: AIPersonality where
  \<open>the_advocate = AIPersonality_init
     ''The Advocate''
     ''Passionate defender of social justice and human rights, focusing on protecting vulnerable populations.''
     [''passionate'', ''empathetic'', ''justice-focused'', ''persuasive'', ''protective'']
     ''Emotional appeals combined with social justice arguments and human rights focus''
     advocate_system_prompt\<close>

definition pragmatist_system_prompt :: string where
  \<open>pragmatist_system_prompt = py_join [newline]
    [''You are The Pragmatist, focused on practical solutions and real-world outcomes.'',
     '''',
     ''Your approach:'',
     ''- Examine what actually works in practice vs. theory'',
     ''- Consider costs, benefits, and feasibility of proposed solutions'',
     ''- Focus on implementable and sustainable approaches'',
     ''- Ask "how would this work in reality?"'',
     ''- Consider resource constraints and limitations'',
     ''- Prioritize solutions that can be implemented quickly and effectively'',
     ''- Focus on measurable outcomes and results'',
     ''- Challenge idealistic proposals with practical concerns'',
     '''',
     ''Keep responses practical and actionable (under 500 characters). Focus on implementation over theory.'']\<close>

definition the_pragmatist :: AIPersonality where
  \<open>the_pragmatist = AIPersonality_init
     ''The Pragmatist''
     ''Practical problem-solver focused on real-world solutions, implementation feasibility, and cost-effectiveness.''
     [''practical'', ''solution-oriented'', ''realistic'', ''efficient'', ''results-focused'']
     ''Focus on practical solutions, implementation details, and real-world feasibility''
     pragmatist_system_prompt\<close>

definition contrarian_system_prompt :: string where
  \<open>contrarian_system_prompt = py_join [newline]
    [''You are The Contrarian, who enjoys challenging popular opinions and conventional wisdom.'',
     '''',
     ''Your approach:'',
     ''- Play devil's advocate even when you might personally agree'',
     ''- Poke holes in arguments and challenge assumptions'',
     ''- Present alternative viewpoints that others might not consider'',
     ''- Question the status quo and conventional thinking'',
     ''- Be provocative but intellectually honest'',
     ''- Look for flaws in reasoning and logic'',
     ''- Offer contrarian perspectives that add depth to the debate'',
     '''',
     ''Keep responses challenging but fair (under 500 characters). Always provide alternative viewpoints.'']\<close>

definition the_contrarian :: AIPersonality where
  \<open>the_contrarian = AIPersonality_init
     ''The Contrarian''
     ''Devil's advocate who challenges popular opinions and conventional wisdom, always questioning the status quo.''
     [''skeptical'', ''challenging'', ''unconventional'', ''provocative'', ''independent'']
     ''Playing devil's advocate, challenging assumptions, and presenting alternative viewpoints''
     contrarian_system_prompt\<close>

definition historian_system_prompt :: string where
  \<open>historian_system_prompt = py_join [newline]
    [''You are The Historian, who brings historical context and lessons from the past to every debate.'',
     '''',
     ''Your approach:'',
     ''- Identify patterns and parallels from history'',
     ''- Draw lessons from past successes and failures'',
     ''- Provide historical context to current issues'',
     ''- Reference historical examples and case studies'',
     ''- Warn against repeating historical mistakes'',
     ''- Show how current issues have historical precedents'',
     ''- Use the wisdom of history to inform present decisions'',
     '''',
     ''Keep responses historically informed (under 500 characters). Always connect past to present.'']\<close>

definition the_historian :: AIPersonality where
  \<open>the_historian = AIPersonality_init
     ''The Historian''
     ''Uses historical context and lessons from the past to inform present-day debates and decisions.''
     [''knowledgeable'', ''contextual'', ''pattern-seeking'', ''wise'', ''analytical'']
     ''Historical examples, pattern recognition, and lessons learned from the past''
     historian_system_prompt\<close>

definition DEFAULT_PERSONALITIES :: "AIPersonality list" where
  "DEFAULT_PERSONALITIES =
     [the_philosopher, the_scientist, the_advocate, the_pragmatist, the_contrarian, the_historian]"

section \<open>Debates (\<^verbatim>\<open>models/debate.py\<close>)\<close>

type_synonym object_id = nat

record DebateArgument =
  personality_id :: string
  content :: string
  round_number :: int
  arg_votes :: int
  response_to :: "object_id option"
  tags :: "string list"

definition DebateArgument_init :: "string \<Rightarrow> string \<Rightarrow> int \<Rightarrow> DebateArgument" where
  "DebateArgument_init pid text r =
     \<lparr>personality_id = pid, content = text, round_number = r, arg_votes = 0,
      response_to = None, tags = []\<rparr>"

text \<open>
  One record stands for a \<^verbatim>\<open>Debate\<close> object and for the document stored for it.
  \<open>voter_records\<close> is \<open>None\<close> where the object has no attribute of that name,
  or the document no key of that name.
\<close>

text \<open>
  The values of the two sub-documents of a debate that the application never gives a
  fixed shape: \<^verbatim>\<open>votes\<close> and \<^verbatim>\<open>voter_records\<close>. Their keys come from the
  requests, and the server reads a dot in a key as a step into a nested document.
\<close>

datatype bson = BInt int | BStr string | BDoc "(string \<times> bson) list"

type_synonym document = "(string \<times> bson) list"

record Debate =
  debate_id :: object_id
  topic :: string
  creator_id :: "string option"
  status :: string
  participants :: "string list"
  arguments :: "DebateArgument list"
  current_round :: int
  max_rounds :: int
  winner :: "string option"
  judge_decision :: "string option"
  judge_id :: "string option"
  votes :: document
  total_votes :: int
  voter_records :: "document option"

definition Debate_init :: "string \<Rightarrow> string option \<Rightarrow> object_id \<Rightarrow> Debate" where
  \<comment> \<open>\<^verbatim>\<open>Debate.__init__\<close>: it sets no attribute \<^verbatim>\<open>voter_records\<close>\<close>
  "Debate_init t creator did =
     \<lparr>debate_id = did, topic = t, creator_id = creator, status = ''created'',
      participants = [], arguments = [], current_round = 1, max_rounds = 3,
      winner = None, judge_decision = None, judge_id = None, votes = [],
      total_votes = 0, voter_records = None\<rparr>"

definition Debate_dict :: "Debate \<Rightarrow> Debate" where
  \<comment> \<open>\<^verbatim>\<open>Debate._dict\<close>: the keys it lists, and no others\<close>
  "Debate_dict d =
     \<lparr>debate_id = debate_id d, topic = topic d, creator_id = creator_id d,
      status = status d, participants = participants d, arguments = arguments d,
      current_round = current_round d, max_rounds = max_rounds d, winner = winner d,
      judge_decision = judge_decision d, judge_id = judge_id d, votes = votes d,
      total_votes = total_votes d, voter_records = None\<rparr>"

definition from_dict :: "Debate \<Rightarrow> Debate" where
  \<comment> \<open>\<^verbatim>\<open>Debate.from_dict\<close>: the constructor, then one assignment per key it reads\<close>
  "from_dict data =
     (Debate_init (topic data) (creator_id data) (debate_id data))
       \<lparr>status := status data, participants := participants data,
        arguments := arguments data, current_round := current_round data,
        max_rounds := max_rounds data, winner := winner data,
        judge_decision := judge_decision data, judge_id := judge_id data,
        votes := votes data, total_votes := total_votes data\<rparr>"

section \<open>The database\<close>

text \<open>
  The collection \<^verbatim>\<open>debates\<close> maps an id to its document; the collection
  \<^verbatim>\<open>personalities\<close> is the list of its documents in their natural order.
  \<^verbatim>\<open>update_one\<close> changes the document with the given id when it passes the filter,
  as one atomic step, and reports how many documents it modified. Every update of
  the source also writes \<^verbatim>\<open>updated_at\<close> with the current time, so a document that
  matches is a document that is modified.
\<close>

record store =
  debates :: "object_id \<rightharpoonup> Debate"
  personalities :: "AIPersonality list"
  refuses :: "string \<Rightarrow> bool"

definition update_one :: "store \<Rightarrow> object_id \<Rightarrow> (Debate \<Rightarrow> bool) \<Rightarrow> (Debate \<Rightarrow> Debate) \<Rightarrow> nat \<times> store" where
  "update_one st did flt upd =
     (case debates st did of
        None \<Rightarrow> (0, st)
      | Some d \<Rightarrow> if flt d then (1, st\<lparr>debates := (debates st)(did \<mapsto> upd d)\<rparr>) else (0, st))"

text \<open>
  An update names a field by a key such as \<^verbatim>\<open>votes.The Scientist\<close>. The server
  splits the key at its dots and follows the components from the top of the document:
  a component that is missing is created, with the nested documents the rest of the
  path asks for; a component that holds a document is entered; a component that holds
  anything else stops the update, and so does an \<^verbatim>\<open>$inc\<close> that arrives at a value
  that is no number or would leave the eight bytes of an int. A key with an empty
  component or a NUL character is refused by every server and driver. Whether a key
  with a component that starts with a dollar sign is refused depends on the server's
  version; \<open>refuses\<close> of the store says which of those keys its server refuses. An
  update that is stopped or refused changes nothing and raises in the driver.
\<close>

datatype write_error = InvalidKey | PathNotViable | TypeMismatch | IntegerOverflow

fun split_on :: "char \<Rightarrow> string \<Rightarrow> string list" where
  \<comment> \<open>\<^verbatim>\<open>s.split(c)\<close>\<close>
  "split_on c [] = [[]]"
| "split_on c (x # xs) =
     (if x = c then [] # split_on c xs
      else (case split_on c xs of p # ps \<Rightarrow> (x # p) # ps | [] \<Rightarrow> [[x]]))"

definition key_refused :: "store \<Rightarrow> string \<Rightarrow> bool" where
  "key_refused st key =
     (let path = split_on CHR ''.'' key
      in [] \<in> set path \<or> CHR 0x00 \<in> set key
         \<or> ((\<exists>c \<in> set path. take 1 c = ''$'') \<and> refuses st key))"

fun nested :: "string list \<Rightarrow> bson \<Rightarrow> bson" where
  \<comment> \<open>the value a missing component is created with\<close>
  "nested [] x = x"
| "nested (k # ks) x = BDoc [(k, nested ks x)]"

fun doc_put :: "document \<Rightarrow> string \<Rightarrow> bson \<Rightarrow> document" where
  \<comment> \<open>a field keeps its place; a new field goes to the end\<close>
  "doc_put [] k x = [(k, x)]"
| "doc_put ((k', v) # kvs) k x = (if k' = k then (k', x) # kvs else (k', v) # doc_put kvs k x)"

fun mongo_set :: "document \<Rightarrow> string list \<Rightarrow> bson \<Rightarrow> write_error + document" where
  \<comment> \<open>\<^verbatim>\<open>$set\<close> at a path inside a document\<close>
  "mongo_set doc [] x = Inl InvalidKey"
| "mongo_set doc [k] x = Inr (doc_put doc k x)"
| "mongo_set doc (k # k' # ks) x =
     (case map_of doc k of
        None \<Rightarrow> Inr (doc_put doc k (nested (k' # ks) x))
      | Some (BDoc sub) \<Rightarrow>
          and_then (mongo_set sub (k' # ks) x) (\<lambda>sub'. Inr (doc_put doc k (BDoc sub')))
      | Some _ \<Rightarrow> Inl PathNotViable)"

fun mongo_inc :: "document \<Rightarrow> string list \<Rightarrow> int \<Rightarrow> write_error + document" where
  \<comment> \<open>\<^verbatim>\<open>$inc\<close> at a path inside a document: a missing field starts at the increment\<close>
  "mongo_inc doc [] n = Inl InvalidKey"
| "mongo_inc doc [k] n =
     (case map_of doc k of
        None \<Rightarrow> Inr (doc_put doc k (BInt n))
      | Some (BInt v) \<Rightarrow>
          if bson_int (v + n) then Inr (doc_put doc k (BInt (v + n))) else Inl IntegerOverflow
      | Some _ \<Rightarrow> Inl TypeMismatch)"
| "mongo_inc doc (k # k' # ks) n =
     (case map_of doc k of
        None \<Rightarrow> Inr (doc_put doc k (nested (k' # ks) (BInt n)))
      | Some (BDoc sub) \<Rightarrow>
          and_then (mongo_inc sub (k' # ks) n) (\<lambda>sub'. Inr (doc_put doc k (BDoc sub')))
      | Some _ \<Rightarrow> Inl PathNotViable)"

definition inc_int :: "int \<Rightarrow> int \<Rightarrow> write_error + int" where
  \<comment> \<open>\<^verbatim>\<open>$inc\<close> on an int field of the document itself\<close>
  "inc_int v n = (if bson_int (v + n) then Inr (v + n) else Inl IntegerOverflow)"

definition update_one_checked ::
  "store \<Rightarrow> object_id \<Rightarrow> (Debate \<Rightarrow> bool) \<Rightarrow> string list \<Rightarrow> (Debate \<Rightarrow> write_error + Debate)
     \<Rightarrow> write_error + nat \<times> store" where
  \<comment> \<open>\<^verbatim>\<open>update_one\<close> with keys taken from a request: \<open>keys\<close> are the keys of the
      update, \<open>upd\<close> what its operators make of the document\<close>
  "update_one_checked st did flt keys upd =
     (if \<exists>key \<in> set keys. key_refused st key then Inl InvalidKey
      else case debates st did of
             None \<Rightarrow> Inr (0, st)
           | Some d \<Rightarrow>
               if flt d
               then and_then (upd d) (\<lambda>d'. Inr (1, st\<lparr>debates := (debates st)(did \<mapsto> d')\<rparr>))
               else Inr (0, st))"

fun update_first :: "('a \<Rightarrow> bool) \<Rightarrow> ('a \<Rightarrow> 'a) \<Rightarrow> 'a list \<Rightarrow> 'a list" where
  "update_first P f [] = []"
| "update_first P f (x # xs) = (if P x then f x # xs else x # update_first P f xs)"

section \<open>The personality registry (\<^verbatim>\<open>services/personality_service.py\<close>)\<close>

definition initialize_personalities :: "store \<Rightarrow> store" where
  \<comment> \<open>\<^verbatim>\<open>_initialize_personalities\<close>: seed the collection when it is empty\<close>
  "initialize_personalities st =
     (if length (personalities st) = 0 then st\<lparr>personalities := DEFAULT_PERSONALITIES\<rparr>
      else st)"

definition PersonalityService_init :: "store \<Rightarrow> store" where
  "PersonalityService_init st = initialize_personalities st"

definition get_debate_personalities :: "store \<Rightarrow> AIPersonality list" where
  "get_debate_personalities st = personalities st"

definition update_personality_stats :: "store \<Rightarrow> string \<Rightarrow> bool \<Rightarrow> int \<Rightarrow> store" where
  \<comment> \<open>an exception of the arithmetic or of the driver's encoding is caught and
      logged, and nothing is written\<close>
  "update_personality_stats st personality_name won votes_received =
     (case find (\<lambda>p. name p = personality_name) (personalities st) of
        None \<Rightarrow> st
      | Some personality_data \<Rightarrow>
          (let current_total_debates = total_debates personality_data;
               current_total_arguments = total_arguments personality_data;
               current_average_votes = average_votes personality_data;
               current_wins = wins personality_data;
               new_total_debates = current_total_debates + 1;
               new_total_arguments = current_total_arguments + 1;
               new_wins = current_wins + (if won then 1 else 0);
               new_average_votes =
                 (if new_total_arguments > 1
                  then and_then (num_mul current_average_votes (PyInt current_total_arguments))
                         (\<lambda>prod. and_then (num_add prod (PyInt votes_received))
                         (\<lambda>total_sum. num_truediv total_sum (PyInt new_total_arguments)))
                  else Inr (PyInt votes_received))
           in case and_then new_average_votes py_round2 of
                Inl e \<Rightarrow> st
              | Inr rounded \<Rightarrow>
                  if bson_int new_total_debates \<and> bson_int new_total_arguments
                     \<and> bson_int new_wins \<and> bson_num rounded
                  then st\<lparr>personalities :=
                         update_first (\<lambda>p. name p = personality_name)
                           (\<lambda>p. p\<lparr>total_debates := new_total_debates,
                                   total_arguments := new_total_arguments,
                                   wins := new_wins,
                                   average_votes := rounded\<rparr>)
                           (personalities st)\<rparr>
                  else st))"

definition running_average :: "py_num \<Rightarrow> int \<Rightarrow> int \<Rightarrow> py_error + py_num" where
  \<comment> \<open>the formula of the specification, \<open>(old_avg * old_n + votes_received) / new_n\<close>
      with \<open>new_n = old_n + 1\<close>, evaluated as Python evaluates it; the theorems
      compare what the methods store with it\<close>
  "running_average old_avg old_n votes_received =
     and_then (num_mul old_avg (PyInt old_n)) (\<lambda>prod.
     and_then (num_add prod (PyInt votes_received)) (\<lambda>total_sum.
     num_truediv total_sum (PyInt (old_n + 1))))"

section \<open>The debate service (\<^verbatim>\<open>services/debate_service.py\<close>)\<close>

definition DebateService_init :: "store \<Rightarrow> store" where
  \<comment> \<open>the constructor builds a \<^verbatim>\<open>PersonalityService\<close>, whose constructor seeds\<close>
  "DebateService_init st = PersonalityService_init st"

datatype db_error = DuplicateKeyError

definition create_debate ::
  "store \<Rightarrow> object_id \<Rightarrow> string \<Rightarrow> string option \<Rightarrow> db_error + Debate \<times> store" where
  \<comment> \<open>\<open>new_id\<close> is the \<^verbatim>\<open>ObjectId()\<close> the constructor draws; \<^verbatim>\<open>insert_one\<close> raises
      on an id the collection holds already, and the method raises it again\<close>
  "create_debate st new_id t creator =
     (let debate = Debate_init t creator new_id;
          ps = get_debate_personalities st;
          debate = debate\<lparr>participants := map name ps\<rparr>
      in if debates st new_id \<noteq> None then Inl DuplicateKeyError
         else Inr (debate, st\<lparr>debates := (debates st)(new_id \<mapsto> Debate_dict debate)\<rparr>))"

definition get_debate :: "store \<Rightarrow> object_id \<Rightarrow> Debate option" where
  "get_debate st did = (case debates st did of None \<Rightarrow> None | Some data \<Rightarrow> Some (from_dict data))"

definition start_debate :: "store \<Rightarrow> object_id \<Rightarrow> Debate option \<times> store" where
  "start_debate st did =
     (case update_one st did (\<lambda>d. status d = ''created'') (\<lambda>d. d\<lparr>status := ''in_progress''\<rparr>) of
        (modified_count, st') \<Rightarrow>
          if modified_count > 0 then (get_debate st' did, st') else (None, st'))"

definition add_argument :: "store \<Rightarrow> object_id \<Rightarrow> DebateArgument \<Rightarrow> bool \<times> store" where
  "add_argument st did argument =
     (case update_one st did (\<lambda>d. True) (\<lambda>d. d\<lparr>arguments := arguments d @ [argument]\<rparr>) of
        (modified_count, st') \<Rightarrow> (modified_count > 0, st'))"

definition update_round :: "store \<Rightarrow> object_id \<Rightarrow> int \<Rightarrow> bool \<times> store" where
  "update_round st did r =
     (case update_one st did (\<lambda>d. True) (\<lambda>d. d\<lparr>current_round := r\<rparr>) of
        (modified_count, st') \<Rightarrow> (modified_count > 0, st'))"

definition end_debate :: "store \<Rightarrow> object_id \<Rightarrow> bool \<times> store" where
  "end_debate st did =
     (case update_one st did (\<lambda>d. True) (\<lambda>d. d\<lparr>status := ''completed''\<rparr>) of
        (modified_count, st') \<Rightarrow> (modified_count > 0, st'))"

definition judge_debate :: "store \<Rightarrow> object_id \<Rightarrow> string \<Rightarrow> string \<Rightarrow> string option \<Rightarrow> bool \<times> store" where
  "judge_debate st did w reasoning jid =
     (case update_one st did (\<lambda>d. True)
             (\<lambda>d. d\<lparr>status := ''judged'', winner := Some w,
                     judge_decision := Some reasoning, judge_id := jid\<rparr>) of
        (modified_count, st1) \<Rightarrow>
          if modified_count > 0 then
            (let st2 = update_personality_stats st1 w True 0;
                 st3 = (case get_debate st2 did of
                          None \<Rightarrow> st2
                        | Some debate \<Rightarrow>
                            fold (\<lambda>participant s.
                                    if participant \<noteq> w
                                    then update_personality_stats s participant False 0
                                    else s)
                                 (participants debate) st2)
             in (True, st3))
          else (False, st1))"

definition add_vote :: "store \<Rightarrow> object_id \<Rightarrow> string \<Rightarrow> string \<Rightarrow> bool \<times> store" where
  \<comment> \<open>the first component of each key names \<^verbatim>\<open>votes\<close> or \<^verbatim>\<open>voter_records\<close>, and
      the rest is the path inside it; \<^verbatim>\<open>voter_records\<close> is created when the document
      has none; the handler turns an exception of the update into \<^verbatim>\<open>False\<close>\<close>
  "add_vote st did pid voter =
     (case get_debate st did of
        None \<Rightarrow> (False, st)
      | Some debate \<Rightarrow>
          (let recorded = (case voter_records debate of None \<Rightarrow> [] | Some vr \<Rightarrow> vr)
           in if voter \<in> set (map fst recorded) then (False, st)
              else case update_one_checked st did (\<lambda>d. True)
                          [''votes.'' @ pid, ''voter_records.'' @ voter]
                          (\<lambda>d. and_then (mongo_inc (votes d) (split_on CHR ''.'' pid) 1) (\<lambda>vs.
                                and_then (inc_int (total_votes d) 1) (\<lambda>tv.
                                and_then (mongo_set (case voter_records d of None \<Rightarrow> [] | Some vr \<Rightarrow> vr)
                                            (split_on CHR ''.'' voter) (BStr pid)) (\<lambda>vr.
                                Inr (d\<lparr>votes := vs, total_votes := tv,
                                       voter_records := Some vr\<rparr>))))) of
                     Inl e \<Rightarrow> (False, st)
                   | Inr (modified_count, st') \<Rightarrow> (modified_count > 0, st')))"

fun sum_from :: "int \<Rightarrow> bson list \<Rightarrow> py_error + int" where
  "sum_from acc [] = Inr acc"
| "sum_from acc (BInt n # vs) = sum_from (acc + n) vs"
| "sum_from acc (v # vs) = Inl TypeError"

definition sum_values :: "document \<Rightarrow> py_error + int" where
  \<comment> \<open>the specification's \<^verbatim>\<open>sum(votes.values())\<close>, as Python evaluates it: it adds
      the values to 0 in their order, and adding a value that is no number raises\<close>
  "sum_values doc = sum_from 0 (map snd doc)"

section \<open>Argument generation (\<^verbatim>\<open>services/ai_service.py\<close>)\<close>

text \<open>
  The text-generation pipeline and Python's \<^verbatim>\<open>random\<close> module are the environment
  of the service. \<open>generator\<close> is \<open>None\<close> when no model could be loaded;
  otherwise \<open>g k prompt\<close> is the \<^verbatim>\<open>generated_text\<close> of the call made at position
  \<open>k\<close> of the random stream, or \<open>None\<close> when that call raises. \<open>rand k\<close> is
  the number drawn at position \<open>k\<close>. \<open>raises k\<close> tells whether
  \<^verbatim>\<open>_generate_argument\<close>, entered at position \<open>k\<close>, raises outside its own
  handler. A function that draws returns the position it has advanced to.
\<close>

record ai_env =
  generator :: "(nat \<Rightarrow> string \<Rightarrow> string option) option"
  rand :: "nat \<Rightarrow> nat"
  raises :: "nat \<Rightarrow> bool"

datatype exn = Exception

definition MAX_ARGUMENT_LENGTH :: nat where
  \<comment> \<open>\<^verbatim>\<open>config.py\<close>\<close>
  "MAX_ARGUMENT_LENGTH = 500"

definition randbelow :: "ai_env \<Rightarrow> nat \<Rightarrow> nat \<Rightarrow> nat" where
  "randbelow env k n = rand env k mod n"

fun shuffle_from :: "ai_env \<Rightarrow> nat \<Rightarrow> 'a list \<Rightarrow> nat \<Rightarrow> 'a list \<times> nat" where
  \<comment> \<open>the loop of \<^verbatim>\<open>random.shuffle\<close>: \<^verbatim>\<open>i\<close> runs from the last index down to 1\<close>
  "shuffle_from env 0 xs k = (xs, k)"
| "shuffle_from env (Suc i) xs k =
     (let j = randbelow env k (Suc i + 1)
      in shuffle_from env i (xs[Suc i := xs ! j, j := xs ! Suc i]) (k + 1))"

definition random_shuffle :: "ai_env \<Rightarrow> nat \<Rightarrow> 'a list \<Rightarrow> 'a list \<times> nat" where
  "random_shuffle env k xs = shuffle_from env (length xs - 1) xs k"

definition random_choice :: "ai_env \<Rightarrow> nat \<Rightarrow> 'a list \<Rightarrow> 'a \<times> nat" where
  \<comment> \<open>called on non-empty lists only\<close>
  "random_choice env k xs = (xs ! randbelow env k (length xs), k + 1)"

definition get_round_context :: "int \<Rightarrow> string" where
  "get_round_context r =
     (if r = 1 then ''ROUND 1: Present your opening argument and establish your position.''
      else if r = 2 then ''ROUND 2: Respond to previous arguments and strengthen your position.''
      else ''ROUND '' @ str_int r @ '': Final arguments - make your strongest case.'')"

definition build_context :: "Debate \<Rightarrow> int \<Rightarrow> string" where
  "build_context debate r =
     (if r = 1 then []
      else
        (let context_parts =
               map (\<lambda>arg. ''Round '' @ str_int (round_number arg) @ '' - '' @ personality_id arg
                            @ '': '' @ take 150 (content arg) @ ''...'')
                   (filter (\<lambda>arg. round_number arg < r) (arguments debate))
         in if context_parts = [] then []
            else [newline] @ ''PREVIOUS ROUNDS:'' @ [newline]
                   @ py_join [newline] (last_n 8 context_parts)))"

definition build_enhanced_prompt ::
  "AIPersonality \<Rightarrow> string \<Rightarrow> string \<Rightarrow> int \<Rightarrow> DebateArgument list \<Rightarrow> string" where
  "build_enhanced_prompt personality t context r current_round_args =
     (let round_context = get_round_context r;
          current_round_context =
            (if current_round_args \<noteq> [] then
               [newline, newline] @ ''Other participants in this round have said:'' @ [newline]
                 @ concat (map (\<lambda>arg. ''- '' @ personality_id arg @ '': ''
                                         @ take 100 (content arg) @ ''...'' @ [newline])
                               (last_n 2 current_round_args))
             else []);
          prompt = system_prompt personality @ [newline, newline]
                     @ ''DEBATE TOPIC: '' @ t @ [newline]
                     @ round_context @ [newline, newline]
                     @ context @ [newline]
                     @ current_round_context @ [newline, newline]
                     @ ''As '' @ name personality @ '', provide your '' @ str_int r
                     @ '' argument. Be specific, compelling, and stay true to your personality. ''
                     @ [newline] @ ''Argument:''
      in strip prompt)"

definition is_quote :: "char \<Rightarrow> bool" where
  "is_quote c = (c = CHR 0x22 \<or> c = CHR 0x27)"

definition remove_surrounding_quotes :: "string \<Rightarrow> string" where
  \<comment> \<open>the substitution of \<^verbatim>\<open>^["']|["']$\<close>; \<^verbatim>\<open>$\<close> also matches before a final newline\<close>
  "remove_surrounding_quotes s =
     (let s1 = (case s of [] \<Rightarrow> s | c # cs \<Rightarrow> if is_quote c then cs else s)
      in if s1 \<noteq> [] \<and> is_quote (last s1) then butlast s1
         else if 2 \<le> length s1 \<and> last s1 = newline \<and> is_quote (last (butlast s1))
              then butlast (butlast s1) @ [newline]
         else s1)"

function collapse_runs :: "(char \<Rightarrow> bool) \<Rightarrow> string \<Rightarrow> string" where
  \<comment> \<open>the substitution of \<^verbatim>\<open>P+\<close> by one space\<close>
  "collapse_runs P [] = []"
| "collapse_runs P (c # cs) =
     (if P c then CHR '' '' # collapse_runs P (dropWhile P cs) else c # collapse_runs P cs)"
  by pat_completeness auto
termination
  by (relation "measure (\<lambda>(P, s). length s)") (auto simp: length_dropWhile_le less_Suc_eq_le)

definition match_self_reference :: "string \<Rightarrow> string \<Rightarrow> string option" where
  \<comment> \<open>\<open>pat\<close>, ignoring case, then \<^verbatim>\<open>\s+\w+[,:]?\s*\<close>; the result is what follows the match\<close>
  "match_self_reference pat s =
     (if map ascii_lower (take (length pat) s) = pat then
        (let r1 = drop (length pat) s;
             r2 = dropWhile is_space r1;
             r3 = dropWhile is_word r2
         in if r2 \<noteq> r1 \<and> r3 \<noteq> r2 then
              Some (dropWhile is_space
                      (case r3 of [] \<Rightarrow> r3
                       | c # cs \<Rightarrow> if c = CHR '','' \<or> c = CHR '':'' then cs else r3))
            else None)
      else None)"

definition remove_self_reference :: "string \<Rightarrow> string" where
  \<comment> \<open>the substitution of \<^verbatim>\<open>^(As|I am|I'm)\s+\w+[,:]?\s*\<close>, ignoring case\<close>
  "remove_self_reference s =
     (case match_self_reference ''as'' s of
        Some r \<Rightarrow> r
      | None \<Rightarrow>
          (case match_self_reference ''i am'' s of
             Some r \<Rightarrow> r
           | None \<Rightarrow>
               (case match_self_reference ''i'm'' s of
                  Some r \<Rightarrow> r
                | None \<Rightarrow> s)))"

fun split_sentences_from :: "string \<Rightarrow> string \<Rightarrow> string list" where
  \<comment> \<open>\<^verbatim>\<open>split('. ')\<close>; the first argument is the current piece, reversed\<close>
  "split_sentences_from cur [] = [rev cur]"
| "split_sentences_from cur [c] = [rev (c # cur)]"
| "split_sentences_from cur (c # d # cs) =
     (if c = CHR ''.'' \<and> d = CHR '' '' then rev cur # split_sentences_from [] cs
      else split_sentences_from (c # cur) (d # cs))"

definition split_sentences :: "string \<Rightarrow> string list" where
  "split_sentences s = split_sentences_from [] s"

definition ends_with_terminal :: "string \<Rightarrow> bool" where
  \<comment> \<open>\<^verbatim>\<open>endswith(('.', '!', '?'))\<close>\<close>
  "ends_with_terminal s = (endswith s ''.'' \<or> endswith s ''!'' \<or> endswith s ''?'')"

definition clean_and_validate_argument :: "string \<Rightarrow> string" where
  "clean_and_validate_argument argument =
     (if argument = [] then []
      else
        (let a1 = remove_surrounding_quotes argument;
             a2 = collapse_runs (\<lambda>c. c = newline) a1;
             a3 = collapse_runs is_space a2;
             a4 = remove_self_reference a3;
             sentences = split_sentences a4;
             a5 = (if length sentences > 1 then
                     (if \<not> ends_with_terminal (rstrip (last sentences)) then
                        (let a = py_join ''. '' (butlast sentences)
                         in if a \<noteq> [] \<and> \<not> endswith a ''.'' then a @ ''.'' else a)
                      else a4)
                   else a4);
             a6 = strip a5
         in if a6 \<noteq> [] \<and> \<not> ends_with_terminal a6 then a6 @ ''.'' else a6))"

definition fallback_templates :: "string \<Rightarrow> string \<Rightarrow> string list" where
  \<comment> \<open>the templates for the personality named \<open>nm\<close>, with the topic \<open>t\<close> filled in\<close>
  "fallback_templates nm t =
     (if nm = ''The Philosopher'' then
       [''From an ethical standpoint, we must carefully examine the moral implications of '' @ t @ '' and consider how it affects human dignity and our collective well-being.'',
        ''The philosophical question we must ask about '' @ t @ '' is: what does this mean for our understanding of justice, truth, and the good life?'',
        ''History of philosophy teaches us that complex issues like '' @ t @ '' require us to balance competing moral principles and consider long-term consequences.'']
     else if nm = ''The Scientist'' then
       [''The evidence regarding '' @ t @ '' requires rigorous analysis of peer-reviewed research and empirical data before we can reach valid conclusions.'',
        ''From a scientific perspective, we need more controlled studies and data collection to fully understand the implications of '' @ t @ ''.'',
        ''The methodology for evaluating '' @ t @ '' must be based on reproducible experiments and statistical significance.'']
     else if nm = ''The Advocate'' then
       [''We must examine how '' @ t @ '' impacts marginalized communities and ensure that justice and equality remain our guiding principles.'',
        ''The human rights implications of '' @ t @ '' cannot be ignored - we must protect the most vulnerable in our society.'',
        ''Social justice demands that we consider '' @ t @ '' through the lens of equity and fairness for all people.'']
     else if nm = ''The Pragmatist'' then
       [''The practical implementation of policies regarding '' @ t @ '' must consider cost-effectiveness, resource allocation, and real-world feasibility.'',
        ''Let's focus on actionable solutions for '' @ t @ '' that can be implemented efficiently and measured for success.'',
        ''The bottom line on '' @ t @ '' is what actually works in practice, not just what sounds good in theory.'']
     else if nm = ''The Contrarian'' then
       [''Popular opinion about '' @ t @ '' may be fundamentally misguided - we should question our assumptions and consider alternative perspectives.'',
        ''The conventional wisdom regarding '' @ t @ '' deserves skeptical examination. What if the majority view is wrong?'',
        ''Before accepting mainstream conclusions about '' @ t @ '', let's challenge the underlying premises and explore contrarian viewpoints.'']
     else if nm = ''The Historian'' then
       [''History shows us clear patterns regarding '' @ t @ '' that we can learn from to avoid repeating past mistakes.'',
        ''Looking at historical precedents for '' @ t @ '', we can see how similar situations have played out across different eras and cultures.'',
        ''The lessons of history regarding '' @ t @ '' remind us that those who ignore the past are doomed to repeat its errors.'']
     else
       [''This is an important topic that deserves thoughtful consideration from multiple perspectives, including the unique viewpoint I bring as '' @ nm @ ''.''])"

definition generate_fallback_argument ::
  "ai_env \<Rightarrow> nat \<Rightarrow> AIPersonality \<Rightarrow> string \<Rightarrow> int \<Rightarrow> string \<times> nat" where
  "generate_fallback_argument env k personality t r =
     random_choice env k (fallback_templates (name personality) t)"

definition create_fallback_argument ::
  "ai_env \<Rightarrow> nat \<Rightarrow> AIPersonality \<Rightarrow> string \<Rightarrow> int \<Rightarrow> DebateArgument \<times> nat" where
  "create_fallback_argument env k personality t r =
     (case generate_fallback_argument env k personality t r of
        (fallback_text, k') \<Rightarrow> (DebateArgument_init (name personality) fallback_text r, k'))"

definition generate_argument ::
  "ai_env \<Rightarrow> nat \<Rightarrow> AIPersonality \<Rightarrow> string \<Rightarrow> string \<Rightarrow> int \<Rightarrow> DebateArgument list
     \<Rightarrow> exn + string \<times> nat" where
  "generate_argument env k personality t context r current_round_args =
     (if raises env k then Inl Exception
      else
        (let prompt = build_enhanced_prompt personality t context r current_round_args
         in case generator env of
              None \<Rightarrow> Inr (generate_fallback_argument env k personality t r)
            | Some g \<Rightarrow>
                (case g k prompt of
                   None \<Rightarrow> Inr (generate_fallback_argument env (k + 1) personality t r)
                 | Some generated_text \<Rightarrow>
                     (let argument = strip (drop (length prompt) generated_text);
                          argument = clean_and_validate_argument argument
                      in if length argument < 20
                         then Inr (generate_fallback_argument env (k + 1) personality t r)
                         else if length argument > MAX_ARGUMENT_LENGTH
                         then Inr (take (MAX_ARGUMENT_LENGTH - 3) argument @ ''...'', k + 1)
                         else Inr (argument, k + 1)))))"

definition finish_generated :: "string \<Rightarrow> string \<Rightarrow> string option" where
  \<comment> \<open>the lines of \<^verbatim>\<open>_generate_argument\<close> between the generator's call and the
      \<^verbatim>\<open>return argument\<close>: \<open>None\<close> where they return the fallback instead\<close>
  "finish_generated prompt generated_text =
     (let argument = strip (drop (length prompt) generated_text);
          argument = clean_and_validate_argument argument
      in if length argument < 20 then None
         else if length argument > MAX_ARGUMENT_LENGTH
         then Some (take (MAX_ARGUMENT_LENGTH - 3) argument @ ''...'')
         else Some argument)"

definition fallback_or_generated ::
  "ai_env \<Rightarrow> string \<Rightarrow> string \<Rightarrow> int \<Rightarrow> DebateArgument \<Rightarrow> bool" where
  \<comment> \<open>the content is a fallback template of the argument's personality, or what a call
      of the loaded generator on a prompt of that personality returned, finished\<close>
  "fallback_or_generated env t context r a =
     (content a \<in> set (fallback_templates (personality_id a) t)
      \<or> (\<exists>g j p args generated_text.
            generator env = Some g \<and> \<not> raises env j \<and> name p = personality_id a
            \<and> g j (build_enhanced_prompt p t context r args) = Some generated_text
            \<and> finish_generated (build_enhanced_prompt p t context r args) generated_text
                = Some (content a)))"

fun round_loop ::
  "ai_env \<Rightarrow> Debate \<Rightarrow> int \<Rightarrow> string \<Rightarrow> AIPersonality list \<Rightarrow> DebateArgument list \<Rightarrow> nat
     \<Rightarrow> DebateArgument list \<times> nat" where
  \<comment> \<open>the \<^verbatim>\<open>for personality in personalities\<close> loop of \<^verbatim>\<open>generate_debate_round\<close>\<close>
  "round_loop env debate r context [] args k = (args, k)"
| "round_loop env debate r context (personality # rest) args k =
     (case generate_argument env k personality (topic debate) context r args of
        Inr (argument_text, k') \<Rightarrow>
          round_loop env debate r context rest
            (args @ [DebateArgument_init (name personality) argument_text r]) k'
      | Inl e \<Rightarrow>
          (case create_fallback_argument env k personality (topic debate) r of
             (fallback_argument, k') \<Rightarrow>
               round_loop env debate r context rest (args @ [fallback_argument]) k'))"

definition generate_debate_round ::
  "ai_env \<Rightarrow> nat \<Rightarrow> store \<Rightarrow> Debate \<Rightarrow> int \<Rightarrow> DebateArgument list \<times> nat" where
  "generate_debate_round env k st debate r =
     (case random_shuffle env k (get_debate_personalities st) of
        (ps, k1) \<Rightarrow> round_loop env debate r (build_context debate r) ps [] k1)"

section \<open>Input sanitising (\<^verbatim>\<open>utils/helpers.py\<close>)\<close>

definition html_escape_char :: "char \<Rightarrow> string" where
  "html_escape_char c =
     (if c = CHR ''&'' then ''&amp;''
      else if c = CHR ''<'' then ''&lt;''
      else if c = CHR ''>'' then ''&gt;''
      else if c = CHR 0x22 then ''&quot;''
      else if c = CHR 0x27 then ''&#x27;''
      else [c])"

definition html_escape :: "string \<Rightarrow> string" where
  "html_escape s = concat (map html_escape_char s)"

fun remove_matches :: "(string \<Rightarrow> nat option) \<Rightarrow> nat \<Rightarrow> string \<Rightarrow> string" where
  \<comment> \<open>delete every match of a pattern, leftmost first; \<open>m s\<close> is the length of the match
      at the head of \<open>s\<close>, the second argument counts characters of a match still to skip\<close>
  "remove_matches m skip [] = []"
| "remove_matches m skip (c # cs) =
     (if skip > 0 then remove_matches m (skip - 1) cs
      else case m (c # cs) of
             Some n \<Rightarrow> remove_matches m (n - 1) cs
           | None \<Rightarrow> c # remove_matches m 0 cs)"

definition match_script_tag :: "string \<Rightarrow> nat option" where
  \<comment> \<open>\<^verbatim>\<open><script[^>]>.?</script>\<close>, ignoring case, the dot matching any character\<close>
  "match_script_tag s =
     (if map ascii_lower (take 7 s) = ''<script'' then
        (case drop 7 s of
           c # g # rest \<Rightarrow>
             if c \<noteq> CHR ''>'' \<and> g = CHR ''>'' then
               (if rest \<noteq> [] \<and> map ascii_lower (take 9 (tl rest)) = ''</script>'' then Some 19
                else if map ascii_lower (take 9 rest) = ''</script>'' then Some 18
                else None)
             else None
         | _ \<Rightarrow> None)
      else None)"

definition match_tag :: "string \<Rightarrow> nat option" where
  \<comment> \<open>\<^verbatim>\<open><[^>]+>\<close>\<close>
  "match_tag s =
     (case s of
        [] \<Rightarrow> None
      | c # cs \<Rightarrow>
          if c = CHR ''<'' then
            (let body = takeWhile (\<lambda>x. x \<noteq> CHR ''>'') cs
             in if body \<noteq> [] \<and> length body < length cs then Some (length body + 2) else None)
          else None)"

definition is_control :: "char \<Rightarrow> bool" where
  \<comment> \<open>\<^verbatim>\<open>[\x00-\x08\x0B\x0C\x0E-\x1F\x7F]\<close>\<close>
  "is_control c = (let n = (of_char c :: nat) in
     n \<le> 8 \<or> n = 11 \<or> n = 12 \<or> (14 \<le> n \<and> n \<le> 31) \<or> n = 127)"

definition sanitize_input :: "string \<Rightarrow> string" where
  "sanitize_input text =
     (if text = [] then []
      else
        (let t1 = html_escape text;
             t2 = remove_matches match_script_tag 0 t1;
             t3 = remove_matches match_tag 0 t2;
             t4 = collapse_runs is_space t3;
             t5 = filter (\<lambda>c. \<not> is_control c) t4
         in strip t5))"

section \<open>The routes (\<^verbatim>\<open>routes/api.py\<close>)\<close>

text \<open>
  A route takes the store and returns its response and the store it leaves. The body
  of a request is the JSON object it carries, as an association list with string
  values, or \<open>None\<close> when there is none. Each handler wraps its body in
  \<^verbatim>\<open>except Exception\<close>, answering 500; with the driver's failures and the deadline
  left out, the only such answers that remain are the ones written below.
\<close>

type_synonym json = "(string \<times> string) list"

datatype response =
    Error nat string
  | Ok
  | Created Debate
  | Started Debate "DebateArgument list"
  | Advanced int Debate "DebateArgument list"
  | Ended Debate
  | Judged Debate string
  | Voted Debate

definition AIService_init :: "store \<Rightarrow> store" where
  \<comment> \<open>the constructor builds a \<^verbatim>\<open>PersonalityService\<close>; the model it loads is the environment\<close>
  "AIService_init st = PersonalityService_init st"

definition add_arguments :: "store \<Rightarrow> object_id \<Rightarrow> DebateArgument list \<Rightarrow> store" where
  \<comment> \<open>\<^verbatim>\<open>for arg in arguments: debate_service.add_argument(debate_id, arg)\<close>\<close>
  "add_arguments st did args = fold (\<lambda>arg s. snd (add_argument s did arg)) args st"

definition start_generate_arguments ::
  "ai_env \<Rightarrow> nat \<Rightarrow> store \<Rightarrow> object_id \<Rightarrow> Debate \<Rightarrow> DebateArgument list \<times> store" where
  \<comment> \<open>the closure \<^verbatim>\<open>generate_arguments\<close> of \<^verbatim>\<open>start_debate\<close>\<close>
  "start_generate_arguments env k st did debate =
     (case generate_debate_round env k st debate 1 of
        (args, k') \<Rightarrow> (args, add_arguments st did args))"

definition start_debate_route :: "ai_env \<Rightarrow> nat \<Rightarrow> store \<Rightarrow> object_id \<Rightarrow> response \<times> store" where
  "start_debate_route env k st did =
     (let st0 = AIService_init (DebateService_init st)
      in case get_debate st0 did of
           None \<Rightarrow> (Error 404 ''Debate not found'', st0)
         | Some debate \<Rightarrow>
             if status debate \<noteq> ''created''
             then (Error 400 ''Debate has already been started or completed'', st0)
             else
               (case start_debate st0 did of
                  (None, st1) \<Rightarrow> (Error 500 ''Failed to start debate'', st1)
                | (Some debate', st1) \<Rightarrow>
                    (case start_generate_arguments env k st1 did debate' of
                       (args, st2) \<Rightarrow> (Started debate' args, st2))))"

definition next_round_generate_arguments ::
  "ai_env \<Rightarrow> nat \<Rightarrow> store \<Rightarrow> object_id \<Rightarrow> Debate \<Rightarrow> int \<Rightarrow> DebateArgument list \<times> store" where
  \<comment> \<open>the closure \<^verbatim>\<open>generate_arguments\<close> of \<^verbatim>\<open>next_round\<close>\<close>
  "next_round_generate_arguments env k st did debate next_round_num =
     (case generate_debate_round env k st debate next_round_num of
        (args, k') \<Rightarrow>
          (args, snd (update_round (add_arguments st did args) did next_round_num)))"

definition next_round_route :: "ai_env \<Rightarrow> nat \<Rightarrow> store \<Rightarrow> object_id \<Rightarrow> response \<times> store" where
  "next_round_route env k st did =
     (let st0 = AIService_init (DebateService_init st)
      in case get_debate st0 did of
           None \<Rightarrow> (Error 404 ''Debate not found'', st0)
         | Some debate \<Rightarrow>
             if status debate \<noteq> ''in_progress''
             then (Error 400 ''Debate is not in progress'', st0)
             else
               (let next_round_num = current_round debate + 1
                in if next_round_num > max_rounds debate then
                     (case end_debate st0 did of
                        (ended, st1) \<Rightarrow>
                          (case get_debate st1 did of
                             None \<Rightarrow> (Error 500 ''Failed to proceed to next round'', st1)
                           | Some updated_debate \<Rightarrow> (Ended updated_debate, st1)))
                   else
                     (case next_round_generate_arguments env k st0 did debate next_round_num of
                        (args, st1) \<Rightarrow>
                          (case get_debate st1 did of
                             None \<Rightarrow> (Error 500 ''Failed to proceed to next round'', st1)
                           | Some updated_debate \<Rightarrow>
                               (Advanced next_round_num updated_debate args, st1)))))"

definition judge_debate_route :: "store \<Rightarrow> object_id \<Rightarrow> json option \<Rightarrow> response \<times> store" where
  "judge_debate_route st did data =
     (case data of
        None \<Rightarrow> (Error 400 ''Request body is required'', st)
      | Some body \<Rightarrow>
          if body = [] then (Error 400 ''Request body is required'', st)
          else
            (let winner_personality = map_of body ''winner'';
                 reasoning = sanitize_input (case map_of body ''reasoning'' of
                                               None \<Rightarrow> [] | Some x \<Rightarrow> x);
                 jid = map_of body ''judge_id''
             in case winner_personality of
                  None \<Rightarrow> (Error 400 ''Winner personality is required'', st)
                | Some w \<Rightarrow>
                    if w = [] then (Error 400 ''Winner personality is required'', st)
                    else
                      (let st0 = DebateService_init st
                       in case get_debate st0 did of
                            None \<Rightarrow> (Error 404 ''Debate not found'', st0)
                          | Some debate \<Rightarrow>
                              if status debate \<in> set [''judged'']
                              then (Error 400 ''Debate already jugded.'', st0)
                              else if status debate \<notin> set [''completed'', ''in_progress'']
                              then (Error 400 ''Debate must be completed before judging'', st0)
                              else if w \<notin> set (participants debate)
                              then (Error 400 ''Winner must be a debate participant'', st0)
                              else
                                (case judge_debate st0 did w reasoning jid of
                                   (True, st1) \<Rightarrow>
                                     (case get_debate st1 did of
                                        None \<Rightarrow> (Error 500 ''Failed to judge debate'', st1)
                                      | Some updated_debate \<Rightarrow> (Judged updated_debate w, st1))
                                 | (False, st1) \<Rightarrow> (Error 500 ''Failed to judge debate'', st1)))))"

definition vote_on_debate_route :: "store \<Rightarrow> object_id \<Rightarrow> json option \<Rightarrow> response \<times> store" where
  "vote_on_debate_route st did data =
     (case data of
        None \<Rightarrow> (Error 400 ''Request body is required'', st)
      | Some body \<Rightarrow>
          if body = [] then (Error 400 ''Request body is required'', st)
          else
            (let pid = map_of body ''personality_id'';
                 voter = (case map_of body ''voter_id'' of None \<Rightarrow> ''anonymous'' | Some v \<Rightarrow> v)
             in case pid of
                  None \<Rightarrow> (Error 400 ''Personality ID is required'', st)
                | Some p \<Rightarrow>
                    if p = [] then (Error 400 ''Personality ID is required'', st)
                    else
                      (let st0 = DebateService_init st
                       in case add_vote st0 did p voter of
                            (True, st1) \<Rightarrow>
                              (case get_debate st1 did of
                                 None \<Rightarrow> (Error 500 ''Failed to record vote'', st1)
                               | Some updated_debate \<Rightarrow> (Voted updated_debate, st1))
                          | (False, st1) \<Rightarrow> (Error 500 ''Failed to record vote'', st1))))"

section \<open>Requests and reachable stores\<close>

text \<open>
  The application takes one request after another. \<open>Visit\<close> is any route that only
  reads: its service constructors may still seed the personalities. \<open>Create\<close> is
  the service call the \<^verbatim>\<open>POST /debates\<close> route makes once it has validated and
  sanitised the topic; here it is allowed for any topic. The application starts with
  no debate and any collection of personalities.
\<close>

datatype request =
    Visit
  | Create object_id string "string option"
  | Start ai_env nat object_id
  | Advance ai_env nat object_id
  | Judge object_id "json option"
  | Vote object_id "json option"

fun step :: "store \<Rightarrow> request \<Rightarrow> response \<times> store" where
  "step st Visit = (Ok, DebateService_init st)"
| "step st (Create new_id t creator) =
     (let st0 = DebateService_init st
      in case create_debate st0 new_id t creator of
           Inl e \<Rightarrow> (Error 500 ''Failed to create debate'', st0)
         | Inr (debate, st1) \<Rightarrow> (Created debate, st1))"
| "step st (Start env k did) = start_debate_route env k st did"
| "step st (Advance env k did) = next_round_route env k st did"
| "step st (Judge did data) = judge_debate_route st did data"
| "step st (Vote did data) = vote_on_debate_route st did data"

fun run :: "store \<Rightarrow> request list \<Rightarrow> response list \<times> store" where
  "run st [] = ([], st)"
| "run st (req # reqs) =
     (case step st req of
        (resp, st') \<Rightarrow> (case run st' reqs of (resps, st'') \<Rightarrow> (resp # resps, st'')))"

inductive reachable :: "store \<Rightarrow> bool" where
  initial: "reachable \<lparr>debates = Map.empty, personalities = ps, refuses = r\<rparr>"
| after: "reachable st \<Longrightarrow> reachable (snd (step st req))"

section \<open>Two start requests at once\<close>

text \<open>
  A start request reads the debate, then makes the conditional update, then generates
  and stores the first round. Two requests for the same debate run these steps in any
  interleaving; a schedule names, step by step, the request that moves.
\<close>

datatype start_pc =
    Begin
  | Checked
  | Claimed Debate
  | Done response

fun start_step :: "ai_env \<Rightarrow> nat \<Rightarrow> object_id \<Rightarrow> store \<Rightarrow> start_pc \<Rightarrow> store \<times> start_pc" where
  "start_step env k did st Begin =
     (let st0 = AIService_init (DebateService_init st)
      in case get_debate st0 did of
           None \<Rightarrow> (st0, Done (Error 404 ''Debate not found''))
         | Some debate \<Rightarrow>
             if status debate \<noteq> ''created''
             then (st0, Done (Error 400 ''Debate has already been started or completed''))
             else (st0, Checked))"
| "start_step env k did st Checked =
     (case start_debate st did of
        (None, st1) \<Rightarrow> (st1, Done (Error 500 ''Failed to start debate''))
      | (Some debate', st1) \<Rightarrow> (st1, Claimed debate'))"
| "start_step env k did st (Claimed debate') =
     (case start_generate_arguments env k st did debate' of
        (args, st2) \<Rightarrow> (st2, Done (Started debate' args)))"
| "start_step env k did st (Done r) = (st, Done r)"

fun start_succeeded :: "start_pc \<Rightarrow> bool" where
  "start_succeeded (Claimed d) = True"
| "start_succeeded (Done (Started d args)) = True"
| "start_succeeded pc = False"

fun run_two_starts ::
  "ai_env \<Rightarrow> nat \<Rightarrow> nat \<Rightarrow> object_id \<Rightarrow> bool list \<Rightarrow> store \<times> start_pc \<times> start_pc
     \<Rightarrow> store \<times> start_pc \<times> start_pc" where
  "run_two_starts env k1 k2 did [] cfg = cfg"
| "run_two_starts env k1 k2 did (first # sched) (st, pc1, pc2) =
     (if first
      then (case start_step env k1 did st pc1 of
              (st', pc1') \<Rightarrow> run_two_starts env k1 k2 did sched (st', pc1', pc2))
      else (case start_step env k2 did st pc2 of
              (st', pc2') \<Rightarrow> run_two_starts env k1 k2 did sched (st', pc1, pc2')))"

section \<open>Well-formed stores\<close>

text \<open>
  What the lifecycle keeps true of every stored debate: the vote total is the sum of
  the counts at the leaves of the \<^verbatim>\<open>votes\<close> document, the participants are the names
  of the registered personalities, and every argument is by one of them. A store with
  a debate has personalities.
\<close>

primrec leaf_sum :: "bson \<Rightarrow> int" where
  "leaf_sum (BInt n) = n"
| "leaf_sum (BStr s) = 0"
| "leaf_sum (BDoc kvs) = sum_list (map snd (map (map_prod id leaf_sum) kvs))"

definition debate_ok :: "string list \<Rightarrow> Debate \<Rightarrow> bool" where
  "debate_ok names d =
     (total_votes d = leaf_sum (BDoc (votes d)) \<and> participants d = names \<and>
      list_all (\<lambda>a. personality_id a \<in> set names) (arguments d))"

definition store_ok :: "store \<Rightarrow> bool" where
  "store_ok st =
     ((\<forall>did d. debates st did = Some d \<longrightarrow> debate_ok (map name (personalities st)) d) \<and>
      (personalities st = [] \<longrightarrow> debates st = Map.empty))"

text \<open>
  For two start requests at once: a debate that has left \<open>created\<close>, and the
  agreement between the requests' positions and the store.
\<close>

definition already_started :: "store \<Rightarrow> object_id \<Rightarrow> bool" where
  "already_started st did = (case debates st did of None \<Rightarrow> False | Some d \<Rightarrow> status d \<noteq> ''created'')"

definition one_claim :: "object_id \<Rightarrow> store \<Rightarrow> start_pc \<Rightarrow> start_pc \<Rightarrow> bool" where
  "one_claim did st pc1 pc2 =
     ((start_succeeded pc1 \<longrightarrow> \<not> start_succeeded pc2) \<and>
      (start_succeeded pc1 \<or> start_succeeded pc2 \<longrightarrow> already_started st did))"

text \<open>
  For judging: whether a debate is judged, and how many requests of a run were
  answered with a judgement of a given debate.
\<close>

definition is_judged :: "store \<Rightarrow> object_id \<Rightarrow> bool" where
  "is_judged st did = (case debates st did of None \<Rightarrow> False | Some d \<Rightarrow> status d = ''judged'')"

fun judged_here :: "object_id \<Rightarrow> request \<times> response \<Rightarrow> bool" where
  "judged_here did (Judge did' data, Judged d w) = (did' = did)"
| "judged_here did other = False"

definition judged_transitions :: "object_id \<Rightarrow> request list \<Rightarrow> response list \<Rightarrow> nat" where
  "judged_transitions did reqs resps = length (filter (judged_here did) (zip reqs resps))"

section \<open>A run of the application\<close>

text \<open>
  A registry of two personalities, one debate, and the stores it passes through;
  no model is loaded, so every argument is a fallback template, and every random
  draw is 0.
\<close>

definition no_model :: ai_env where
  "no_model = \<lparr>generator = None, rand = (\<lambda>k. 0), raises = (\<lambda>k. False)\<rparr>"

definition broken_model :: ai_env where
  \<comment> \<open>a model is loaded; its calls raise or return three characters, and from
      position 5 on \<^verbatim>\<open>_generate_argument\<close> itself raises\<close>
  "broken_model =
     \<lparr>generator = Some (\<lambda>k prompt. if k mod 4 = 1 then Some (prompt @ '' No.'') else None),
      rand = (\<lambda>k. 0), raises = (\<lambda>k. 5 \<le> k)\<rparr>"

definition vehicles_topic :: string where
  "vehicles_topic = ''Should autonomous vehicles replace all human drivers?''"

definition two_personalities :: store where
  \<comment> \<open>a registry of two, on a server that refuses every key with a component that
      starts with a dollar sign\<close>
  "two_personalities =
     \<lparr>debates = Map.empty, personalities = [the_scientist, the_advocate],
      refuses = (\<lambda>key. True)\<rparr>"

definition created_debate :: Debate where
  "created_debate = (Debate_init vehicles_topic None 1)
     \<lparr>participants := [''The Scientist'', ''The Advocate'']\<rparr>"

definition created_store :: store where
  "created_store = two_personalities\<lparr>debates := [1 \<mapsto> created_debate]\<rparr>"

definition claimed_store :: store where
  "claimed_store = created_store\<lparr>debates := [1 \<mapsto> created_debate\<lparr>status := ''in_progress''\<rparr>]\<rparr>"

definition first_round :: "DebateArgument list" where
  "first_round =
     [DebateArgument_init ''The Advocate''
        (''We must examine how '' @ vehicles_topic @ '' impacts marginalized communities and ensure that justice and equality remain our guiding principles.'') 1,
      DebateArgument_init ''The Scientist''
        (''The evidence regarding '' @ vehicles_topic @ '' requires rigorous analysis of peer-reviewed research and empirical data before we can reach valid conclusions.'') 1]"

definition started_debate :: Debate where
  "started_debate = created_debate\<lparr>status := ''in_progress'', arguments := first_round\<rparr>"

definition started_store :: store where
  "started_store = two_personalities\<lparr>debates := [1 \<mapsto> started_debate]\<rparr>"

definition vote_for_scientist :: json where
  "vote_for_scientist = [(''personality_id'', ''The Scientist''), (''voter_id'', ''alice'')]"

definition voted_debate :: Debate where
  "voted_debate = started_debate
     \<lparr>votes := [(''The Scientist'', BInt 1)], total_votes := 1,
      voter_records := Some [(''alice'', BStr ''The Scientist'')]\<rparr>"

definition voted_store :: store where
  "voted_store = two_personalities\<lparr>debates := [1 \<mapsto> voted_debate]\<rparr>"

definition voted_twice_debate :: Debate where
  "voted_twice_debate = started_debate
     \<lparr>votes := [(''The Scientist'', BInt 2)], total_votes := 2,
      voter_records := Some [(''alice'', BStr ''The Scientist'')]\<rparr>"

definition vote_for_doctor :: json where
  "vote_for_doctor = [(''personality_id'', ''Dr. Who''), (''voter_id'', ''carol'')]"

definition dotted_vote_debate :: Debate where
  "dotted_vote_debate = started_debate
     \<lparr>votes := [(''Dr'', BDoc [('' Who'', BInt 1)])], total_votes := 1,
      voter_records := Some [(''carol'', BStr ''Dr. Who'')]\<rparr>"

definition judged_debate :: Debate where
  "judged_debate = voted_debate
     \<lparr>status := ''judged'', winner := Some ''The Scientist'', judge_decision := Some [],
      judge_id := None\<rparr>"

definition judged_store :: store where
  "judged_store =
     \<lparr>debates = [1 \<mapsto> judged_debate],
      personalities =
        [the_scientist\<lparr>total_debates := 1, total_arguments := 1, wins := 1,
                         average_votes := PyInt 0\<rparr>,
         the_advocate\<lparr>total_debates := 1, total_arguments := 1, wins := 0,
                        average_votes := PyInt 0\<rparr>],
      refuses = (\<lambda>key. True)\<rparr>"

definition last_round_debate :: Debate where
  "last_round_debate = started_debate\<lparr>current_round := 3\<rparr>"

definition last_round_store :: store where
  "last_round_store = two_personalities\<lparr>debates := [1 \<mapsto> last_round_debate]\<rparr>"

text \<open>
  A topic of 379 characters, within the 10 to 500 the creation route accepts, a
  personality with two debates behind it, and a large int.
\<close>

definition long_topic :: string where
  "long_topic = ''Should we '' @ concat (replicate 45 ''really, '') @ ''ban cars?''"

definition long_topic_store :: store where
  "long_topic_store =
     \<lparr>debates = [1 \<mapsto> (Debate_init long_topic None 1)\<lparr>participants := [''The Scientist'']\<rparr>],
      personalities = [the_scientist], refuses = (\<lambda>key. True)\<rparr>"

definition veteran :: AIPersonality where
  "veteran = the_scientist\<lparr>total_debates := 2, total_arguments := 2\<rparr>"

definition veteran_store :: store where
  "veteran_store =
     \<lparr>debates = Map.empty, personalities = [veteran], refuses = (\<lambda>key. True)\<rparr>"

definition huge_int :: int where
  \<comment> \<open>an int beyond the range of a float\<close>
  "huge_int = 10 ^ 400"

section \<open>Reading and writing the store\<close>

lemma debates_PersonalityService_init: "debates (PersonalityService_init st) = debates st"
  by (simp add: PersonalityService_init_def initialize_personalities_def)

lemma debates_service_init:
  "debates (DebateService_init st) = debates st"
  "debates (AIService_init st) = debates st"
  by (simp_all add: DebateService_init_def AIService_init_def debates_PersonalityService_init)

lemma PersonalityService_init_idem:
  "PersonalityService_init (PersonalityService_init st) = PersonalityService_init st"
  by (simp add: PersonalityService_init_def initialize_personalities_def DEFAULT_PERSONALITIES_def)

lemma PersonalityService_init_seeded:
  "personalities st \<noteq> [] \<Longrightarrow> PersonalityService_init st = st"
  by (simp add: PersonalityService_init_def initialize_personalities_def)

lemma service_init_seeded:
  "personalities st \<noteq> [] \<Longrightarrow> DebateService_init st = st"
  "personalities st \<noteq> [] \<Longrightarrow> AIService_init st = st"
  by (simp_all add: DebateService_init_def AIService_init_def PersonalityService_init_seeded)

lemma get_debate_service_init:
  "get_debate (DebateService_init st) did = get_debate st did"
  "get_debate (AIService_init st) did = get_debate st did"
  by (simp_all add: get_debate_def debates_service_init)

lemma get_debate_Some: "debates st did = Some d \<Longrightarrow> get_debate st did = Some (from_dict d)"
  by (simp add: get_debate_def)

lemma from_dict_fields:
  "status (from_dict d) = status d"
  "participants (from_dict d) = participants d"
  "arguments (from_dict d) = arguments d"
  "current_round (from_dict d) = current_round d"
  "max_rounds (from_dict d) = max_rounds d"
  "winner (from_dict d) = winner d"
  "judge_decision (from_dict d) = judge_decision d"
  "judge_id (from_dict d) = judge_id d"
  "votes (from_dict d) = votes d"
  "total_votes (from_dict d) = total_votes d"
  "topic (from_dict d) = topic d"
  "voter_records (from_dict d) = None"
  by (simp_all add: from_dict_def Debate_init_def)

lemma add_vote_accepts:
  assumes "debates st did = Some d"
    and "\<not> key_refused st (''votes.'' @ pid)" and "\<not> key_refused st (''voter_records.'' @ voter)"
    and "mongo_inc (votes d) (split_on CHR ''.'' pid) 1 = Inr vs"
    and "bson_int (total_votes d + 1)"
    and "mongo_set (case voter_records d of None \<Rightarrow> [] | Some vr \<Rightarrow> vr)
           (split_on CHR ''.'' voter) (BStr pid) = Inr vr"
  shows "add_vote st did pid voter =
    (True, st\<lparr>debates := (debates st)(did \<mapsto>
       d\<lparr>votes := vs, total_votes := total_votes d + 1, voter_records := Some vr\<rparr>)\<rparr>)"
  using assms
  by (simp add: add_vote_def get_debate_Some from_dict_fields update_one_checked_def Let_def
      and_then_def inc_int_def)

lemma add_vote_cases:
  "add_vote st did pid voter = (False, st)
   \<or> (\<exists>d vs vr. debates st did = Some d
         \<and> mongo_inc (votes d) (split_on CHR ''.'' pid) 1 = Inr vs
         \<and> add_vote st did pid voter =
             (True, st\<lparr>debates := (debates st)(did \<mapsto>
                d\<lparr>votes := vs, total_votes := total_votes d + 1, voter_records := Some vr\<rparr>)\<rparr>))"
proof (cases "debates st did")
  case None
  then show ?thesis by (simp add: add_vote_def get_debate_def)
next
  case (Some d)
  then show ?thesis
    by (auto simp: add_vote_def get_debate_Some from_dict_fields update_one_checked_def Let_def
        and_then_def inc_int_def split: sum.splits if_splits)
qed

section \<open>One argument per registered personality\<close>

lemma shuffle_from_mset:
  "i < length xs \<or> i = 0 \<Longrightarrow> mset (fst (shuffle_from env i xs k)) = mset xs"
proof (induction i arbitrary: xs k)
  case 0
  then show ?case by simp
next
  case (Suc i)
  then have len: "Suc i < length xs" by simp
  let ?j = "randbelow env k (Suc i + 1)"
  have "?j < Suc i + 1" unfolding randbelow_def by (rule mod_less_divisor) simp
  with len have j: "?j < length xs" by linarith
  let ?ys = "xs[Suc i := xs ! ?j, ?j := xs ! Suc i]"
  have "mset ?ys = mset xs" using len j by (simp add: mset_swap)
  moreover have "i < length ?ys" using len by simp
  ultimately show ?case using Suc.IH [of ?ys "k + 1"] by (simp add: Let_def)
qed

lemma random_shuffle_mset: "mset (fst (random_shuffle env k xs)) = mset xs"
proof (cases xs)
  case Nil
  then show ?thesis by (simp add: random_shuffle_def)
next
  case (Cons a as)
  then show ?thesis by (simp add: random_shuffle_def shuffle_from_mset)
qed

lemma fallback_templates_nonempty: "fallback_templates nm t \<noteq> []"
  by (simp add: fallback_templates_def)

lemma random_choice_member: "xs \<noteq> [] \<Longrightarrow> fst (random_choice env k xs) \<in> set xs"
  by (simp add: random_choice_def randbelow_def)

lemma generate_fallback_argument_in_templates:
  "fst (generate_fallback_argument env k p t r) \<in> set (fallback_templates (name p) t)"
  unfolding generate_fallback_argument_def
  by (rule random_choice_member) (rule fallback_templates_nonempty)

lemma generate_argument_without_model:
  assumes "generator env = None" and "generate_argument env k p t ctx r args = Inr res"
  shows "fst res \<in> set (fallback_templates (name p) t)"
proof -
  from assms have "res = generate_fallback_argument env k p t r"
    by (simp add: generate_argument_def split: if_splits)
  then show ?thesis by (simp add: generate_fallback_argument_in_templates)
qed

lemma create_fallback_argument_fields:
  assumes "create_fallback_argument env k p t r = (fa, k')"
  shows "personality_id fa = name p" and "round_number fa = r"
    and "content fa \<in> set (fallback_templates (name p) t)"
proof -
  obtain body k1 where g: "generate_fallback_argument env k p t r = (body, k1)"
    by (cases "generate_fallback_argument env k p t r")
  with assms have fa: "fa = DebateArgument_init (name p) body r"
    by (simp add: create_fallback_argument_def)
  from g generate_fallback_argument_in_templates [of env k p t r]
  have "body \<in> set (fallback_templates (name p) t)" by simp
  with fa show "personality_id fa = name p" and "round_number fa = r"
    and "content fa \<in> set (fallback_templates (name p) t)"
    by (simp_all add: DebateArgument_init_def)
qed

lemma generate_argument_cases:
  assumes "generate_argument env k p t ctx r args = Inr (s, k')"
  shows "s \<in> set (fallback_templates (name p) t)
     \<or> (\<exists>g generated_text. generator env = Some g \<and> \<not> raises env k
           \<and> g k (build_enhanced_prompt p t ctx r args) = Some generated_text
           \<and> finish_generated (build_enhanced_prompt p t ctx r args) generated_text = Some s)"
proof (cases "generator env")
  case None
  with assms generate_argument_without_model [of env k p t ctx r args "(s, k')"]
  show ?thesis by simp
next
  case (Some g)
  let ?prompt = "build_enhanced_prompt p t ctx r args"
  show ?thesis
  proof (cases "g k ?prompt")
    case None
    with assms Some have "(s, k') = generate_fallback_argument env (k + 1) p t r"
      by (simp add: generate_argument_def split: if_splits)
    with generate_fallback_argument_in_templates [of env "k + 1" p t r] show ?thesis
      by (metis fst_conv)
  next
    case gen: (Some generated_text)
    show ?thesis
    proof (cases "finish_generated ?prompt generated_text")
      case None
      with assms Some gen have "(s, k') = generate_fallback_argument env (k + 1) p t r"
        by (simp add: generate_argument_def finish_generated_def Let_def split: if_splits)
      with generate_fallback_argument_in_templates [of env "k + 1" p t r] show ?thesis
        by (metis fst_conv)
    next
      case fin: (Some s')
      with assms Some gen have "s' = s" and "\<not> raises env k"
        by (simp_all add: generate_argument_def finish_generated_def Let_def split: if_splits)
      with Some gen fin show ?thesis by simp
    qed
  qed
qed

lemma round_loop_step:
  obtains a k' where
    "round_loop env debate r ctx (p # ps) args k
       = round_loop env debate r ctx ps (args @ [a]) k'"
    and "personality_id a = name p" and "round_number a = r"
    and "generator env = None \<longrightarrow>
          content a \<in> set (fallback_templates (name p) (topic debate))"
    and "fallback_or_generated env (topic debate) ctx r a"
proof (cases "generate_argument env k p (topic debate) ctx r args")
  case (Inl e)
  obtain fa k' where c: "create_fallback_argument env k p (topic debate) r = (fa, k')"
    by (cases "create_fallback_argument env k p (topic debate) r")
  have "round_loop env debate r ctx (p # ps) args k
          = round_loop env debate r ctx ps (args @ [fa]) k'"
    by (simp only: round_loop.simps Inl c sum.case prod.case)
  moreover have "fallback_or_generated env (topic debate) ctx r fa"
    using create_fallback_argument_fields [OF c] by (simp add: fallback_or_generated_def)
  ultimately show thesis
    using create_fallback_argument_fields [OF c] by (intro that [of fa k']) simp_all
next
  case (Inr res)
  obtain body k' where res: "res = (body, k')" by (cases res)
  let ?a = "DebateArgument_init (name p) body r"
  have fields: "personality_id ?a = name p" "round_number ?a = r" "content ?a = body"
    by (simp_all add: DebateArgument_init_def)
  have eq: "round_loop env debate r ctx (p # ps) args k
          = round_loop env debate r ctx ps (args @ [?a]) k'"
    by (simp only: round_loop.simps Inr res sum.case prod.case)
  have fb: "generator env = None \<longrightarrow> content ?a \<in> set (fallback_templates (name p) (topic debate))"
    using Inr res generate_argument_without_model [of env k p "topic debate" ctx r args res]
    by (simp only: fields fst_conv) simp
  have "body \<in> set (fallback_templates (name p) (topic debate))
     \<or> (\<exists>g generated_text. generator env = Some g \<and> \<not> raises env k
           \<and> g k (build_enhanced_prompt p (topic debate) ctx r args) = Some generated_text
           \<and> finish_generated (build_enhanced_prompt p (topic debate) ctx r args) generated_text
               = Some body)"
    using Inr res by (intro generate_argument_cases [of env k p "topic debate" ctx r args body k']) simp
  then have fg: "fallback_or_generated env (topic debate) ctx r ?a"
    unfolding fallback_or_generated_def fields by blast
  show thesis
    by (rule that [of ?a k', OF eq fields(1) fields(2) fb fg])
qed

lemma round_loop_appends:
  "\<exists>new. fst (round_loop env debate r ctx ps args k) = args @ new
     \<and> map personality_id new = map name ps
     \<and> list_all (\<lambda>a. round_number a = r) new
     \<and> (generator env = None \<longrightarrow>
          list_all (\<lambda>a. content a \<in> set (fallback_templates (personality_id a) (topic debate))) new)
     \<and> list_all (fallback_or_generated env (topic debate) ctx r) new"
proof (induction ps arbitrary: args k)
  case Nil
  show ?case by (rule exI [of _ "[]"]) simp
next
  case (Cons p ps)
  obtain a k' where step:
    "round_loop env debate r ctx (p # ps) args k = round_loop env debate r ctx ps (args @ [a]) k'"
    and a: "personality_id a = name p" "round_number a = r"
    and fb: "generator env = None \<longrightarrow> content a \<in> set (fallback_templates (name p) (topic debate))"
    and fg: "fallback_or_generated env (topic debate) ctx r a"
    by (rule round_loop_step)
  from Cons.IH [of "args @ [a]" k'] obtain new where
    new: "fst (round_loop env debate r ctx ps (args @ [a]) k') = (args @ [a]) @ new"
      "map personality_id new = map name ps"
      "list_all (\<lambda>a. round_number a = r) new"
      "generator env = None \<longrightarrow>
          list_all (\<lambda>a. content a \<in> set (fallback_templates (personality_id a) (topic debate))) new"
      "list_all (fallback_or_generated env (topic debate) ctx r) new"
    by (elim exE conjE)
  have 1: "fst (round_loop env debate r ctx (p # ps) args k) = args @ (a # new)"
    using new(1) unfolding step by simp
  have 2: "map personality_id (a # new) = map name (p # ps)"
    using a(1) new(2) by simp
  have 3: "list_all (\<lambda>a. round_number a = r) (a # new)"
    using a(2) new(3) by simp
  have 4: "generator env = None \<longrightarrow>
          list_all (\<lambda>a. content a \<in> set (fallback_templates (personality_id a) (topic debate))) (a # new)"
    using a(1) fb new(4) by simp
  have 5: "list_all (fallback_or_generated env (topic debate) ctx r) (a # new)"
    using fg new(5) by simp
  show ?case
    by (rule exI [of _ "a # new"]) (intro conjI 1 2 3 4 5)
qed

lemma generate_debate_round_roster:
  obtains new where "fst (generate_debate_round env k st debate r) = new"
    and "mset (map personality_id new) = mset (map name (personalities st))"
    and "length new = length (personalities st)"
    and "list_all (\<lambda>a. round_number a = r) new"
    and "generator env = None \<longrightarrow>
          list_all (\<lambda>a. content a \<in> set (fallback_templates (personality_id a) (topic debate))) new"
    and "list_all (fallback_or_generated env (topic debate) (build_context debate r) r) new"
proof -
  obtain ps k1 where sh: "random_shuffle env k (get_debate_personalities st) = (ps, k1)"
    by (cases "random_shuffle env k (get_debate_personalities st)")
  then have ms: "mset ps = mset (personalities st)"
    using random_shuffle_mset [of env k "personalities st"] by (simp add: get_debate_personalities_def)
  from round_loop_appends [of env debate r "build_context debate r" ps "[]" k1]
  obtain new where new: "fst (round_loop env debate r (build_context debate r) ps [] k1) = [] @ new"
    "map personality_id new = map name ps" "list_all (\<lambda>a. round_number a = r) new"
    "generator env = None \<longrightarrow>
          list_all (\<lambda>a. content a \<in> set (fallback_templates (personality_id a) (topic debate))) new"
    "list_all (fallback_or_generated env (topic debate) (build_context debate r) r) new"
    by (elim exE conjE)
  have "mset (map personality_id new) = mset (map name ps)"
    by (simp only: new(2))
  also have "\<dots> = mset (map name (personalities st))"
    using ms by (simp only: mset_map)
  finally have a: "mset (map personality_id new) = mset (map name (personalities st))" .
  have "length new = length (map personality_id new)" by simp
  also have "\<dots> = length (map name (personalities st))"
    using a by (rule mset_eq_length)
  finally have b: "length new = length (personalities st)" by simp
  have c: "fst (generate_debate_round env k st debate r) = new"
    using new(1) sh by (simp add: generate_debate_round_def)
  show thesis by (rule that [OF c a b new(3) new(4) new(5)])
qed

section \<open>Updates keep the store well formed\<close>

lemma personalities_init_nonempty: "personalities (PersonalityService_init st) \<noteq> []"
  by (simp add: PersonalityService_init_def initialize_personalities_def DEFAULT_PERSONALITIES_def)

lemma store_ok_PersonalityService_init:
  assumes "store_ok st" shows "store_ok (PersonalityService_init st)"
proof (cases "personalities st = []")
  case True
  with assms have "debates st = Map.empty" by (simp add: store_ok_def)
  then show ?thesis
    by (simp add: store_ok_def debates_PersonalityService_init personalities_init_nonempty)
next
  case False
  with assms show ?thesis by (simp add: PersonalityService_init_seeded)
qed

lemma store_ok_service_init:
  "store_ok st \<Longrightarrow> store_ok (DebateService_init st)"
  "store_ok st \<Longrightarrow> store_ok (AIService_init st)"
  by (simp_all add: DebateService_init_def AIService_init_def store_ok_PersonalityService_init)

lemma personalities_service_init_nonempty:
  "personalities (DebateService_init st) \<noteq> []"
  "personalities (AIService_init st) \<noteq> []"
  by (simp_all add: DebateService_init_def AIService_init_def personalities_init_nonempty)

lemma personalities_update_one: "personalities (snd (update_one st did flt upd)) = personalities st"
  by (simp add: update_one_def split: option.splits)

lemma debates_update_one:
  "debates (snd (update_one st did flt upd)) =
     (case debates st did of
        None \<Rightarrow> debates st
      | Some d \<Rightarrow> if flt d then (debates st)(did \<mapsto> upd d) else debates st)"
  by (simp add: update_one_def split: option.splits)

lemma store_ok_update_one:
  assumes "store_ok st"
    and "\<And>d. debate_ok (map name (personalities st)) d \<Longrightarrow> flt d \<Longrightarrow>
           debate_ok (map name (personalities st)) (upd d)"
  shows "store_ok (snd (update_one st did flt upd))"
  using assms
  by (auto simp: store_ok_def personalities_update_one debates_update_one split: option.splits if_splits)

lemma map_name_update_first:
  "(\<And>x. name (f x) = name x) \<Longrightarrow> map name (update_first P f xs) = map name xs"
  by (induction xs) simp_all

lemma update_personality_stats_frame:
  "debates (update_personality_stats st nm won v) = debates st"
  "map name (personalities (update_personality_stats st nm won v)) = map name (personalities st)"
  by (simp_all add: update_personality_stats_def Let_def map_name_update_first
      split: option.splits sum.splits)

lemma store_ok_update_personality_stats:
  assumes "store_ok st" shows "store_ok (update_personality_stats st nm won v)"
proof -
  have "personalities (update_personality_stats st nm won v) = [] \<longleftrightarrow> personalities st = []"
    using update_personality_stats_frame(2) [of st nm won v] by (metis map_is_Nil_conv)
  with assms show ?thesis
    by (simp add: store_ok_def update_personality_stats_frame)
qed

lemma leaf_sum_doc_put_new:
  "map_of doc k = None \<Longrightarrow>
     sum_list (map (leaf_sum \<circ> snd) (doc_put doc k x))
       = sum_list (map (leaf_sum \<circ> snd) doc) + leaf_sum x"
  by (induction doc) (auto split: if_splits)

lemma leaf_sum_doc_put_old:
  "map_of doc k = Some y \<Longrightarrow>
     sum_list (map (leaf_sum \<circ> snd) (doc_put doc k x))
       = sum_list (map (leaf_sum \<circ> snd) doc) - leaf_sum y + leaf_sum x"
  by (induction doc) (auto split: if_splits)

lemma leaf_sum_nested: "leaf_sum (nested ks x) = leaf_sum x"
  by (induction ks) auto

lemma leaf_sum_mongo_inc:
  "mongo_inc doc ks n = Inr doc' \<Longrightarrow> leaf_sum (BDoc doc') = leaf_sum (BDoc doc) + n"
proof (induction doc ks n arbitrary: doc' rule: mongo_inc.induct)
  case (1 doc n)
  then show ?case by simp
next
  case (2 doc k n)
  then show ?case
    by (auto simp: leaf_sum_doc_put_new leaf_sum_doc_put_old
        split: option.splits bson.splits if_splits)
next
  case (3 doc k k' ks n)
  show ?case
  proof (cases "map_of doc k")
    case None
    with 3 show ?thesis by (auto simp: leaf_sum_doc_put_new leaf_sum_nested)
  next
    case (Some y)
    show ?thesis
    proof (cases y)
      case (BDoc sub)
      with 3 Some obtain sub' where s: "mongo_inc sub (k' # ks) n = Inr sub'"
        and d: "doc' = doc_put doc k (BDoc sub')"
        by (auto simp: and_then_def split: sum.splits)
      from "3.IH" [OF Some BDoc s] have "leaf_sum (BDoc sub') = leaf_sum (BDoc sub) + n" .
      with Some BDoc d show ?thesis
        using leaf_sum_doc_put_old [of doc k "BDoc sub" "BDoc sub'"] by simp
    qed (use 3 Some in auto)
  qed
qed

lemma add_arguments_eq:
  "add_arguments st did args =
     (case debates st did of
        None \<Rightarrow> st
      | Some d \<Rightarrow> st\<lparr>debates := (debates st)(did \<mapsto> d\<lparr>arguments := arguments d @ args\<rparr>)\<rparr>)"
proof (induction args arbitrary: st)
  case Nil
  show ?case
    by (cases "debates st did") (simp_all add: add_arguments_def fun_upd_idem)
next
  case (Cons a args)
  have "add_arguments st did (a # args) = add_arguments (snd (add_argument st did a)) did args"
    by (simp add: add_arguments_def)
  then show ?case
    by (cases "debates st did")
      (simp_all add: Cons.IH add_argument_def update_one_def)
qed

lemma debate_ok_frame:
  "debate_ok ns d \<Longrightarrow> debate_ok ns (d\<lparr>status := s\<rparr>)"
  "debate_ok ns d \<Longrightarrow> debate_ok ns (d\<lparr>current_round := r\<rparr>)"
  "debate_ok ns d \<Longrightarrow>
     debate_ok ns (d\<lparr>status := s, winner := w, judge_decision := jd, judge_id := ji\<rparr>)"
  by (simp_all add: debate_ok_def)

lemma debate_ok_vote:
  assumes "debate_ok ns d" and "mongo_inc (votes d) ks 1 = Inr vs"
  shows "debate_ok ns (d\<lparr>votes := vs, total_votes := total_votes d + 1, voter_records := vr\<rparr>)"
  using assms leaf_sum_mongo_inc [OF assms(2)] by (simp add: debate_ok_def)

lemma debate_ok_arguments:
  "debate_ok ns d \<Longrightarrow> list_all (\<lambda>a. personality_id a \<in> set ns) args \<Longrightarrow>
     debate_ok ns (d\<lparr>arguments := arguments d @ args\<rparr>)"
  by (simp add: debate_ok_def)

lemma store_ok_add_arguments:
  assumes "store_ok st"
    and "list_all (\<lambda>a. personality_id a \<in> set (map name (personalities st))) args"
  shows "store_ok (add_arguments st did args)"
proof (cases "debates st did")
  case None
  with assms(1) show ?thesis by (simp add: add_arguments_eq)
next
  case (Some d)
  with assms(1) have "debate_ok (map name (personalities st)) d" by (simp add: store_ok_def)
  from debate_ok_arguments [OF this assms(2)] assms(1) Some show ?thesis
    by (auto simp: add_arguments_eq store_ok_def)
qed

lemma generated_by_roster:
  "list_all (\<lambda>a. personality_id a \<in> set (map name (personalities st)))
     (fst (generate_debate_round env k st debate r))"
proof -
  obtain new where new: "fst (generate_debate_round env k st debate r) = new"
    and ms: "mset (map personality_id new) = mset (map name (personalities st))"
    by (rule generate_debate_round_roster)
  from ms have "set (map personality_id new) = set (map name (personalities st))"
    by (rule mset_eq_setD)
  then have "\<forall>a\<in>set new. personality_id a \<in> set (map name (personalities st))"
    by auto
  with new show ?thesis by (simp add: list_all_iff)
qed

lemma store_ok_start_debate: "store_ok st \<Longrightarrow> store_ok (snd (start_debate st did))"
proof -
  assume ok: "store_ok st"
  have "snd (start_debate st did)
          = snd (update_one st did (\<lambda>d. status d = ''created'') (\<lambda>d. d\<lparr>status := ''in_progress''\<rparr>))"
    by (simp add: start_debate_def split: prod.splits)
  with ok show ?thesis by (simp add: store_ok_update_one debate_ok_frame)
qed

lemma store_ok_update_round: "store_ok st \<Longrightarrow> store_ok (snd (update_round st did r))"
proof -
  assume ok: "store_ok st"
  have "snd (update_round st did r)
          = snd (update_one st did (\<lambda>d. True) (\<lambda>d. d\<lparr>current_round := r\<rparr>))"
    by (simp add: update_round_def split: prod.splits)
  with ok show ?thesis by (simp add: store_ok_update_one debate_ok_frame)
qed

lemma store_ok_end_debate: "store_ok st \<Longrightarrow> store_ok (snd (end_debate st did))"
proof -
  assume ok: "store_ok st"
  have "snd (end_debate st did)
          = snd (update_one st did (\<lambda>d. True) (\<lambda>d. d\<lparr>status := ''completed''\<rparr>))"
    by (simp add: end_debate_def split: prod.splits)
  with ok show ?thesis by (simp add: store_ok_update_one debate_ok_frame)
qed

lemma store_ok_fold_stats:
  "store_ok st \<Longrightarrow>
     store_ok (fold (\<lambda>participant s.
                       if participant \<noteq> w then update_personality_stats s participant False 0 else s)
                ps st)"
  by (induction ps arbitrary: st) (simp_all add: store_ok_update_personality_stats)

lemma store_ok_judge_debate:
  assumes "store_ok st" shows "store_ok (snd (judge_debate st did w reasoning jid))"
proof -
  obtain n st1 where u: "update_one st did (\<lambda>d. True)
      (\<lambda>d. d\<lparr>status := ''judged'', winner := Some w, judge_decision := Some reasoning,
              judge_id := jid\<rparr>) = (n, st1)"
    by (cases "update_one st did (\<lambda>d. True)
      (\<lambda>d. d\<lparr>status := ''judged'', winner := Some w, judge_decision := Some reasoning,
              judge_id := jid\<rparr>)")
  have "store_ok (snd (update_one st did (\<lambda>d. True)
      (\<lambda>d. d\<lparr>status := ''judged'', winner := Some w, judge_decision := Some reasoning,
              judge_id := jid\<rparr>)))"
    using assms by (simp add: store_ok_update_one debate_ok_frame)
  with u have st1: "store_ok st1" by simp
  show ?thesis
  proof (cases "n > 0")
    case False
    with u st1 show ?thesis by (simp add: judge_debate_def)
  next
    case True
    let ?st2 = "update_personality_stats st1 w True 0"
    have st2: "store_ok ?st2" using st1 by (rule store_ok_update_personality_stats)
    have "snd (judge_debate st did w reasoning jid) =
        (case get_debate ?st2 did of
           None \<Rightarrow> ?st2
         | Some debate \<Rightarrow>
             fold (\<lambda>participant s.
                     if participant \<noteq> w then update_personality_stats s participant False 0 else s)
                  (participants debate) ?st2)"
      using True u by (simp add: judge_debate_def Let_def)
    with st2 show ?thesis
      by (simp add: store_ok_fold_stats split: option.splits)
  qed
qed

lemma store_ok_add_vote:
  assumes "store_ok st" shows "store_ok (snd (add_vote st did pid voter))"
proof -
  from add_vote_cases [of st did pid voter] show ?thesis
  proof
    assume "add_vote st did pid voter = (False, st)"
    with assms show ?thesis by simp
  next
    assume "\<exists>d vs vr. debates st did = Some d
         \<and> mongo_inc (votes d) (split_on CHR ''.'' pid) 1 = Inr vs
         \<and> add_vote st did pid voter =
             (True, st\<lparr>debates := (debates st)(did \<mapsto>
                d\<lparr>votes := vs, total_votes := total_votes d + 1, voter_records := Some vr\<rparr>)\<rparr>)"
    then obtain d vs vr where d: "debates st did = Some d"
      and vs: "mongo_inc (votes d) (split_on CHR ''.'' pid) 1 = Inr vs"
      and eq: "add_vote st did pid voter =
             (True, st\<lparr>debates := (debates st)(did \<mapsto>
                d\<lparr>votes := vs, total_votes := total_votes d + 1, voter_records := Some vr\<rparr>)\<rparr>)"
      by blast
    from assms d have "debate_ok (map name (personalities st)) d" by (simp add: store_ok_def)
    from debate_ok_vote [OF this vs]
    have "debate_ok (map name (personalities st))
            (d\<lparr>votes := vs, total_votes := total_votes d + 1, voter_records := Some vr\<rparr>)" .
    with assms d show ?thesis unfolding eq by (auto simp: store_ok_def)
  qed
qed

lemma store_ok_create_debate:
  assumes "store_ok st" and "personalities st \<noteq> []"
    and "create_debate st new_id t creator = Inr (debate, st')"
  shows "store_ok st'"
proof -
  from assms(3) have st': "st' = st\<lparr>debates := (debates st)(new_id \<mapsto>
      Debate_dict ((Debate_init t creator new_id)\<lparr>participants := map name (personalities st)\<rparr>))\<rparr>"
    by (auto simp: create_debate_def Let_def get_debate_personalities_def split: if_splits)
  have "debate_ok (map name (personalities st))
          (Debate_dict ((Debate_init t creator new_id)\<lparr>participants := map name (personalities st)\<rparr>))"
    by (simp add: debate_ok_def Debate_dict_def Debate_init_def)
  with assms(1,2) show ?thesis unfolding st' by (auto simp: store_ok_def)
qed

lemma store_ok_start_route: "store_ok st \<Longrightarrow> store_ok (snd (start_debate_route env k st did))"
proof -
  assume "store_ok st"
  then have ok0: "store_ok (AIService_init (DebateService_init st))"
    by (simp add: store_ok_service_init)
  let ?st0 = "AIService_init (DebateService_init st)"
  have ok1: "store_ok (snd (start_debate ?st0 did))" using ok0 by (rule store_ok_start_debate)
  have gen: "\<And>st1 d'. store_ok st1 \<Longrightarrow> store_ok (snd (start_generate_arguments env k st1 did d'))"
    by (simp add: start_generate_arguments_def store_ok_add_arguments generated_by_roster
        split: prod.splits)
      (metis fst_conv generated_by_roster store_ok_add_arguments)
  show ?thesis
    using ok0 ok1 gen
    by (auto simp: start_debate_route_def Let_def split: option.splits prod.splits)
      (metis snd_conv)
qed

section \<open>Every request keeps the store well formed\<close>

lemma store_ok_generate_and_add:
  "store_ok st \<Longrightarrow>
     store_ok (add_arguments st did (fst (generate_debate_round env k st debate r)))"
  by (rule store_ok_add_arguments) (assumption, rule generated_by_roster)

lemma store_ok_next_round_generate:
  assumes "store_ok st"
  shows "store_ok (snd (next_round_generate_arguments env k st did debate r))"
proof -
  have "snd (next_round_generate_arguments env k st did debate r) =
      snd (update_round (add_arguments st did (fst (generate_debate_round env k st debate r))) did r)"
    by (simp add: next_round_generate_arguments_def split: prod.splits)
  with assms show ?thesis
    by (simp add: store_ok_update_round store_ok_generate_and_add)
qed

lemma store_ok_next_round_route:
  assumes "store_ok st" shows "store_ok (snd (next_round_route env k st did))"
proof -
  let ?st0 = "AIService_init (DebateService_init st)"
  have ok0: "store_ok ?st0" using assms by (simp add: store_ok_service_init)
  have e: "store_ok (snd (end_debate ?st0 did))" using ok0 by (rule store_ok_end_debate)
  have g: "\<And>debate r. store_ok (snd (next_round_generate_arguments env k ?st0 did debate r))"
    using ok0 by (rule store_ok_next_round_generate)
  show ?thesis
    using ok0 e g
    by (auto simp: next_round_route_def Let_def split: option.splits prod.splits)
      (metis snd_conv)+
qed

lemma store_ok_judge_route:
  assumes "store_ok st" shows "store_ok (snd (judge_debate_route st did data))"
proof -
  let ?st0 = "DebateService_init st"
  have ok0: "store_ok ?st0" using assms by (simp add: store_ok_service_init)
  have j: "\<And>w reasoning jid. store_ok (snd (judge_debate ?st0 did w reasoning jid))"
    using ok0 by (rule store_ok_judge_debate)
  show ?thesis
    using assms ok0 j
    by (auto simp: judge_debate_route_def Let_def split: option.splits prod.splits bool.splits)
      (metis snd_conv)+
qed

lemma store_ok_vote_route:
  assumes "store_ok st" shows "store_ok (snd (vote_on_debate_route st did data))"
proof -
  let ?st0 = "DebateService_init st"
  have ok0: "store_ok ?st0" using assms by (simp add: store_ok_service_init)
  have v: "\<And>pid voter. store_ok (snd (add_vote ?st0 did pid voter))"
    using ok0 by (rule store_ok_add_vote)
  show ?thesis
    using assms ok0 v
    by (auto simp: vote_on_debate_route_def Let_def split: option.splits prod.splits bool.splits)
      (metis snd_conv)+
qed

lemma store_ok_step: "store_ok st \<Longrightarrow> store_ok (snd (step st req))"
proof (cases req)
  case Visit
  assume "store_ok st"
  with Visit show ?thesis by (simp add: store_ok_service_init)
next
  case (Create new_id t creator)
  assume ok: "store_ok st"
  then have ok0: "store_ok (DebateService_init st)" by (simp add: store_ok_service_init)
  show ?thesis
  proof (cases "create_debate (DebateService_init st) new_id t creator")
    case (Inl e)
    with Create ok0 show ?thesis by simp
  next
    case (Inr res)
    obtain debate st1 where res: "res = (debate, st1)" by (cases res)
    from store_ok_create_debate [OF ok0 personalities_service_init_nonempty(1)] Inr res
    have "store_ok st1" by simp
    with Create Inr res show ?thesis by simp
  qed
next
  case (Start env k did)
  assume "store_ok st"
  with Start show ?thesis by (simp add: store_ok_start_route)
next
  case (Advance env k did)
  assume "store_ok st"
  with Advance show ?thesis by (simp add: store_ok_next_round_route)
next
  case (Judge did data)
  assume "store_ok st"
  with Judge show ?thesis by (simp add: store_ok_judge_route)
next
  case (Vote did data)
  assume "store_ok st"
  with Vote show ?thesis by (simp add: store_ok_vote_route)
qed

lemma reachable_store_ok: "reachable st \<Longrightarrow> store_ok st"
proof (induction rule: reachable.induct)
  case (initial ps)
  show ?case by (simp add: store_ok_def)
next
  case (after st req)
  then show ?case by (simp add: store_ok_step)
qed

section \<open>What a round adds\<close>

lemma store_ok_seeded:
  assumes "store_ok st" and "debates st did = Some d"
  shows "AIService_init (DebateService_init st) = st" and "DebateService_init st = st"
    and "participants d = map name (personalities st)"
proof -
  from assms have "personalities st \<noteq> []" by (auto simp: store_ok_def)
  then show "AIService_init (DebateService_init st) = st" and "DebateService_init st = st"
    by (simp_all add: service_init_seeded)
  from assms show "participants d = map name (personalities st)"
    by (simp add: store_ok_def debate_ok_def)
qed

lemma next_round_route_generates:
  assumes seeded: "AIService_init (DebateService_init st) = st"
    and d: "debates st did = Some d"
    and "status d = ''in_progress''" and "current_round d + 1 \<le> max_rounds d"
    and new: "fst (generate_debate_round env k st (from_dict d) (current_round d + 1)) = new"
  shows "next_round_route env k st did =
      (Advanced (current_round d + 1)
         (from_dict (d\<lparr>arguments := arguments d @ new, current_round := current_round d + 1\<rparr>)) new,
       st\<lparr>debates := (debates st)(did \<mapsto>
             d\<lparr>arguments := arguments d @ new, current_round := current_round d + 1\<rparr>)\<rparr>)"
proof -
  have g: "next_round_generate_arguments env k st did (from_dict d) (current_round d + 1) =
      (new, st\<lparr>debates := (debates st)(did \<mapsto>
             d\<lparr>arguments := arguments d @ new, current_round := current_round d + 1\<rparr>)\<rparr>)"
    using new d
    by (auto simp: next_round_generate_arguments_def add_arguments_eq update_round_def update_one_def
        split: prod.splits)
  show ?thesis
    using assms(2-4)
    by (simp add: next_round_route_def seeded Let_def get_debate_Some from_dict_fields g get_debate_def)
qed

lemma start_route_generates:
  assumes seeded: "AIService_init (DebateService_init st) = st"
    and d: "debates st did = Some d"
    and "status d = ''created''"
    and new: "fst (generate_debate_round env k
                    (st\<lparr>debates := (debates st)(did \<mapsto> d\<lparr>status := ''in_progress''\<rparr>)\<rparr>)
                    (from_dict (d\<lparr>status := ''in_progress''\<rparr>)) 1) = new"
  shows "start_debate_route env k st did =
      (Started (from_dict (d\<lparr>status := ''in_progress''\<rparr>)) new,
       st\<lparr>debates := (debates st)(did \<mapsto>
             d\<lparr>status := ''in_progress'', arguments := arguments d @ new\<rparr>)\<rparr>)"
proof -
  let ?st1 = "st\<lparr>debates := (debates st)(did \<mapsto> d\<lparr>status := ''in_progress''\<rparr>)\<rparr>"
  have s: "start_debate st did = (Some (from_dict (d\<lparr>status := ''in_progress''\<rparr>)), ?st1)"
    using d assms(3) by (simp add: start_debate_def update_one_def get_debate_def)
  have g: "start_generate_arguments env k ?st1 did (from_dict (d\<lparr>status := ''in_progress''\<rparr>)) =
      (new, st\<lparr>debates := (debates st)(did \<mapsto>
             d\<lparr>status := ''in_progress'', arguments := arguments d @ new\<rparr>)\<rparr>)"
    using new
    by (auto simp: start_generate_arguments_def add_arguments_eq split: prod.splits)
  show ?thesis
    using assms(2,3)
    by (simp add: start_debate_route_def seeded Let_def get_debate_Some from_dict_fields s g)
qed

section \<open>At most one start succeeds\<close>

lemma start_debate_eq:
  "start_debate st did =
     (case debates st did of
        None \<Rightarrow> (None, st)
      | Some d \<Rightarrow>
          if status d = ''created''
          then (Some (from_dict (d\<lparr>status := ''in_progress''\<rparr>)),
                st\<lparr>debates := (debates st)(did \<mapsto> d\<lparr>status := ''in_progress''\<rparr>)\<rparr>)
          else (None, st))"
  by (simp add: start_debate_def update_one_def get_debate_def split: option.splits)

lemma already_started_service_init:
  "already_started (AIService_init (DebateService_init st)) did = already_started st did"
  by (simp add: already_started_def debates_service_init)

lemma already_started_add_arguments:
  "already_started (add_arguments st did args) did = already_started st did"
  by (simp add: already_started_def add_arguments_eq split: option.splits)

lemma start_step_begin:
  assumes "start_step env k did st Begin = (st', pc')"
  shows "\<not> start_succeeded pc'" and "already_started st' did = already_started st did"
  using assms
  by (auto simp: Let_def already_started_service_init split: option.splits if_splits)

lemma start_step_checked:
  assumes "start_step env k did st Checked = (st', pc')"
  shows "already_started st did \<Longrightarrow> \<not> start_succeeded pc' \<and> st' = st"
    and "start_succeeded pc' \<Longrightarrow> already_started st' did"
    and "\<not> start_succeeded pc' \<Longrightarrow> st' = st"
  using assms
  by (auto simp: start_debate_eq already_started_def split: option.splits if_splits)

lemma start_step_claimed:
  assumes "start_step env k did st (Claimed d') = (st', pc')"
  shows "start_succeeded pc'" and "already_started st' did = already_started st did"
  using assms
  by (auto simp: start_generate_arguments_def already_started_add_arguments split: prod.splits)

lemma one_claim_step:
  assumes "one_claim did st pc1 pc2" and "start_step env k did st pc1 = (st', pc1')"
  shows "one_claim did st' pc1' pc2"
proof (cases pc1)
  case Begin
  with assms(2) start_step_begin [of env k did st st' pc1']
  have "\<not> start_succeeded pc1'" "already_started st' did = already_started st did" by simp_all
  with assms(1) Begin show ?thesis by (simp add: one_claim_def)
next
  case Checked
  note c = start_step_checked [of env k did st st' pc1']
  show ?thesis
  proof (cases "start_succeeded pc2")
    case True
    with assms(1) have "already_started st did" by (simp add: one_claim_def)
    with c(1) assms(2) Checked have "\<not> start_succeeded pc1'" "st' = st" by simp_all
    with assms(1) True show ?thesis by (simp add: one_claim_def)
  next
    case False
    with c(2) assms(2) Checked show ?thesis by (auto simp: one_claim_def)
  qed
next
  case (Claimed d')
  with assms(2) start_step_claimed [of env k did st d' st' pc1']
  have "start_succeeded pc1'" "already_started st' did = already_started st did" by simp_all
  with assms(1) Claimed show ?thesis by (simp add: one_claim_def)
next
  case (Done r)
  with assms show ?thesis by simp
qed

lemma one_claim_sym: "one_claim did st pc1 pc2 = one_claim did st pc2 pc1"
  by (auto simp: one_claim_def)

lemma one_claim_run:
  assumes "one_claim did st pc1 pc2"
    and "run_two_starts env k1 k2 did sched (st, pc1, pc2) = (st', pc1', pc2')"
  shows "one_claim did st' pc1' pc2'"
  using assms
proof (induction sched arbitrary: st pc1 pc2)
  case Nil
  then show ?case by simp
next
  case (Cons first sched)
  show ?case
  proof (cases first)
    case True
    obtain st1 pc where s: "start_step env k1 did st pc1 = (st1, pc)"
      by (cases "start_step env k1 did st pc1")
    from one_claim_step [OF Cons.prems(1) s] have "one_claim did st1 pc pc2" .
    moreover from Cons.prems(2) True s
    have "run_two_starts env k1 k2 did sched (st1, pc, pc2) = (st', pc1', pc2')" by simp
    ultimately show ?thesis by (rule Cons.IH)
  next
    case False
    obtain st1 pc where s: "start_step env k2 did st pc2 = (st1, pc)"
      by (cases "start_step env k2 did st pc2")
    from Cons.prems(1) have "one_claim did st pc2 pc1" by (simp add: one_claim_sym)
    from one_claim_step [OF this s] have "one_claim did st1 pc1 pc" by (simp add: one_claim_sym)
    moreover from Cons.prems(2) False s
    have "run_two_starts env k1 k2 did sched (st1, pc1, pc) = (st', pc1', pc2')" by simp
    ultimately show ?thesis by (rule Cons.IH)
  qed
qed

lemma start_route_as_steps:
  "run_two_starts env k k2 did [True, True, True] (st, Begin, pc2) =
     (snd (start_debate_route env k st did), Done (fst (start_debate_route env k st did)), pc2)"
  by (simp add: start_debate_route_def Let_def split: option.splits prod.splits)

section \<open>A judged debate stays judged\<close>

lemma debates_fold_stats:
  "debates (fold (\<lambda>participant s.
                    if participant \<noteq> w then update_personality_stats s participant False 0 else s)
                 ps st) = debates st"
  by (induction ps arbitrary: st) (simp_all add: update_personality_stats_frame)

lemma debates_judge_debate:
  "debates (snd (judge_debate st did w reasoning jid)) =
     (case debates st did of
        None \<Rightarrow> debates st
      | Some d \<Rightarrow> (debates st)(did \<mapsto> d\<lparr>status := ''judged'', winner := Some w,
                                          judge_decision := Some reasoning, judge_id := jid\<rparr>))"
  by (simp add: judge_debate_def update_one_def Let_def get_debate_def debates_fold_stats
      update_personality_stats_frame split: option.splits)

lemma fst_judge_debate: "fst (judge_debate st did w reasoning jid) = (debates st did \<noteq> None)"
  by (simp add: judge_debate_def update_one_def Let_def split: option.splits)

lemma is_judged_service_init:
  "is_judged (DebateService_init st) did = is_judged st did"
  "is_judged (AIService_init st) did = is_judged st did"
  by (simp_all add: is_judged_def debates_service_init)

lemma is_judged_update_one:
  assumes "is_judged st did"
    and "\<And>d. status d = ''judged'' \<Longrightarrow> flt d \<Longrightarrow> status (upd d) = ''judged''"
  shows "is_judged (snd (update_one st did' flt upd)) did"
  using assms by (auto simp: is_judged_def debates_update_one split: option.splits)

lemma is_judged_update_one_other:
  "did' \<noteq> did \<Longrightarrow> is_judged (snd (update_one st did' flt upd)) did = is_judged st did"
  by (simp add: is_judged_def debates_update_one split: option.splits)

lemma snd_end_debate:
  "snd (end_debate st did) = snd (update_one st did (\<lambda>d. True) (\<lambda>d. d\<lparr>status := ''completed''\<rparr>))"
  by (simp add: end_debate_def split: prod.splits)

lemma is_judged_add_arguments:
  "is_judged (add_arguments st did' args) did = is_judged st did"
  by (auto simp: is_judged_def add_arguments_eq split: option.splits)

lemma is_judged_start_route:
  assumes "is_judged st did" shows "is_judged (snd (start_debate_route env k st did')) did"
proof -
  let ?st0 = "AIService_init (DebateService_init st)"
  have j0: "is_judged ?st0 did" using assms by (simp add: is_judged_service_init)
  have j1: "is_judged (snd (start_debate ?st0 did')) did"
    using j0 by (auto simp: start_debate_eq is_judged_def split: option.splits)
  have gen: "\<And>st1 d'. is_judged st1 did \<Longrightarrow>
      is_judged (snd (start_generate_arguments env k st1 did' d')) did"
    by (simp add: start_generate_arguments_def is_judged_add_arguments split: prod.splits)
  show ?thesis
    using j0 j1 gen
    by (auto simp: start_debate_route_def Let_def split: option.splits prod.splits)
      (metis snd_conv)
qed

lemma is_judged_next_round_route:
  assumes "is_judged st did" shows "is_judged (snd (next_round_route env k st did')) did"
proof -
  let ?st0 = "AIService_init (DebateService_init st)"
  have j0: "is_judged ?st0 did" using assms by (simp add: is_judged_service_init)
  have g: "is_judged (snd (next_round_generate_arguments env k ?st0 did' debate r)) did"
    for debate r
  proof -
    let ?new = "fst (generate_debate_round env k ?st0 debate r)"
    have "snd (next_round_generate_arguments env k ?st0 did' debate r) =
        snd (update_one (add_arguments ?st0 did' ?new) did' (\<lambda>d. True) (\<lambda>d. d\<lparr>current_round := r\<rparr>))"
      by (simp add: next_round_generate_arguments_def update_round_def split: prod.splits)
    moreover have "is_judged (add_arguments ?st0 did' ?new) did"
      using j0 by (simp add: is_judged_add_arguments)
    ultimately show ?thesis by (simp add: is_judged_update_one)
  qed
  show ?thesis
  proof (cases "did' = did")
    case False
    have "is_judged (snd (end_debate ?st0 did')) did"
      using j0 False by (simp add: snd_end_debate is_judged_update_one_other)
    with j0 g show ?thesis
      by (auto simp: next_round_route_def Let_def split: option.splits prod.splits)
        (metis snd_conv)+
  next
    case True
    from j0 obtain d where "debates ?st0 did = Some d" "status d = ''judged''"
      by (auto simp: is_judged_def split: option.splits)
    with True j0 show ?thesis
      by (simp add: next_round_route_def Let_def get_debate_Some from_dict_fields)
  qed
qed

lemma is_judged_judge_route:
  assumes "is_judged st did"
  shows "is_judged (snd (judge_debate_route st did' data)) did"
    and "did' = did \<Longrightarrow> \<forall>u w. fst (judge_debate_route st did' data) \<noteq> Judged u w"
proof -
  let ?st0 = "DebateService_init st"
  have j0: "is_judged ?st0 did" using assms by (simp add: is_judged_service_init)
  have j: "\<And>w reasoning jid. is_judged (snd (judge_debate ?st0 did' w reasoning jid)) did"
    using j0 by (auto simp: is_judged_def debates_judge_debate split: option.splits)
  show "is_judged (snd (judge_debate_route st did' data)) did"
    using assms j0 j
    by (auto simp: judge_debate_route_def Let_def split: option.splits prod.splits bool.splits)
      (metis snd_conv)+
  assume "did' = did"
  moreover from j0 obtain d where "debates ?st0 did = Some d" "status d = ''judged''"
    by (auto simp: is_judged_def split: option.splits)
  ultimately show "\<forall>u w. fst (judge_debate_route st did' data) \<noteq> Judged u w"
    by (auto simp: judge_debate_route_def Let_def get_debate_Some from_dict_fields
        split: option.splits)
qed

lemma judge_route_JudgedD:
  assumes "fst (judge_debate_route st did data) = Judged u w"
  shows "\<exists>body d. data = Some body \<and> map_of body ''winner'' = Some w \<and> w \<noteq> []
           \<and> debates st did = Some d \<and> status d \<noteq> ''judged''
           \<and> (status d = ''completed'' \<or> status d = ''in_progress'')
           \<and> w \<in> set (participants d)"
proof (cases data)
  case None
  with assms show ?thesis by (simp add: judge_debate_route_def)
next
  case (Some body)
  show ?thesis
  proof (cases "map_of body ''winner''")
    case None
    with assms Some show ?thesis by (simp add: judge_debate_route_def Let_def split: if_splits)
  next
    case w': (Some w')
    show ?thesis
    proof (cases "debates st did")
      case None
      with assms Some w' show ?thesis
        by (simp add: judge_debate_route_def Let_def debates_service_init get_debate_def
            split: if_splits)
    next
      case d: (Some d)
      let ?r = "judge_debate (DebateService_init st) did w'
         (sanitize_input (case map_of body ''reasoning'' of None \<Rightarrow> [] | Some x \<Rightarrow> x))
         (map_of body ''judge_id'')"
      obtain ok st1 where j: "?r = (ok, st1)" by (cases ?r)
      from assms Some w' d j show ?thesis
        by (cases ok; cases "get_debate st1 did")
          (simp_all add: judge_debate_route_def Let_def get_debate_service_init get_debate_Some
            from_dict_fields split: if_splits)
    qed
  qed
qed

lemma judge_route_accepts:
  assumes "map_of body ''winner'' = Some w" and "w \<noteq> []"
    and "debates st did = Some d" and "status d \<noteq> ''judged''"
    and "status d = ''completed'' \<or> status d = ''in_progress''"
    and "w \<in> set (participants d)"
  shows "judge_debate_route st did (Some body) =
     (Judged (from_dict (d\<lparr>status := ''judged'', winner := Some w,
                 judge_decision := Some (sanitize_input
                    (case map_of body ''reasoning'' of None \<Rightarrow> [] | Some x \<Rightarrow> x)),
                 judge_id := map_of body ''judge_id''\<rparr>)) w,
      snd (judge_debate (DebateService_init st) did w
             (sanitize_input (case map_of body ''reasoning'' of None \<Rightarrow> [] | Some x \<Rightarrow> x))
             (map_of body ''judge_id'')))"
proof -
  let ?st0 = "DebateService_init st"
  let ?r = "judge_debate ?st0 did w
             (sanitize_input (case map_of body ''reasoning'' of None \<Rightarrow> [] | Some x \<Rightarrow> x))
             (map_of body ''judge_id'')"
  from assms(1) have body: "body \<noteq> []" by auto
  have d0: "debates ?st0 did = Some d" using assms(3) by (simp add: debates_service_init)
  have "fst ?r" using d0 by (simp add: fst_judge_debate)
  then have r: "?r = (True, snd ?r)" by (cases ?r) simp
  have "debates (snd ?r) did = Some (d\<lparr>status := ''judged'', winner := Some w,
                 judge_decision := Some (sanitize_input
                    (case map_of body ''reasoning'' of None \<Rightarrow> [] | Some x \<Rightarrow> x)),
                 judge_id := map_of body ''judge_id''\<rparr>)"
    using d0 by (simp add: debates_judge_debate)
  then have g: "get_debate (snd ?r) did = Some (from_dict (d\<lparr>status := ''judged'', winner := Some w,
                 judge_decision := Some (sanitize_input
                    (case map_of body ''reasoning'' of None \<Rightarrow> [] | Some x \<Rightarrow> x)),
                 judge_id := map_of body ''judge_id''\<rparr>))"
    by (rule get_debate_Some)
  have "judge_debate_route st did (Some body) =
      (case ?r of
         (True, st1) \<Rightarrow>
           (case get_debate st1 did of
              None \<Rightarrow> (Error 500 ''Failed to judge debate'', st1)
            | Some updated_debate \<Rightarrow> (Judged updated_debate w, st1))
       | (False, st1) \<Rightarrow> (Error 500 ''Failed to judge debate'', st1))"
    using assms body d0
    by (auto simp: judge_debate_route_def Let_def get_debate_Some from_dict_fields)
  also have "\<dots> = (Judged (from_dict (d\<lparr>status := ''judged'', winner := Some w,
                 judge_decision := Some (sanitize_input
                    (case map_of body ''reasoning'' of None \<Rightarrow> [] | Some x \<Rightarrow> x)),
                 judge_id := map_of body ''judge_id''\<rparr>)) w, snd ?r)"
    by (subst r) (simp add: g)
  finally show ?thesis .
qed

lemma judge_route_judged:
  assumes "fst (judge_debate_route st did data) = Judged u w"
  shows "is_judged (snd (judge_debate_route st did data)) did"
proof -
  from judge_route_JudgedD [OF assms] obtain body d where
    *: "data = Some body" "map_of body ''winner'' = Some w" "w \<noteq> []"
       "debates st did = Some d" "status d \<noteq> ''judged''"
       "status d = ''completed'' \<or> status d = ''in_progress''" "w \<in> set (participants d)"
    by blast
  from judge_route_accepts [OF *(2-7)] *(1,4) show ?thesis
    by (simp add: is_judged_def debates_judge_debate debates_service_init)
qed

lemma is_judged_vote_route:
  assumes "is_judged st did" shows "is_judged (snd (vote_on_debate_route st did' data)) did"
proof -
  let ?st0 = "DebateService_init st"
  have j0: "is_judged ?st0 did" using assms by (simp add: is_judged_service_init)
  have v: "\<And>pid voter. is_judged (snd (add_vote ?st0 did' pid voter)) did"
    subgoal for pid voter
      using j0 add_vote_cases [of ?st0 did' pid voter] by (auto simp: is_judged_def)
    done
  show ?thesis
    using assms j0 v
    by (auto simp: vote_on_debate_route_def Let_def split: option.splits prod.splits bool.splits)
      (metis snd_conv)+
qed

lemma is_judged_step: "is_judged st did \<Longrightarrow> is_judged (snd (step st req)) did"
proof (cases req)
  case Visit
  assume "is_judged st did" with Visit show ?thesis by (simp add: is_judged_service_init)
next
  case (Create new_id t creator)
  assume "is_judged st did"
  then have "is_judged (DebateService_init st) did" by (simp add: is_judged_service_init)
  with Create show ?thesis
    by (auto simp: Let_def create_debate_def is_judged_def split: sum.splits option.splits if_splits)
next
  case (Start env k did')
  assume "is_judged st did" with Start show ?thesis by (simp add: is_judged_start_route)
next
  case (Advance env k did')
  assume "is_judged st did" with Advance show ?thesis by (simp add: is_judged_next_round_route)
next
  case (Judge did' data)
  assume "is_judged st did" with Judge show ?thesis by (simp add: is_judged_judge_route)
next
  case (Vote did' data)
  assume "is_judged st did" with Vote show ?thesis by (simp add: is_judged_vote_route)
qed

lemma judged_here_step:
  assumes "judged_here did (req, fst (step st req))"
  shows "\<not> is_judged st did" and "is_judged (snd (step st req)) did"
proof -
  from assms obtain data u w where req: "req = Judge did data"
    and r: "fst (judge_debate_route st did data) = Judged u w"
    by (cases req; cases "fst (step st req)") auto
  from r is_judged_judge_route(2) [of st did did data] show "\<not> is_judged st did" by auto
  from r req show "is_judged (snd (step st req)) did" by (simp add: judge_route_judged)
qed

lemma fst_run_Cons:
  "fst (run st (req # reqs)) = fst (step st req) # fst (run (snd (step st req)) reqs)"
  by (simp split: prod.splits)

lemma no_judged_transition_after_judged:
  "is_judged st did \<Longrightarrow> judged_transitions did reqs (fst (run st reqs)) = 0"
proof (induction reqs arbitrary: st)
  case Nil
  show ?case by (simp add: judged_transitions_def)
next
  case (Cons req reqs)
  from Cons.prems have "is_judged (snd (step st req)) did" by (rule is_judged_step)
  from Cons.IH [OF this] have "judged_transitions did reqs (fst (run (snd (step st req)) reqs)) = 0" .
  moreover have "\<not> judged_here did (req, fst (step st req))"
    using judged_here_step(1) [of did req st] Cons.prems by blast
  ultimately show ?case
    by (simp add: judged_transitions_def fst_run_Cons del: run.simps)
qed

lemma at_most_one_judged_transition:
  "judged_transitions did reqs (fst (run st reqs)) \<le> 1"
proof (induction reqs arbitrary: st)
  case Nil
  show ?case by (simp add: judged_transitions_def)
next
  case (Cons req reqs)
  show ?case
  proof (cases "judged_here did (req, fst (step st req))")
    case True
    then have "is_judged (snd (step st req)) did" by (rule judged_here_step(2))
    from no_judged_transition_after_judged [OF this, of reqs] True show ?thesis
      by (simp add: judged_transitions_def fst_run_Cons del: run.simps)
  next
    case False
    with Cons.IH [of "snd (step st req)"] show ?thesis
      by (simp add: judged_transitions_def fst_run_Cons del: run.simps)
  qed
qed

section \<open>The example run, step by step\<close>

lemma names_two: "name the_scientist = ''The Scientist''" "name the_advocate = ''The Advocate''"
  by (simp_all add: the_scientist_def the_advocate_def AIPersonality_init_def)

lemma two_personalities_seeded:
  "DebateService_init two_personalities = two_personalities"
  "AIService_init two_personalities = two_personalities"
  by (simp_all add: service_init_seeded two_personalities_def)

lemma step_create: "step two_personalities (Create 1 vehicles_topic None) = (Created created_debate, created_store)"
  by (simp add: two_personalities_seeded)
    (simp add: two_personalities_def create_debate_def get_debate_personalities_def names_two
      created_store_def created_debate_def Debate_dict_def Debate_init_def)

lemma created_store_seeded:
  "DebateService_init created_store = created_store"
  "AIService_init created_store = created_store"
  by (simp_all add: service_init_seeded created_store_def two_personalities_def)

lemma no_model_fields:
  "generator no_model = None" "rand no_model k = 0" "raises no_model k = False"
  by (simp_all add: no_model_def)

lemma short_answer_cleaned: "clean_and_validate_argument (strip '' No.'') = ''No.''"
  by code_simp

lemma broken_model_refused:
  assumes "generator broken_model = Some g" and "g j prompt = Some generated_text"
  shows "finish_generated prompt generated_text = None"
proof -
  from assms have "generated_text = prompt @ '' No.''"
    by (auto simp: broken_model_def split: if_splits)
  then show ?thesis by (simp add: finish_generated_def short_answer_cleaned)
qed

lemma broken_model_falls_back:
  "fallback_or_generated broken_model t ctx r a
     \<Longrightarrow> content a \<in> set (fallback_templates (personality_id a) t)"
  unfolding fallback_or_generated_def using broken_model_refused by fastforce

lemma shuffle_two: "random_shuffle no_model 0 [the_scientist, the_advocate] = ([the_advocate, the_scientist], 1)"
  by (simp add: random_shuffle_def randbelow_def no_model_fields)

lemma generate_first_round:
  "generate_debate_round no_model 0 st (from_dict (created_debate\<lparr>status := ''in_progress''\<rparr>)) 1
     = (first_round, 3)" if "personalities st = [the_scientist, the_advocate]"
  using that
  by (simp add: generate_debate_round_def get_debate_personalities_def shuffle_two
      generate_argument_def generate_fallback_argument_def random_choice_def randbelow_def
      fallback_templates_def names_two first_round_def from_dict_fields created_debate_def
      Debate_init_def no_model_fields)

lemma step_start:
  "step created_store (Start no_model 0 1) =
     (Started (from_dict (created_debate\<lparr>status := ''in_progress''\<rparr>)) first_round, started_store)"
proof -
  have d: "debates created_store 1 = Some created_debate" by (simp add: created_store_def)
  have s: "status created_debate = ''created''" by (simp add: created_debate_def Debate_init_def)
  have g: "fst (generate_debate_round no_model 0
                    (created_store\<lparr>debates := (debates created_store)(1 \<mapsto> created_debate\<lparr>status := ''in_progress''\<rparr>)\<rparr>)
                    (from_dict (created_debate\<lparr>status := ''in_progress''\<rparr>)) 1) = first_round"
    by (subst generate_first_round) (simp_all add: created_store_def two_personalities_def)
  have "AIService_init (DebateService_init created_store) = created_store"
    by (simp add: created_store_seeded)
  from start_route_generates [OF this d s g] show ?thesis
    by (simp add: started_store_def created_store_def started_debate_def created_debate_def
        Debate_init_def)
qed

lemma started_store_seeded:
  "DebateService_init started_store = started_store"
  by (simp add: service_init_seeded started_store_def two_personalities_def)

lemma step_vote:
  "step started_store (Vote 1 (Some vote_for_scientist)) = (Voted (from_dict voted_debate), voted_store)"
proof -
  have "add_vote started_store 1 ''The Scientist'' ''alice'' = (True, voted_store)"
    by (subst add_vote_accepts [of started_store 1 started_debate _ _
          "[(''The Scientist'', BInt 1)]" "[(''alice'', BStr ''The Scientist'')]"])
      (simp_all add: started_store_def voted_store_def voted_debate_def started_debate_def
        created_debate_def Debate_init_def two_personalities_def key_refused_def bson_int_def)
  moreover have "get_debate voted_store 1 = Some (from_dict voted_debate)"
    by (simp add: get_debate_def voted_store_def)
  ultimately show ?thesis
    by (simp add: vote_on_debate_route_def vote_for_scientist_def started_store_seeded)
qed

lemma fresh_statistics:
  "wins the_scientist = 0" "total_debates the_scientist = 0"
  "total_arguments the_scientist = 0" "average_votes the_scientist = PyFloat (Finite 0)"
  "wins the_advocate = 0" "total_debates the_advocate = 0"
  "total_arguments the_advocate = 0" "average_votes the_advocate = PyFloat (Finite 0)"
  by (simp_all add: the_scientist_def the_advocate_def AIPersonality_init_def)

lemma step_judge:
  "step voted_store (Judge 1 (Some [(''winner'', ''The Scientist'')])) =
     (Judged (from_dict judged_debate) ''The Scientist'', judged_store)"
proof -
  have seeded: "DebateService_init voted_store = voted_store"
    by (simp add: service_init_seeded voted_store_def two_personalities_def)
  have d: "debates voted_store 1 = Some voted_debate" by (simp add: voted_store_def)
  have f: "status voted_debate = ''in_progress''"
    "participants voted_debate = [''The Scientist'', ''The Advocate'']"
    by (simp_all add: voted_debate_def started_debate_def created_debate_def)
  have j: "snd (judge_debate voted_store 1 ''The Scientist'' [] None) = judged_store"
    by (simp add: judge_debate_def update_one_def Let_def get_debate_def from_dict_fields f
        update_personality_stats_def voted_store_def two_personalities_def names_two
        judged_store_def judged_debate_def fresh_statistics and_then_def bson_int_def)
  have "judge_debate_route voted_store 1 (Some [(''winner'', ''The Scientist'')]) =
     (Judged (from_dict judged_debate) ''The Scientist'', judged_store)"
    using d j
    by (subst judge_route_accepts [of _ "''The Scientist''" voted_store 1 voted_debate])
      (simp_all add: f seeded sanitize_input_def judged_debate_def)
  then show ?thesis by simp
qed

lemma judge_route_already_judgedD:
  assumes "fst (judge_debate_route st did data) = Error 400 ''Debate already jugded.''"
  shows "is_judged st did"
proof (cases data)
  case None
  with assms show ?thesis by (simp add: judge_debate_route_def)
next
  case (Some body)
  show ?thesis
  proof (cases "map_of body ''winner''")
    case None
    with assms Some show ?thesis by (simp add: judge_debate_route_def Let_def split: if_splits)
  next
    case w: (Some w)
    show ?thesis
    proof (cases "debates st did")
      case None
      with assms Some w show ?thesis
        by (simp add: judge_debate_route_def Let_def debates_service_init get_debate_def
            split: if_splits)
    next
      case d: (Some d)
      let ?r = "judge_debate (DebateService_init st) did w
         (sanitize_input (case map_of body ''reasoning'' of None \<Rightarrow> [] | Some x \<Rightarrow> x))
         (map_of body ''judge_id'')"
      obtain ok st1 where j: "?r = (ok, st1)" by (cases ?r)
      from assms Some w d j show ?thesis
        by (cases ok; cases "get_debate st1 did")
          (simp_all add: judge_debate_route_def Let_def get_debate_service_init get_debate_Some
            from_dict_fields is_judged_def split: if_splits)
    qed
  qed
qed

lemma reachable_created_store: "reachable created_store"
  using reachable.after [OF reachable.initial [of "[the_scientist, the_advocate]" "\<lambda>key. True"],
      of "Create 1 vehicles_topic None"] step_create
  by (simp add: two_personalities_def)

lemma reachable_started_store: "reachable started_store"
  using reachable.after [OF reachable_created_store, of "Start no_model 0 1"] step_start
  by simp

lemma reachable_voted_store: "reachable voted_store"
  using reachable.after [OF reachable_started_store, of "Vote 1 (Some vote_for_scientist)"] step_vote
  by simp

lemma reachable_judged_store: "reachable judged_store"
  using reachable.after [OF reachable_voted_store, of "Judge 1 (Some [(''winner'', ''The Scientist'')])"]
    step_judge
  by simp

lemma start_steps_example:
  "start_step no_model 0 1 created_store Begin = (created_store, Checked)"
  "start_step no_model 0 1 created_store Checked =
     (claimed_store, Claimed (from_dict (created_debate\<lparr>status := ''in_progress''\<rparr>)))"
  "start_step no_model 0 1 claimed_store Checked =
     (claimed_store, Done (Error 500 ''Failed to start debate''))"
proof -
  have s: "status created_debate = ''created''" by (simp add: created_debate_def Debate_init_def)
  have d: "debates created_store 1 = Some created_debate" by (simp add: created_store_def)
  show "start_step no_model 0 1 created_store Begin = (created_store, Checked)"
    using d s by (simp add: created_store_seeded get_debate_def from_dict_fields)
  show "start_step no_model 0 1 created_store Checked =
     (claimed_store, Claimed (from_dict (created_debate\<lparr>status := ''in_progress''\<rparr>)))"
    using d s by (simp add: start_debate_eq claimed_store_def created_store_def)
  show "start_step no_model 0 1 claimed_store Checked =
     (claimed_store, Done (Error 500 ''Failed to start debate''))"
    by (simp add: start_debate_eq claimed_store_def)
qed

lemma claimed_then_failed:
  "run_two_starts no_model 0 0 1 [True, False, True, False] (created_store, Begin, Begin) =
     (claimed_store, Claimed (from_dict (created_debate\<lparr>status := ''in_progress''\<rparr>)),
      Done (Error 500 ''Failed to start debate''))"
  using start_steps_example by (simp del: start_step.simps)

lemma find_update_first:
  "find P xs = Some x \<Longrightarrow> \<exists>ys zs. xs = ys @ x # zs \<and> (\<forall>y\<in>set ys. \<not> P y) \<and> P x
     \<and> (\<forall>f. update_first P f xs = ys @ f x # zs)"
proof (induction xs)
  case Nil
  then show ?case by simp
next
  case (Cons a xs)
  show ?case
  proof (cases "P a")
    case True
    with Cons.prems have "a = x" by simp
    with True show ?thesis by (intro exI [of _ "[]"] exI [of _ xs]) simp
  next
    case False
    with Cons.prems have "find P xs = Some x" by simp
    from Cons.IH [OF this] obtain ys zs where
      "xs = ys @ x # zs" "\<forall>y\<in>set ys. \<not> P y" "P x" "\<forall>f. update_first P f xs = ys @ f x # zs"
      by blast
    with False show ?thesis
      by (intro exI [of _ "a # ys"] exI [of _ zs]) simp
  qed
qed

section \<open>Statistics change only with a judgement\<close>

text \<open>
  The judge route answers with a judgement or with an error; an error leaves the
  store as it was, up to the seeding of an empty registry. No other route changes
  the personalities beyond that seeding.
\<close>

lemma judge_route_cases:
  "(\<exists>u w. fst (judge_debate_route st did data) = Judged u w)
   \<or> (\<exists>c m. judge_debate_route st did data = (Error c m, st))
   \<or> (\<exists>c m. judge_debate_route st did data = (Error c m, DebateService_init st))"
proof (cases data)
  case None
  then show ?thesis by (simp add: judge_debate_route_def)
next
  case (Some body)
  show ?thesis
  proof (cases "map_of body ''winner''")
    case None
    with Some show ?thesis by (simp add: judge_debate_route_def Let_def)
  next
    case w: (Some w)
    show ?thesis
    proof (cases "w = [] \<or> body = []")
      case True
      with Some w show ?thesis by (auto simp: judge_debate_route_def Let_def)
    next
      case False
      show ?thesis
      proof (cases "debates st did")
        case None
        with Some w False show ?thesis
          by (simp add: judge_debate_route_def Let_def debates_service_init get_debate_def)
      next
        case d: (Some d)
        show ?thesis
        proof (cases "status d \<noteq> ''judged'' \<and> (status d = ''completed'' \<or> status d = ''in_progress'')
                        \<and> w \<in> set (participants d)")
          case True
          with judge_route_accepts [of body w st did d] w False d Some show ?thesis by simp
        next
          case no: False
          with Some w False d show ?thesis
            by (auto simp: judge_debate_route_def Let_def get_debate_service_init get_debate_Some
                from_dict_fields)
        qed
      qed
    qed
  qed
qed

lemma judged_debate_rejects:
  assumes "is_judged st did"
  shows "(\<exists>c m. judge_debate_route st did data = (Error c m, st))
   \<or> (\<exists>c m. judge_debate_route st did data = (Error c m, DebateService_init st))"
  using judge_route_cases [of st did data] is_judged_judge_route(2) [OF assms, of did data]
  by blast

lemma personalities_add_arguments: "personalities (add_arguments st did args) = personalities st"
  by (simp add: add_arguments_eq split: option.splits)

lemma personalities_service_init_idem:
  "personalities (AIService_init (DebateService_init st)) = personalities (DebateService_init st)"
  by (simp add: AIService_init_def DebateService_init_def PersonalityService_init_idem)

lemma personalities_start_route:
  "personalities (snd (start_debate_route env k st did)) = personalities (DebateService_init st)"
proof -
  let ?st0 = "AIService_init (DebateService_init st)"
  have 1: "personalities (snd (start_debate ?st0 did)) = personalities ?st0"
    by (simp add: start_debate_eq split: option.splits)
  have 2: "\<And>st1 d'. personalities (snd (start_generate_arguments env k st1 did d')) = personalities st1"
    by (simp add: start_generate_arguments_def personalities_add_arguments split: prod.splits)
  have "personalities (snd (start_debate_route env k st did)) = personalities ?st0"
    using 1 2
    by (auto simp: start_debate_route_def Let_def split: option.splits prod.splits)
      (metis snd_conv)
  then show ?thesis by (simp add: personalities_service_init_idem)
qed

lemma personalities_next_round_route:
  "personalities (snd (next_round_route env k st did)) = personalities (DebateService_init st)"
proof -
  let ?st0 = "AIService_init (DebateService_init st)"
  have 1: "personalities (snd (end_debate ?st0 did)) = personalities ?st0"
    by (simp add: snd_end_debate personalities_update_one)
  have 2: "\<And>d r. personalities (snd (next_round_generate_arguments env k ?st0 did d r)) = personalities ?st0"
    by (simp add: next_round_generate_arguments_def update_round_def update_one_def
        personalities_add_arguments split: prod.splits option.splits)
  have "personalities (snd (next_round_route env k st did)) = personalities ?st0"
    using 1 2
    by (auto simp: next_round_route_def Let_def split: option.splits prod.splits)
      (metis snd_conv)+
  then show ?thesis by (simp add: personalities_service_init_idem)
qed

lemma personalities_vote_route:
  "personalities (snd (vote_on_debate_route st did data)) = personalities st
   \<or> personalities (snd (vote_on_debate_route st did data)) = personalities (DebateService_init st)"
proof -
  have "\<And>st0 p v. personalities (snd (add_vote st0 did p v)) = personalities st0"
    subgoal for st0 p v
      using add_vote_cases [of st0 did p v] by auto
    done
  then show ?thesis
    by (auto simp: vote_on_debate_route_def Let_def split: option.splits prod.splits bool.splits)
      (metis snd_conv)+
qed

lemma statistics_change_only_when_judged:
  "personalities (snd (step st req)) = personalities st
   \<or> personalities (snd (step st req)) = personalities (DebateService_init st)
   \<or> (\<exists>did data u w. req = Judge did data \<and> fst (step st req) = Judged u w)"
proof (cases req)
  case Visit
  then show ?thesis by simp
next
  case (Create new_id t creator)
  then show ?thesis
    by (auto simp: Let_def create_debate_def split: sum.splits if_splits)
next
  case (Start env k did)
  then show ?thesis by (simp add: personalities_start_route)
next
  case (Advance env k did)
  then show ?thesis by (simp add: personalities_next_round_route)
next
  case (Judge did data)
  with judge_route_cases [of st did data] show ?thesis by auto
next
  case (Vote did data)
  with personalities_vote_route [of st did data] show ?thesis by simp
qed

section \<open>The generated text after post-processing\<close>

text \<open>
  What \<^verbatim>\<open>_generate_argument\<close> returns is either one of the fallback templates,
  each of at least 20 characters and ending with terminal punctuation, or the
  cleaned model output, which has between 20 and \<open>MAX_ARGUMENT_LENGTH\<close>
  characters and ends with terminal punctuation.
\<close>

lemma endswith_append:
  "endswith ys x \<Longrightarrow> endswith (xs @ ys) x"
  by (auto simp: endswith_def)

lemma ends_with_terminal_append:
  "ends_with_terminal ys \<Longrightarrow> ends_with_terminal (xs @ ys)"
  by (auto simp: ends_with_terminal_def endswith_append)

lemma ends_with_terminal_dot: "ends_with_terminal (xs @ ''.'')"
  by (rule ends_with_terminal_append) (simp add: ends_with_terminal_def endswith_def)

lemma clean_result_terminal:
  "clean_and_validate_argument a = [] \<or> ends_with_terminal (clean_and_validate_argument a)"
proof -
  have "\<And>s. (if s \<noteq> [] \<and> \<not> ends_with_terminal s then s @ ''.'' else s) = []
      \<or> ends_with_terminal (if s \<noteq> [] \<and> \<not> ends_with_terminal s then s @ ''.'' else s)"
    using ends_with_terminal_dot by auto
  then show ?thesis
    by (simp add: clean_and_validate_argument_def Let_def)
qed

lemma fallback_templates_contract:
  assumes "s \<in> set (fallback_templates nm t)"
  shows "20 \<le> length s \<and> ends_with_terminal s"
proof -
  have e: "\<And>xs. ends_with_terminal (xs @ ''.'')" "\<And>xs. ends_with_terminal (xs @ ''?'')"
    by (simp_all add: ends_with_terminal_def endswith_def)
  have "list_all (\<lambda>s. 20 \<le> length s \<and> ends_with_terminal s) (fallback_templates nm t)"
    unfolding fallback_templates_def
    by (simp add: ends_with_terminal_def endswith_def)
  with assms show ?thesis by (simp add: list_all_iff)
qed

lemma generate_argument_contract:
  assumes "generate_argument env k p t ctx r args = Inr (s, k')"
  shows "s \<in> set (fallback_templates (name p) t)
     \<or> (20 \<le> length s \<and> length s \<le> MAX_ARGUMENT_LENGTH \<and> ends_with_terminal s)"
proof (cases "generator env")
  case None
  with assms generate_argument_without_model [of env k p t ctx r args "(s, k')"]
  show ?thesis by simp
next
  case (Some g)
  let ?prompt = "build_enhanced_prompt p t ctx r args"
  show ?thesis
  proof (cases "g k ?prompt")
    case None
    with assms Some have "(s, k') = generate_fallback_argument env (k + 1) p t r"
      by (simp add: generate_argument_def split: if_splits)
    with generate_fallback_argument_in_templates [of env "k + 1" p t r] show ?thesis
      by (metis fst_conv)
  next
    case gen: (Some generated_text)
    let ?a = "clean_and_validate_argument (strip (drop (length ?prompt) generated_text))"
    show ?thesis
    proof (cases "length ?a < 20")
      case True
      with assms Some gen have "(s, k') = generate_fallback_argument env (k + 1) p t r"
        by (simp add: generate_argument_def Let_def split: if_splits)
      with generate_fallback_argument_in_templates [of env "k + 1" p t r] show ?thesis
        by (metis fst_conv)
    next
      case long: False
      then have "?a \<noteq> []" by auto
      with clean_result_terminal [of "strip (drop (length ?prompt) generated_text)"]
      have tm: "ends_with_terminal ?a" by simp
      show ?thesis
      proof (cases "length ?a > MAX_ARGUMENT_LENGTH")
        case True
        with assms Some gen long have s: "s = take (MAX_ARGUMENT_LENGTH - 3) ?a @ ''...''"
          by (simp add: generate_argument_def Let_def split: if_splits)
        have "ends_with_terminal s" unfolding s by (simp add: ends_with_terminal_def endswith_def)
        moreover have "length s = MAX_ARGUMENT_LENGTH"
          using True unfolding s by (simp add: MAX_ARGUMENT_LENGTH_def)
        ultimately show ?thesis by (simp add: MAX_ARGUMENT_LENGTH_def)
      next
        case False
        with assms Some gen long have "s = ?a"
          by (simp add: generate_argument_def Let_def split: if_splits)
        with False long tm show ?thesis by simp
      qed
    qed
  qed
qed

text \<open>
  The cleaning splits the text at a full stop followed by a space and at nothing
  else: a fragment after sentences that end with a full stop is dropped, a fragment
  after a question or an exclamation is kept and given a full stop.
\<close>

lemma fragment_dropped:
  "clean_and_validate_argument ''Really. Yes it is. This is an incomp''
     = ''Really. Yes it is.''"
  by code_simp

lemma fragment_kept:
  "clean_and_validate_argument ''Really? Yes it is! This is an incomp''
     = ''Really? Yes it is! This is an incomp.''"
  by code_simp

section \<open>The vote total\<close>

text \<open>
  Python's sum of the values of \<^verbatim>\<open>votes\<close> is the sum of its leaves when every
  value is a count, and raises otherwise; so in a reachable store the sum is the vote
  total or it raises.
\<close>

lemma sum_from_flat:
  "sum_from a (map snd doc)
   = (if list_all (\<lambda>v. \<exists>n. v = BInt n) (map snd doc)
      then Inr (a + leaf_sum (BDoc doc)) else Inl TypeError)"
proof (induction doc arbitrary: a)
  case Nil
  then show ?case by simp
next
  case (Cons kv doc)
  obtain k v where kv: "kv = (k, v)" by (cases kv)
  show ?case by (cases v) (simp_all add: kv Cons.IH)
qed

lemma sum_values_flat:
  "sum_values doc =
     (if list_all (\<lambda>v. \<exists>n. v = BInt n) (map snd doc)
      then Inr (leaf_sum (BDoc doc)) else Inl TypeError)"
  unfolding sum_values_def using sum_from_flat [of 0 doc] by simp

lemma vote_total_or_type_error:
  assumes "reachable st" and "debates st did = Some d"
  shows "sum_values (votes d) = Inr (total_votes d) \<or> sum_values (votes d) = Inl TypeError"
proof -
  from assms(1) have "store_ok st" by (rule reachable_store_ok)
  with assms(2) have "total_votes d = leaf_sum (BDoc (votes d))"
    by (simp add: store_ok_def debate_ok_def)
  then show ?thesis by (simp add: sum_values_flat)
qed

lemma step_vote_for_doctor:
  "step started_store (Vote 1 (Some vote_for_doctor)) =
     (Voted (from_dict dotted_vote_debate), started_store\<lparr>debates := [1 \<mapsto> dotted_vote_debate]\<rparr>)"
proof -
  have "add_vote started_store 1 ''Dr. Who'' ''carol''
      = (True, started_store\<lparr>debates := [1 \<mapsto> dotted_vote_debate]\<rparr>)"
    by (subst add_vote_accepts [of started_store 1 started_debate _ _
          "[(''Dr'', BDoc [('' Who'', BInt 1)])]" "[(''carol'', BStr ''Dr. Who'')]"])
      (simp_all add: started_store_def dotted_vote_debate_def started_debate_def
        created_debate_def Debate_init_def two_personalities_def key_refused_def bson_int_def)
  moreover have "get_debate (started_store\<lparr>debates := [1 \<mapsto> dotted_vote_debate]\<rparr>) 1
      = Some (from_dict dotted_vote_debate)"
    by (simp add: get_debate_def)
  ultimately show ?thesis
    by (simp add: vote_on_debate_route_def vote_for_doctor_def started_store_seeded)
qed

section \<open>Rounding to a double\<close>

text \<open>
  The binade of a value is at most the value, so a rounding moves a value by at
  most half a step of its binade; below the overflow threshold the result is finite.
\<close>

lemma overflow_threshold_code [code]:
  "overflow_threshold = 179769313486231580793728971405303415079934132710037826936173778980444968292764750946649017977587207096330286416692887910946555547851940402630657488671505820681908902000708383676273854845817711531764475730270069855571366959622842914819860834936475292719074168444365510704342711559699508093042880177904174497792"
  by (simp add: overflow_threshold_def)

lemma pow2_pos: "0 < pow2 e"
  by (simp add: pow2_def)

lemma pow2_mono: "a \<le> b \<Longrightarrow> pow2 a \<le> pow2 b"
proof -
  assume ab: "a \<le> b"
  have *: "pow2 e = 2 powi e" for e
    by (simp add: pow2_def power_int_def inverse_eq_divide power_one_over)
  show ?thesis unfolding * using ab by (intro power_int_increasing) simp_all
qed

lemma pow2_le_one: "e \<le> 0 \<Longrightarrow> pow2 e \<le> 1"
  using pow2_mono [of e 0] by (simp add: pow2_def)

lemma binade_le:
  assumes "x \<noteq> 0" shows "pow2 (binade x) \<le> \<bar>x\<bar>"
proof (cases "1 \<le> \<bar>x\<bar>")
  case True
  let ?n = "\<lfloor>\<bar>x\<bar>\<rfloor>"
  from True have n: "0 < ?n" by simp
  from bitlen_bounds [OF n] have b: "2 ^ nat (bitlen ?n - 1) \<le> ?n" by simp
  have "bitlen ?n \<ge> 1" using n by (simp add: bitlen_alt_def)
  then have "pow2 (binade x) = 2 ^ nat (bitlen ?n - 1)"
    using True by (simp add: binade_def pow2_def)
  also have "\<dots> = of_int (2 ^ nat (bitlen ?n - 1))" by simp
  also have "\<dots> \<le> of_int ?n" using b by (simp only: of_int_le_iff)
  also have "\<dots> \<le> \<bar>x\<bar>" by simp
  finally show ?thesis .
next
  case False
  let ?y = "1 / \<bar>x\<bar>"
  let ?n = "\<lceil>?y\<rceil> - 1"
  from False assms have y: "1 < ?y" by simp
  then have "1 < \<lceil>?y\<rceil>" by (simp add: less_ceiling_iff)
  then have n: "0 < ?n" by simp
  from bitlen_bounds [OF n] have "?n < 2 ^ nat (bitlen ?n)" by simp
  then have "\<lceil>?y\<rceil> \<le> 2 ^ nat (bitlen ?n)" by simp
  then have "?y \<le> of_int (2 ^ nat (bitlen ?n))" by (simp only: ceiling_le_iff)
  then have le: "?y \<le> 2 ^ nat (bitlen ?n)" by simp
  have pos: "0 < \<bar>x\<bar>" using assms by simp
  have "1 / 2 ^ nat (bitlen ?n) \<le> \<bar>x\<bar>"
    using le pos by (simp add: field_simps)
  moreover have "pow2 (binade x) = 1 / 2 ^ nat (bitlen ?n)"
    using False bitlen_nonneg [of ?n] by (auto simp: binade_def pow2_def)
  ultimately show ?thesis by simp
qed

lemma round_half_even_close: "\<bar>of_int (round_half_even y) - y\<bar> \<le> 1 / 2"
proof -
  define f where "f = \<lfloor>y\<rfloor>"
  define r where "r = y - of_int f"
  have r: "0 \<le> r" "r < 1" unfolding r_def f_def by linarith+
  have y: "y = of_int f + r" unfolding r_def by simp
  have "round_half_even y = (if r < 1/2 then f else if 1/2 < r then f + 1
                              else if even f then f else f + 1)"
    unfolding round_half_even_def Let_def f_def [symmetric] r_def [symmetric] ..
  then consider "round_half_even y = f" "r \<le> 1/2" | "round_half_even y = f + 1" "1/2 \<le> r"
    by (cases "r < 1/2"; cases "1/2 < r"; cases "even f") auto
  then show ?thesis
  proof cases
    case 1
    then show ?thesis using r unfolding y by simp
  next
    case 2
    then show ?thesis using r unfolding y by simp
  qed
qed

lemma round_to_double_close:
  "\<bar>round_to_double x - x\<bar> \<le> pow2 (max (binade x - 52) (- 1074)) / 2"
proof (cases "x = 0")
  case True
  then show ?thesis using pow2_pos [of "max (binade x - 52) (- 1074)"] by (simp add: round_to_double_def)
next
  case False
  let ?q = "pow2 (max (binade x - 52) (- 1074))"
  have q: "0 < ?q" by (rule pow2_pos)
  have "round_to_double x - x = (of_int (round_half_even (x / ?q)) - x / ?q) * ?q"
    using False q by (simp add: round_to_double_def Let_def field_simps)
  then have "\<bar>round_to_double x - x\<bar> = \<bar>of_int (round_half_even (x / ?q)) - x / ?q\<bar> * ?q"
    using q by (simp add: abs_mult)
  also have "\<dots> \<le> (1 / 2) * ?q"
    using round_half_even_close [of "x / ?q"] q by (intro mult_right_mono) simp_all
  finally show ?thesis by simp
qed

lemma quantum_le: "pow2 (max (binade x - 52) (- 1074)) \<le> \<bar>x\<bar> + 1"
proof (cases "x = 0")
  case True
  have "binade x \<le> 0" using True bitlen_nonneg [of "- 1"] by (simp add: binade_def)
  then have "max (binade x - 52) (- 1074) \<le> 0" by simp
  then have "pow2 (max (binade x - 52) (- 1074)) \<le> 1" by (rule pow2_le_one)
  then show ?thesis by simp
next
  case False
  show ?thesis
  proof (cases "binade x - 52 \<le> - 1074")
    case True
    then have "max (binade x - 52) (- 1074) = - 1074" by simp
    then show ?thesis using pow2_le_one [of "- 1074"] by simp
  next
    case no: False
    then have "max (binade x - 52) (- 1074) = binade x - 52" by simp
    moreover have "pow2 (binade x - 52) \<le> pow2 (binade x)" by (rule pow2_mono) simp
    ultimately show ?thesis using binade_le [OF False] by simp
  qed
qed

lemma round_to_double_bound: "\<bar>round_to_double x\<bar> \<le> 2 * \<bar>x\<bar> + 1"
proof -
  let ?q = "pow2 (max (binade x - 52) (- 1074))"
  have "\<bar>round_to_double x - x\<bar> \<le> ?q / 2" by (rule round_to_double_close)
  moreover have "?q \<le> \<bar>x\<bar> + 1" by (rule quantum_le)
  ultimately show ?thesis by linarith
qed

lemma fl_finite: "\<bar>x\<bar> < overflow_threshold \<Longrightarrow> fl x = Finite (round_to_double x)"
  by (auto simp: fl_def)

lemma binade_le_7:
  assumes "\<bar>x\<bar> \<le> 128" shows "binade x \<le> 7"
proof (cases "x = 0")
  case True
  then show ?thesis using bitlen_nonneg [of "- 1"] by (simp add: binade_def)
next
  case False
  show ?thesis
  proof (rule ccontr)
    assume "\<not> binade x \<le> 7"
    then have "8 \<le> binade x" by simp
    then have "pow2 8 \<le> pow2 (binade x)" by (rule pow2_mono)
    with binade_le [OF False] assms show False by (simp add: pow2_def)
  qed
qed

lemma round_to_double_close_small:
  assumes "\<bar>x\<bar> \<le> 128" shows "\<bar>round_to_double x - x\<bar> \<le> 1 / 2 ^ 46"
proof -
  let ?q = "pow2 (max (binade x - 52) (- 1074))"
  have "max (binade x - 52) (- 1074) \<le> - 45" using binade_le_7 [OF assms] by simp
  then have "?q \<le> pow2 (- 45)" by (rule pow2_mono)
  then have "?q / 2 \<le> 1 / 2 ^ 46" by (simp add: pow2_def)
  with round_to_double_close [of x] show ?thesis by linarith
qed

lemma fl_small: "\<bar>x\<bar> \<le> 1000000000000000000000000 \<Longrightarrow> fl x = Finite (round_to_double x)"
proof -
  have "1000000000000000000000000 < overflow_threshold" by (simp add: overflow_threshold_def)
  then show "\<bar>x\<bar> \<le> 1000000000000000000000000 \<Longrightarrow> fl x = Finite (round_to_double x)"
    by (intro fl_finite) linarith
qed

lemma round_two_decimals_close:
  "\<bar>of_int (round_half_even (b * 100)) / 100 - b\<bar> \<le> 1 / 200"
proof -
  define k :: rat where "k = of_int (round_half_even (b * 100))"
  have "\<bar>k - b * 100\<bar> \<le> 1 / 2"
    unfolding k_def by (rule round_half_even_close)
  then have "- (1 / 2) \<le> k - b * 100" "k - b * 100 \<le> 1 / 2" by linarith+
  then have "- (1 / 200) \<le> k / 100 - b" "k / 100 - b \<le> 1 / 200" by linarith+
  then have "\<bar>k / 100 - b\<bar> \<le> 1 / 200" by linarith
  then show ?thesis unfolding k_def .
qed

lemma win_rate_bson:
  assumes "bson_int w" "bson_int t" "t \<noteq> 0"
  shows "\<exists>q. calculate_win_rate w t = Inr (Finite q)"
proof -
  let ?x = "of_int w / of_int t :: rat"
  let ?a = "round_to_double ?x"
  let ?b = "round_to_double (?a * 100)"
  let ?r = "of_int (round_half_even (?b * 100)) / 100 :: rat"
  have w: "\<bar>of_int w :: rat\<bar> \<le> 10000000000000000000"
  proof -
    have "\<bar>w\<bar> \<le> 10000000000000000000" using assms(1) by (simp add: bson_int_def abs_le_iff)
    then have "of_int \<bar>w\<bar> \<le> (of_int 10000000000000000000 :: rat)" by (simp only: of_int_le_iff)
    then show ?thesis by simp
  qed
  have t: "1 \<le> \<bar>of_int t :: rat\<bar>"
  proof -
    have "1 \<le> \<bar>t\<bar>" using assms(3) by simp
    then have "(of_int 1 :: rat) \<le> of_int \<bar>t\<bar>" by (simp only: of_int_le_iff)
    then show ?thesis by simp
  qed
  have "\<bar>?x\<bar> = \<bar>of_int w\<bar> / \<bar>of_int t\<bar>" by (simp add: abs_divide)
  also have "\<dots> \<le> \<bar>of_int w\<bar> / 1" using t by (intro divide_left_mono) simp_all
  finally have x: "\<bar>?x\<bar> \<le> 10000000000000000000" using w by simp
  then have 1: "fl ?x = Finite ?a" by (intro fl_small) linarith
  have a: "\<bar>?a\<bar> \<le> 100000000000000000000" using round_to_double_bound [of ?x] x by linarith
  have "\<bar>?a * 100\<bar> = \<bar>?a\<bar> * 100" by (simp add: abs_mult)
  with a have a100: "\<bar>?a * 100\<bar> \<le> 10000000000000000000000" by linarith
  then have 2: "fl (?a * 100) = Finite ?b" by (intro fl_small) linarith
  have b: "\<bar>?b\<bar> \<le> 100000000000000000000000"
    using round_to_double_bound [of "?a * 100"] a100 by linarith
  have "\<bar>?r - ?b\<bar> \<le> 1 / 200" by (rule round_two_decimals_close)
  with b have "\<bar>?r\<bar> \<le> 1000000000000000000000000" by linarith
  then have 3: "fl ?r = Finite (round_to_double ?r)" by (rule fl_small)
  show ?thesis
    using assms(3) 1 2 3 by (simp add: calculate_win_rate_def int_truediv_def float_round2_def)
qed

lemma win_rate_close:
  assumes "0 \<le> w" "w \<le> t" "t \<noteq> 0"
  shows "\<exists>q. calculate_win_rate w t = Inr (Finite q)
           \<and> \<bar>q - 100 * of_int w / of_int t\<bar> \<le> 51 / 10000"
proof -
  let ?x = "of_int w / of_int t :: rat"
  let ?a = "round_to_double ?x"
  let ?b = "round_to_double (?a * 100)"
  let ?r = "of_int (round_half_even (?b * 100)) / 100 :: rat"
  let ?c = "round_to_double ?r"
  have e: "(1 :: rat) / 2 ^ 46 \<le> 1 / 10000000000000" by simp
  have t: "0 < t" using assms by simp
  then have "0 \<le> ?x" "?x \<le> 1" using assms(1,2) by simp_all
  then have x: "\<bar>?x\<bar> \<le> 1" by simp
  then have 1: "fl ?x = Finite ?a" by (intro fl_small) linarith
  have "\<bar>?a - ?x\<bar> \<le> 1 / 2 ^ 46" using x by (intro round_to_double_close_small) linarith
  with e have ea: "\<bar>?a - ?x\<bar> \<le> 1 / 10000000000000" by linarith
  have "\<bar>?a * 100 - 100 * ?x\<bar> = \<bar>?a - ?x\<bar> * 100"
    by (simp add: abs_if)
  with ea have ea100: "\<bar>?a * 100 - 100 * ?x\<bar> \<le> 1 / 100000000000" by linarith
  have "\<bar>100 * ?x\<bar> = \<bar>?x\<bar> * 100" by (simp add: abs_mult)
  with x have "\<bar>100 * ?x\<bar> \<le> 100" by linarith
  with ea100 have a100: "\<bar>?a * 100\<bar> \<le> 101" by linarith
  then have 2: "fl (?a * 100) = Finite ?b" by (intro fl_small) linarith
  have "\<bar>?b - ?a * 100\<bar> \<le> 1 / 2 ^ 46" using a100 by (intro round_to_double_close_small) linarith
  with e have eb: "\<bar>?b - ?a * 100\<bar> \<le> 1 / 10000000000000" by linarith
  with a100 have b: "\<bar>?b\<bar> \<le> 102" by linarith
  have er: "\<bar>?r - ?b\<bar> \<le> 1 / 200" by (rule round_two_decimals_close)
  with b have r: "\<bar>?r\<bar> \<le> 103" by linarith
  then have 3: "fl ?r = Finite ?c" by (intro fl_small) linarith
  have "\<bar>?c - ?r\<bar> \<le> 1 / 2 ^ 46" using r by (intro round_to_double_close_small) linarith
  with e have ec: "\<bar>?c - ?r\<bar> \<le> 1 / 10000000000000" by linarith
  have "\<bar>?c - 100 * ?x\<bar> \<le> 51 / 10000"
    using ec er eb ea100 by linarith
  then have "\<bar>?c - 100 * of_int w / of_int t\<bar> \<le> 51 / 10000" by simp
  moreover have "calculate_win_rate w t = Inr (Finite ?c)"
    using assms(3) 1 2 3 by (simp add: calculate_win_rate_def int_truediv_def float_round2_def)
  ultimately show ?thesis by blast
qed

section \<open>Statistics of a personality\<close>

lemma update_personality_stats_found:
  assumes "find (\<lambda>q. name q = nm) (personalities st) = Some p"
  shows "update_personality_stats st nm won v =
     (case and_then
             (if total_arguments p + 1 > 1
              then running_average (average_votes p) (total_arguments p) v
              else Inr (PyInt v)) py_round2 of
        Inl e \<Rightarrow> st
      | Inr rounded \<Rightarrow>
          if bson_int (total_debates p + 1) \<and> bson_int (total_arguments p + 1)
             \<and> bson_int (wins p + (if won then 1 else 0)) \<and> bson_num rounded
          then st\<lparr>personalities :=
                 update_first (\<lambda>q. name q = nm)
                   (\<lambda>q. q\<lparr>total_debates := total_debates p + 1,
                           total_arguments := total_arguments p + 1,
                           wins := wins p + (if won then 1 else 0),
                           average_votes := rounded\<rparr>)
                   (personalities st)\<rparr>
          else st)"
  using assms by (simp add: update_personality_stats_def Let_def running_average_def)

lemma update_personality_stats_written:
  assumes "find (\<lambda>q. name q = nm) (personalities st) = Some p"
    and "and_then (if total_arguments p + 1 > 1
              then running_average (average_votes p) (total_arguments p) v
              else Inr (PyInt v)) py_round2 = Inr a"
    and "bson_int (total_debates p + 1)" "bson_int (total_arguments p + 1)"
      "bson_int (wins p + (if won then 1 else 0))" "bson_num a"
  shows "\<exists>ys zs. personalities st = ys @ p # zs \<and> list_all (\<lambda>y. name y \<noteq> nm) ys
           \<and> personalities (update_personality_stats st nm won v)
               = ys @ p\<lparr>total_debates := total_debates p + 1,
                         total_arguments := total_arguments p + 1,
                         wins := wins p + (if won then 1 else 0),
                         average_votes := a\<rparr> # zs
           \<and> find (\<lambda>q. name q = nm) (personalities (update_personality_stats st nm won v))
               = Some (p\<lparr>total_debates := total_debates p + 1,
                         total_arguments := total_arguments p + 1,
                         wins := wins p + (if won then 1 else 0),
                         average_votes := a\<rparr>)"
proof -
  let ?p' = "p\<lparr>total_debates := total_debates p + 1,
                         total_arguments := total_arguments p + 1,
                         wins := wins p + (if won then 1 else 0),
                         average_votes := a\<rparr>"
  from find_update_first [OF assms(1)] obtain ys zs where
    *: "personalities st = ys @ p # zs" "\<forall>y\<in>set ys. name y \<noteq> nm" "name p = nm"
    and upd: "\<forall>f. update_first (\<lambda>q. name q = nm) f (personalities st) = ys @ f p # zs"
    by blast
  have 1: "personalities (update_personality_stats st nm won v) = ys @ ?p' # zs"
    unfolding update_personality_stats_found [OF assms(1)] using assms(2-) upd by simp
  have 2: "find (\<lambda>q. name q = nm) (ys @ ?p' # zs) = Some ?p'"
    using *(2,3) by (induction ys) simp_all
  show ?thesis
    using *(1,2) 1 2 by (intro exI [of _ ys] exI [of _ zs]) (simp add: list_all_iff)
qed

lemma update_stats_unrounded:
  assumes "1 \<le> total_arguments p"
  shows "update_stats p won v =
     and_then (running_average (average_votes p) (total_arguments p) v)
       (\<lambda>a. Inr (p\<lparr>total_debates := total_debates p + 1,
                    total_arguments := total_arguments p + 1,
                    wins := wins p + (if won then 1 else 0),
                    average_votes := a\<rparr>))"
  using assms
  by (simp add: update_stats_def Let_def running_average_def and_then_def split: sum.splits)


lemma veteran_fields:
  "name veteran = ''The Scientist''" "average_votes veteran = PyFloat (Finite 0)"
  "total_arguments veteran = 2" "total_debates veteran = 2" "wins veteran = 0"
  by (simp_all add: veteran_def fresh_statistics names_two)

lemma and_then_simps: "and_then (Inr x) f = f x" "and_then (Inl e) f = Inl e"
  by (simp_all add: and_then_def)

lemma third_rounded:
  "running_average (PyFloat (Finite 0)) 2 1 = Inr (PyFloat (fl (1 / 3)))"
  "float_round2 (fl (1 / 3)) = Inr (fl (33 / 100))"
  "fl (33 / 100) \<noteq> fl (1 / 3)"
  by code_simp+

lemma huge_vote_overflows:
  "running_average (PyFloat (Finite 0)) 2 huge_int = Inl OverflowError"
  by code_simp

lemma small_ints_encodable: "bson_int 0" "bson_int 1" "bson_int 2" "bson_int 3"
  by (simp_all add: bson_int_def)

lemma win_rate_examples:
  "and_then (int_truediv 23 160) (\<lambda>q. float_round2 (float_mul q (Finite 100))) = Inr (fl (1437 / 100))"
  "and_then (int_truediv 1 3) (\<lambda>q. float_round2 (float_mul q (Finite 100))) = Inr (fl (3333 / 100))"
  "fl (1437 / 100) \<noteq> fl (1438 / 100)"
  "of_int (round_half_even (23 / 160 * 100 * 100)) / 100 = (1438 / 100 :: rat)"
  by code_simp+

lemma huge_quotient_overflows: "int_truediv huge_int 1 = Inl OverflowError"
  by code_simp

lemma win_rate_formula:
  "t \<noteq> 0 \<Longrightarrow> calculate_win_rate w t =
     and_then (int_truediv w t) (\<lambda>q. float_round2 (float_mul q (Finite 100)))"
  by (simp add: calculate_win_rate_def and_then_def)


section \<open>The claims\<close>

subsection \<open>C1\<close>

text \<open>
  C1 says that a vote from a voter already recorded in the debate's
  \<^verbatim>\<open>voter_records\<close> is rejected and changes nothing. \<^verbatim>\<open>add_vote\<close> looks for the
  voter in the \<^verbatim>\<open>voter_records\<close> attribute of the \<^verbatim>\<open>Debate\<close> object, which
  \<^verbatim>\<open>from_dict\<close> never sets, so the check finds nobody. In the example run alice has
  voted for The Scientist and the store records it; her second vote is accepted,
  returns \<open>True\<close> and is counted.
\<close>

theorem repeat_vote_is_counted:
  "debates voted_store 1 = Some voted_debate
   \<and> voter_records voted_debate = Some [(''alice'', BStr ''The Scientist'')]
   \<and> add_vote voted_store 1 ''The Scientist'' ''alice''
       = (True, voted_store\<lparr>debates := [1 \<mapsto> voted_twice_debate]\<rparr>)
   \<and> votes voted_twice_debate = [(''The Scientist'', BInt 2)]
   \<and> total_votes voted_twice_debate = 2"
proof -
  have d: "debates voted_store 1 = Some voted_debate" by (simp add: voted_store_def)
  have "add_vote voted_store 1 ''The Scientist'' ''alice''
       = (True, voted_store\<lparr>debates := [1 \<mapsto> voted_twice_debate]\<rparr>)"
    by (subst add_vote_accepts [OF d, of _ _ "[(''The Scientist'', BInt 2)]"
          "[(''alice'', BStr ''The Scientist'')]"])
      (simp_all add: voted_store_def voted_debate_def voted_twice_debate_def
        two_personalities_def key_refused_def bson_int_def)
  with d show ?thesis
    by (simp add: voted_debate_def voted_twice_debate_def)
qed

subsection \<open>C2\<close>

text \<open>
  C2: a judge request for a debate that is already judged is answered with
  \<^verbatim>\<open>Debate already jugded.\<close>, an answer given for judged debates only, and
  whatever its body it is answered with an error. The debates, and with them the
  winner, the decision and the judge, are as before, and so are the personalities
  once seeded, so no statistics are updated. In a run from such a store no request
  is answered with a judgement of that debate, and in any run at most one is; and
  a request changes the personalities, beyond the seeding of an empty registry,
  only when it is a judge request answered with a judgement.
\<close>

theorem judge_twice_rejected:
  assumes "debates st did = Some d"
    and "status d = ''judged''"
    and "map_of body ''winner'' = Some w"
    and "w \<noteq> []"
  shows "judge_debate_route st did (Some body) =
           (Error 400 ''Debate already jugded.'', DebateService_init st)
         \<and> (\<forall>data. (\<exists>c m. judge_debate_route st did data = (Error c m, st))
                  \<or> (\<exists>c m. judge_debate_route st did data = (Error c m, DebateService_init st)))
         \<and> debates (DebateService_init st) = debates st
         \<and> (personalities st \<noteq> [] \<longrightarrow> DebateService_init st = st)
         \<and> (\<forall>st' data. fst (judge_debate_route st' did data)
                          = Error 400 ''Debate already jugded.'' \<longrightarrow> is_judged st' did)
         \<and> judged_transitions did reqs (fst (run st reqs)) = 0
         \<and> (\<forall>st'. judged_transitions did reqs (fst (run st' reqs)) \<le> 1)
         \<and> (\<forall>st' req. personalities (snd (step st' req)) = personalities st'
                \<or> personalities (snd (step st' req)) = personalities (DebateService_init st')
                \<or> (\<exists>did' data u w'. req = Judge did' data \<and> fst (step st' req) = Judged u w'))"
proof -
  from assms(3) have "body \<noteq> []" by auto
  with assms have 1: "judge_debate_route st did (Some body) =
           (Error 400 ''Debate already jugded.'', DebateService_init st)"
    by (simp add: judge_debate_route_def Let_def get_debate_service_init get_debate_Some
        from_dict_fields)
  have j: "is_judged st did" using assms(1,2) by (simp add: is_judged_def)
  have 2: "\<forall>data. (\<exists>c m. judge_debate_route st did data = (Error c m, st))
                  \<or> (\<exists>c m. judge_debate_route st did data = (Error c m, DebateService_init st))"
    by (intro allI judged_debate_rejects j)
  have 3: "debates (DebateService_init st) = debates st" by (rule debates_service_init)
  have 4: "personalities st \<noteq> [] \<longrightarrow> DebateService_init st = st"
    by (simp add: service_init_seeded)
  have 5: "\<forall>st' data. fst (judge_debate_route st' did data)
                          = Error 400 ''Debate already jugded.'' \<longrightarrow> is_judged st' did"
    by (simp add: judge_route_already_judgedD)
  from j have 6: "judged_transitions did reqs (fst (run st reqs)) = 0"
    by (rule no_judged_transition_after_judged)
  have 7: "\<forall>st'. judged_transitions did reqs (fst (run st' reqs)) \<le> 1"
    by (intro allI at_most_one_judged_transition)
  have 8: "\<forall>st' req. personalities (snd (step st' req)) = personalities st'
                \<or> personalities (snd (step st' req)) = personalities (DebateService_init st')
                \<or> (\<exists>did' data u w'. req = Judge did' data \<and> fst (step st' req) = Judged u w')"
    by (intro allI statistics_change_only_when_judged)
  show ?thesis by (intro conjI; fact)
qed

text \<open>
  In the example run, a second judge request for the judged debate, naming The
  Advocate, is rejected and leaves the store as it was.
\<close>

theorem judge_twice_rejected_witness:
  "judge_debate_route judged_store 1 (Some [(''winner'', ''The Advocate'')]) =
     (Error 400 ''Debate already jugded.'', judged_store)
   \<and> judged_transitions 1
        [Judge 1 (Some [(''winner'', ''The Advocate'')]), Judge 1 (Some [(''winner'', ''The Scientist'')])]
        (fst (run judged_store
           [Judge 1 (Some [(''winner'', ''The Advocate'')]), Judge 1 (Some [(''winner'', ''The Scientist'')])])) = 0"
proof -
  have d: "debates judged_store 1 = Some judged_debate" by (simp add: judged_store_def)
  have s: "status judged_debate = ''judged''" by (simp add: judged_debate_def)
  have w: "map_of [(''winner'', ''The Advocate'')] ''winner'' = Some ''The Advocate''" by simp
  have n: "''The Advocate'' \<noteq> []" by simp
  have p: "personalities judged_store \<noteq> []" by (simp add: judged_store_def)
  from judge_twice_rejected [OF d s w n,
      of "[Judge 1 (Some [(''winner'', ''The Advocate'')]), Judge 1 (Some [(''winner'', ''The Scientist'')])]"]
    p
  show ?thesis by (simp del: run.simps step.simps)
qed

subsection \<open>C3\<close>

text \<open>
  C3: for a debate of a reachable store, a round-generation call, by the
  next-round route for a debate in progress that has rounds left or by the start
  route for a created debate, appends as many arguments as the debate has
  participants, one for each participant, each with the round asked for. The content
  of each is a fallback template of its personality, unless a call of the loaded
  generator returned a text that, cleaned, has at least 20 characters, and then it is
  that text, cut at the maximum length. So where no model is loaded, the generator's
  call raises, the cleaned text is too short or \<^verbatim>\<open>_generate_argument\<close> raises,
  the argument appended is a fallback.
\<close>

theorem round_appends_one_argument_per_participant:
  assumes "reachable st" and "debates st did = Some d"
  shows
    "(status d = ''in_progress'' \<and> current_round d + 1 \<le> max_rounds d \<longrightarrow>
        (\<exists>new. next_round_route env k st did =
            (Advanced (current_round d + 1)
               (from_dict (d\<lparr>arguments := arguments d @ new,
                              current_round := current_round d + 1\<rparr>)) new,
             st\<lparr>debates := (debates st)(did \<mapsto>
                   d\<lparr>arguments := arguments d @ new, current_round := current_round d + 1\<rparr>)\<rparr>)
          \<and> length new = length (participants d)
          \<and> mset (map personality_id new) = mset (participants d)
          \<and> list_all (\<lambda>a. round_number a = current_round d + 1) new
          \<and> (generator env = None \<longrightarrow>
               list_all (\<lambda>a. content a \<in> set (fallback_templates (personality_id a) (topic d))) new)
          \<and> list_all (fallback_or_generated env (topic d)
                 (build_context (from_dict d) (current_round d + 1)) (current_round d + 1)) new))
   \<and> (status d = ''created'' \<longrightarrow>
        (\<exists>new. start_debate_route env k st did =
            (Started (from_dict (d\<lparr>status := ''in_progress''\<rparr>)) new,
             st\<lparr>debates := (debates st)(did \<mapsto>
                   d\<lparr>status := ''in_progress'', arguments := arguments d @ new\<rparr>)\<rparr>)
          \<and> length new = length (participants d)
          \<and> mset (map personality_id new) = mset (participants d)
          \<and> list_all (\<lambda>a. round_number a = 1) new
          \<and> (generator env = None \<longrightarrow>
               list_all (\<lambda>a. content a \<in> set (fallback_templates (personality_id a) (topic d))) new)
          \<and> list_all (fallback_or_generated env (topic d)
                 (build_context (from_dict (d\<lparr>status := ''in_progress''\<rparr>)) 1) 1) new))"
proof -
  from assms(1) have ok: "store_ok st" by (rule reachable_store_ok)
  note seeded = store_ok_seeded [OF ok assms(2)]
  have advance: "\<exists>new. next_round_route env k st did =
            (Advanced (current_round d + 1)
               (from_dict (d\<lparr>arguments := arguments d @ new,
                              current_round := current_round d + 1\<rparr>)) new,
             st\<lparr>debates := (debates st)(did \<mapsto>
                   d\<lparr>arguments := arguments d @ new, current_round := current_round d + 1\<rparr>)\<rparr>)
          \<and> length new = length (participants d)
          \<and> mset (map personality_id new) = mset (participants d)
          \<and> list_all (\<lambda>a. round_number a = current_round d + 1) new
          \<and> (generator env = None \<longrightarrow>
               list_all (\<lambda>a. content a \<in> set (fallback_templates (personality_id a) (topic d))) new)
          \<and> list_all (fallback_or_generated env (topic d)
                 (build_context (from_dict d) (current_round d + 1)) (current_round d + 1)) new"
    if "status d = ''in_progress''" and "current_round d + 1 \<le> max_rounds d"
  proof -
    obtain new where new: "fst (generate_debate_round env k st (from_dict d) (current_round d + 1)) = new"
      and ms: "mset (map personality_id new) = mset (map name (personalities st))"
      and len: "length new = length (personalities st)"
      and rn: "list_all (\<lambda>a. round_number a = current_round d + 1) new"
      and fb: "generator env = None \<longrightarrow>
          list_all (\<lambda>a. content a \<in> set (fallback_templates (personality_id a) (topic (from_dict d)))) new"
      and fg: "list_all (fallback_or_generated env (topic (from_dict d))
                (build_context (from_dict d) (current_round d + 1)) (current_round d + 1)) new"
      by (rule generate_debate_round_roster)
    note route = next_round_route_generates [OF seeded(1) assms(2) that new]
    have "length new = length (participants d)" using len seeded(3) by simp
    moreover have "mset (map personality_id new) = mset (participants d)"
      using ms seeded(3) by (simp only:)
    moreover have "generator env = None \<longrightarrow>
          list_all (\<lambda>a. content a \<in> set (fallback_templates (personality_id a) (topic d))) new"
      using fb by (simp only: from_dict_fields)
    moreover have "list_all (fallback_or_generated env (topic d)
                 (build_context (from_dict d) (current_round d + 1)) (current_round d + 1)) new"
      using fg by (simp only: from_dict_fields)
    ultimately show ?thesis using route rn by (intro exI [of _ new] conjI)
  qed
  have start: "\<exists>new. start_debate_route env k st did =
            (Started (from_dict (d\<lparr>status := ''in_progress''\<rparr>)) new,
             st\<lparr>debates := (debates st)(did \<mapsto>
                   d\<lparr>status := ''in_progress'', arguments := arguments d @ new\<rparr>)\<rparr>)
          \<and> length new = length (participants d)
          \<and> mset (map personality_id new) = mset (participants d)
          \<and> list_all (\<lambda>a. round_number a = 1) new
          \<and> (generator env = None \<longrightarrow>
               list_all (\<lambda>a. content a \<in> set (fallback_templates (personality_id a) (topic d))) new)
          \<and> list_all (fallback_or_generated env (topic d)
                 (build_context (from_dict (d\<lparr>status := ''in_progress''\<rparr>)) 1) 1) new"
    if "status d = ''created''"
  proof -
    let ?st1 = "st\<lparr>debates := (debates st)(did \<mapsto> d\<lparr>status := ''in_progress''\<rparr>)\<rparr>"
    let ?d1 = "from_dict (d\<lparr>status := ''in_progress''\<rparr>)"
    obtain new where new: "fst (generate_debate_round env k ?st1 ?d1 1) = new"
      and ms: "mset (map personality_id new) = mset (map name (personalities ?st1))"
      and len: "length new = length (personalities ?st1)"
      and rn: "list_all (\<lambda>a. round_number a = 1) new"
      and fb: "generator env = None \<longrightarrow>
          list_all (\<lambda>a. content a \<in> set (fallback_templates (personality_id a) (topic ?d1))) new"
      and fg: "list_all (fallback_or_generated env (topic ?d1) (build_context ?d1 1) 1) new"
      by (rule generate_debate_round_roster)
    note route = start_route_generates [OF seeded(1) assms(2) that new]
    have "length new = length (participants d)" using len seeded(3) by simp
    moreover have "mset (map personality_id new) = mset (participants d)"
      using ms seeded(3) by simp
    moreover have "generator env = None \<longrightarrow>
          list_all (\<lambda>a. content a \<in> set (fallback_templates (personality_id a) (topic d))) new"
      using fb by (simp add: from_dict_fields)
    moreover have "list_all (fallback_or_generated env (topic d)
                 (build_context (from_dict (d\<lparr>status := ''in_progress''\<rparr>)) 1) 1) new"
      using fg by (simp add: from_dict_fields)
    ultimately show ?thesis using route rn by (intro exI [of _ new] conjI)
  qed
  from advance start show ?thesis by blast
qed

text \<open>
  The created debate of the example run gets its first round of two arguments, the
  started debate its second. With a model loaded whose calls raise or return too
  little, the first round is two fallback arguments all the same.
\<close>

theorem round_appends_one_argument_per_participant_witness:
  "(\<exists>new. start_debate_route no_model 0 created_store 1 =
            (Started (from_dict (created_debate\<lparr>status := ''in_progress''\<rparr>)) new,
             created_store\<lparr>debates := (debates created_store)(1 \<mapsto>
                   created_debate\<lparr>status := ''in_progress'',
                                    arguments := arguments created_debate @ new\<rparr>)\<rparr>)
          \<and> length new = 2
          \<and> mset (map personality_id new) = mset [''The Scientist'', ''The Advocate'']
          \<and> list_all (\<lambda>a. round_number a = 1) new
          \<and> list_all (\<lambda>a. content a \<in> set (fallback_templates (personality_id a) vehicles_topic)) new)
   \<and> (\<exists>new. next_round_route no_model 0 started_store 1 =
            (Advanced (current_round started_debate + 1)
               (from_dict (started_debate\<lparr>arguments := arguments started_debate @ new,
                              current_round := current_round started_debate + 1\<rparr>)) new,
             started_store\<lparr>debates := (debates started_store)(1 \<mapsto>
                   started_debate\<lparr>arguments := arguments started_debate @ new,
                                    current_round := current_round started_debate + 1\<rparr>)\<rparr>)
          \<and> length new = 2
          \<and> mset (map personality_id new) = mset [''The Scientist'', ''The Advocate'']
          \<and> list_all (\<lambda>a. round_number a = 2) new
          \<and> list_all (\<lambda>a. content a \<in> set (fallback_templates (personality_id a) vehicles_topic)) new)
   \<and> (\<exists>new. start_debate_route broken_model 0 created_store 1 =
            (Started (from_dict (created_debate\<lparr>status := ''in_progress''\<rparr>)) new,
             created_store\<lparr>debates := (debates created_store)(1 \<mapsto>
                   created_debate\<lparr>status := ''in_progress'',
                                    arguments := arguments created_debate @ new\<rparr>)\<rparr>)
          \<and> length new = 2
          \<and> mset (map personality_id new) = mset [''The Scientist'', ''The Advocate'']
          \<and> list_all (\<lambda>a. round_number a = 1) new
          \<and> list_all (\<lambda>a. content a \<in> set (fallback_templates (personality_id a) vehicles_topic)) new)"
proof -
  have dc: "debates created_store 1 = Some created_debate" by (simp add: created_store_def)
  have ds: "debates started_store 1 = Some started_debate" by (simp add: started_store_def)
  have fc: "status created_debate = ''created''"
    and pc: "participants created_debate = [''The Scientist'', ''The Advocate'']"
    and tc: "topic created_debate = vehicles_topic"
    by (simp_all add: created_debate_def Debate_init_def)
  have fs: "status started_debate = ''in_progress'' \<and> current_round started_debate + 1 \<le> max_rounds started_debate"
    and cs: "current_round started_debate + 1 = 2"
    and ps: "participants started_debate = [''The Scientist'', ''The Advocate'']"
    and ts: "topic started_debate = vehicles_topic"
    by (simp_all add: started_debate_def created_debate_def Debate_init_def)
  note g = no_model_fields(1)
  from round_appends_one_argument_per_participant
         [OF reachable_created_store dc, of no_model 0, THEN conjunct2, THEN mp, OF fc]
  obtain new1 where 1:
    "start_debate_route no_model 0 created_store 1 =
            (Started (from_dict (created_debate\<lparr>status := ''in_progress''\<rparr>)) new1,
             created_store\<lparr>debates := (debates created_store)(1 \<mapsto>
                   created_debate\<lparr>status := ''in_progress'',
                                    arguments := arguments created_debate @ new1\<rparr>)\<rparr>)"
    "length new1 = length (participants created_debate)"
    "mset (map personality_id new1) = mset (participants created_debate)"
    "list_all (\<lambda>a. round_number a = 1) new1"
    "generator no_model = None \<longrightarrow>
       list_all (\<lambda>a. content a \<in> set (fallback_templates (personality_id a) (topic created_debate))) new1"
    "list_all (fallback_or_generated no_model (topic created_debate)
       (build_context (from_dict (created_debate\<lparr>status := ''in_progress''\<rparr>)) 1) 1) new1"
    by (elim exE conjE)
  from round_appends_one_argument_per_participant
         [OF reachable_started_store ds, of no_model 0, THEN conjunct1, THEN mp, OF fs]
  obtain new2 where 2:
    "next_round_route no_model 0 started_store 1 =
            (Advanced (current_round started_debate + 1)
               (from_dict (started_debate\<lparr>arguments := arguments started_debate @ new2,
                              current_round := current_round started_debate + 1\<rparr>)) new2,
             started_store\<lparr>debates := (debates started_store)(1 \<mapsto>
                   started_debate\<lparr>arguments := arguments started_debate @ new2,
                                    current_round := current_round started_debate + 1\<rparr>)\<rparr>)"
    "length new2 = length (participants started_debate)"
    "mset (map personality_id new2) = mset (participants started_debate)"
    "list_all (\<lambda>a. round_number a = current_round started_debate + 1) new2"
    "generator no_model = None \<longrightarrow>
       list_all (\<lambda>a. content a \<in> set (fallback_templates (personality_id a) (topic started_debate))) new2"
    "list_all (fallback_or_generated no_model (topic started_debate)
       (build_context (from_dict started_debate) (current_round started_debate + 1))
       (current_round started_debate + 1)) new2"
    by (elim exE conjE)
  from round_appends_one_argument_per_participant
         [OF reachable_created_store dc, of broken_model 0, THEN conjunct2, THEN mp, OF fc]
  obtain new3 where 3:
    "start_debate_route broken_model 0 created_store 1 =
            (Started (from_dict (created_debate\<lparr>status := ''in_progress''\<rparr>)) new3,
             created_store\<lparr>debates := (debates created_store)(1 \<mapsto>
                   created_debate\<lparr>status := ''in_progress'',
                                    arguments := arguments created_debate @ new3\<rparr>)\<rparr>)"
    "length new3 = length (participants created_debate)"
    "mset (map personality_id new3) = mset (participants created_debate)"
    "list_all (\<lambda>a. round_number a = 1) new3"
    "generator broken_model = None \<longrightarrow>
       list_all (\<lambda>a. content a \<in> set (fallback_templates (personality_id a) (topic created_debate))) new3"
    "list_all (fallback_or_generated broken_model (topic created_debate)
       (build_context (from_dict (created_debate\<lparr>status := ''in_progress''\<rparr>)) 1) 1) new3"
    by (elim exE conjE)
  have a: "length new1 = 2" "length new2 = 2" "length new3 = 2"
    using 1(2) 2(2) 3(2) by (simp_all add: pc ps)
  have b: "list_all (\<lambda>a. content a \<in> set (fallback_templates (personality_id a) vehicles_topic)) new1"
    "list_all (\<lambda>a. content a \<in> set (fallback_templates (personality_id a) vehicles_topic)) new2"
    using 1(5) 2(5) g by (simp_all only: tc ts simp_thms)
  have "\<forall>a\<in>set new3. content a \<in> set (fallback_templates (personality_id a) vehicles_topic)"
    using 3(6) broken_model_falls_back [of vehicles_topic] unfolding tc list_all_iff by blast
  then have c: "list_all (\<lambda>a. content a \<in> set (fallback_templates (personality_id a) vehicles_topic)) new3"
    unfolding list_all_iff .
  from 1(1) a(1) 1(3) 1(4) b(1)
  have first: "\<exists>new. start_debate_route no_model 0 created_store 1 =
            (Started (from_dict (created_debate\<lparr>status := ''in_progress''\<rparr>)) new,
             created_store\<lparr>debates := (debates created_store)(1 \<mapsto>
                   created_debate\<lparr>status := ''in_progress'',
                                    arguments := arguments created_debate @ new\<rparr>)\<rparr>)
          \<and> length new = 2
          \<and> mset (map personality_id new) = mset [''The Scientist'', ''The Advocate'']
          \<and> list_all (\<lambda>a. round_number a = 1) new
          \<and> list_all (\<lambda>a. content a \<in> set (fallback_templates (personality_id a) vehicles_topic)) new"
    unfolding pc by (intro exI [of _ new1] conjI)
  from 2(1) a(2) 2(3) 2(4) b(2)
  have second: "\<exists>new. next_round_route no_model 0 started_store 1 =
            (Advanced (current_round started_debate + 1)
               (from_dict (started_debate\<lparr>arguments := arguments started_debate @ new,
                              current_round := current_round started_debate + 1\<rparr>)) new,
             started_store\<lparr>debates := (debates started_store)(1 \<mapsto>
                   started_debate\<lparr>arguments := arguments started_debate @ new,
                                    current_round := current_round started_debate + 1\<rparr>)\<rparr>)
          \<and> length new = 2
          \<and> mset (map personality_id new) = mset [''The Scientist'', ''The Advocate'']
          \<and> list_all (\<lambda>a. round_number a = 2) new
          \<and> list_all (\<lambda>a. content a \<in> set (fallback_templates (personality_id a) vehicles_topic)) new"
    unfolding ps cs by (intro exI [of _ new2] conjI)
  from 3(1) a(3) 3(3) 3(4) c
  have third: "\<exists>new. start_debate_route broken_model 0 created_store 1 =
            (Started (from_dict (created_debate\<lparr>status := ''in_progress''\<rparr>)) new,
             created_store\<lparr>debates := (debates created_store)(1 \<mapsto>
                   created_debate\<lparr>status := ''in_progress'',
                                    arguments := arguments created_debate @ new\<rparr>)\<rparr>)
          \<and> length new = 2
          \<and> mset (map personality_id new) = mset [''The Scientist'', ''The Advocate'']
          \<and> list_all (\<lambda>a. round_number a = 1) new
          \<and> list_all (\<lambda>a. content a \<in> set (fallback_templates (personality_id a) vehicles_topic)) new"
    unfolding pc by (intro exI [of _ new3] conjI)
  from first second third show ?thesis by (intro conjI)
qed

subsection \<open>C4\<close>

text \<open>
  C4: \<^verbatim>\<open>start_debate\<close> returns a debate only when the stored status is
  \<open>created\<close> at its conditional update; for a debate in any other status it
  returns \<open>None\<close> and leaves the store as it is, and the route answers that the
  debate has already been started; and however the steps of two start requests
  for one debate interleave, they do not both succeed.
\<close>

theorem start_only_from_created:
  "(\<forall>d'. fst (start_debate st did) = Some d' \<longrightarrow>
       (\<exists>d. debates st did = Some d \<and> status d = ''created''
            \<and> debates (snd (start_debate st did)) did = Some (d\<lparr>status := ''in_progress''\<rparr>)))
   \<and> (\<forall>d. debates st did = Some d \<and> status d \<noteq> ''created'' \<longrightarrow>
         start_debate st did = (None, st)
         \<and> start_debate_route env k st did =
             (Error 400 ''Debate has already been started or completed'',
              AIService_init (DebateService_init st))
         \<and> debates (AIService_init (DebateService_init st)) = debates st)
   \<and> (\<forall>sched st' pc1 pc2.
         run_two_starts env k1 k2 did sched (st, Begin, Begin) = (st', pc1, pc2) \<longrightarrow>
         \<not> (start_succeeded pc1 \<and> start_succeeded pc2))"
proof (intro conjI allI impI)
  fix d' assume "fst (start_debate st did) = Some d'"
  then show "\<exists>d. debates st did = Some d \<and> status d = ''created''
            \<and> debates (snd (start_debate st did)) did = Some (d\<lparr>status := ''in_progress''\<rparr>)"
    by (auto simp: start_debate_eq split: option.splits if_splits)
next
  fix d assume d: "debates st did = Some d \<and> status d \<noteq> ''created''"
  then show "start_debate st did = (None, st)" by (simp add: start_debate_eq)
  from d show "start_debate_route env k st did =
             (Error 400 ''Debate has already been started or completed'',
              AIService_init (DebateService_init st))"
    by (simp add: start_debate_route_def Let_def get_debate_service_init get_debate_Some from_dict_fields)
  show "debates (AIService_init (DebateService_init st)) = debates st"
    by (simp add: debates_service_init)
next
  fix sched st' pc1 pc2
  assume r: "run_two_starts env k1 k2 did sched (st, Begin, Begin) = (st', pc1, pc2)"
  have "one_claim did st Begin Begin" by (simp add: one_claim_def)
  from one_claim_run [OF this r] show "\<not> (start_succeeded pc1 \<and> start_succeeded pc2)"
    by (auto simp: one_claim_def)
qed

text \<open>
  In the example run: the started debate cannot be started again; and when two
  requests both pass the status check before either updates, the first claims
  the debate and the second fails.
\<close>

theorem start_only_from_created_witness:
  "start_debate started_store 1 = (None, started_store)
   \<and> start_debate_route no_model 0 started_store 1 =
       (Error 400 ''Debate has already been started or completed'', started_store)
   \<and> fst (start_debate created_store 1) = Some (from_dict (created_debate\<lparr>status := ''in_progress''\<rparr>))
   \<and> run_two_starts no_model 0 0 1 [True, False, True, False] (created_store, Begin, Begin) =
       (claimed_store, Claimed (from_dict (created_debate\<lparr>status := ''in_progress''\<rparr>)),
        Done (Error 500 ''Failed to start debate''))
   \<and> \<not> (start_succeeded (Claimed (from_dict (created_debate\<lparr>status := ''in_progress''\<rparr>)))
        \<and> start_succeeded (Done (Error 500 ''Failed to start debate'')))"
proof -
  have ds: "debates started_store 1 = Some started_debate" by (simp add: started_store_def)
  have s: "status started_debate \<noteq> ''created''" by (simp add: started_debate_def)
  have seeded: "AIService_init (DebateService_init started_store) = started_store"
    by (simp add: service_init_seeded started_store_def two_personalities_def)
  have c: "fst (start_debate created_store 1) = Some (from_dict (created_debate\<lparr>status := ''in_progress''\<rparr>))"
    by (simp add: start_debate_eq created_store_def created_debate_def Debate_init_def)
  from start_only_from_created [of started_store 1 no_model 0 0 0] ds s seeded
  have a: "start_debate started_store 1 = (None, started_store)"
    "start_debate_route no_model 0 started_store 1 =
       (Error 400 ''Debate has already been started or completed'', started_store)"
    by simp_all
  from start_only_from_created [of created_store 1 no_model 0 0 0] claimed_then_failed
  have b: "\<not> (start_succeeded (Claimed (from_dict (created_debate\<lparr>status := ''in_progress''\<rparr>)))
        \<and> start_succeeded (Done (Error 500 ''Failed to start debate'')))"
    by blast
  show ?thesis
    by (intro conjI a c claimed_then_failed b)
qed

subsection \<open>C5\<close>

text \<open>
  C5: for a debate in progress whose current round is its last, the next-round
  route stores the status \<open>completed\<close> and changes nothing else of the debate;
  its arguments are the same.
\<close>

theorem advance_at_last_round_completes:
  assumes "debates st did = Some d"
    and "status d = ''in_progress''"
    and "current_round d = max_rounds d"
  shows "next_round_route env k st did =
           (Ended (from_dict (d\<lparr>status := ''completed''\<rparr>)),
            (AIService_init (DebateService_init st))
              \<lparr>debates := (debates st)(did \<mapsto> d\<lparr>status := ''completed''\<rparr>)\<rparr>)
         \<and> arguments (d\<lparr>status := ''completed''\<rparr>) = arguments d"
  using assms
  by (simp add: next_round_route_def Let_def get_debate_service_init get_debate_Some
      from_dict_fields end_debate_def update_one_def debates_service_init get_debate_def)

text \<open>
  The debate of the example run in its third round of three is completed by the
  request, with the two arguments it had.
\<close>

theorem advance_at_last_round_completes_witness:
  "next_round_route no_model 0 last_round_store 1 =
     (Ended (from_dict (last_round_debate\<lparr>status := ''completed''\<rparr>)),
      last_round_store\<lparr>debates := [1 \<mapsto> last_round_debate\<lparr>status := ''completed''\<rparr>]\<rparr>)
   \<and> arguments (last_round_debate\<lparr>status := ''completed''\<rparr>) = first_round"
proof -
  have d: "debates last_round_store 1 = Some last_round_debate" by (simp add: last_round_store_def)
  have s: "status last_round_debate = ''in_progress''"
    by (simp add: last_round_debate_def started_debate_def)
  have r: "current_round last_round_debate = max_rounds last_round_debate"
    by (simp add: last_round_debate_def started_debate_def created_debate_def Debate_init_def)
  have seeded: "AIService_init (DebateService_init last_round_store) = last_round_store"
    by (simp add: service_init_seeded last_round_store_def two_personalities_def)
  have a: "arguments last_round_debate = first_round"
    by (simp add: last_round_debate_def started_debate_def)
  from advance_at_last_round_completes [OF d s r, of no_model 0] show ?thesis
    by (simp add: seeded a) (simp add: last_round_store_def)
qed

subsection \<open>C6\<close>

text \<open>
  C6 says that in every reachable state \<open>total_votes\<close> is the sum of the values of
  \<^verbatim>\<open>votes\<close>. The vote route puts any personality id that is not empty into the key
  of the \<^verbatim>\<open>$inc\<close>, and the server reads a dot in a key as a step into a nested
  document. After a vote for \<^verbatim>\<open>Dr. Who\<close> on the started debate of the example run,
  \<^verbatim>\<open>votes\<close> holds a document under \<^verbatim>\<open>Dr\<close>, \<open>total_votes\<close> is 1, and
  \<^verbatim>\<open>sum(votes.values())\<close> raises \<^verbatim>\<open>TypeError\<close>.
\<close>

theorem dotted_id_breaks_vote_total:
  "reachable started_store
   \<and> step started_store (Vote 1 (Some vote_for_doctor)) =
       (Voted (from_dict dotted_vote_debate),
        started_store\<lparr>debates := [1 \<mapsto> dotted_vote_debate]\<rparr>)
   \<and> reachable (started_store\<lparr>debates := [1 \<mapsto> dotted_vote_debate]\<rparr>)
   \<and> votes dotted_vote_debate = [(''Dr'', BDoc [('' Who'', BInt 1)])]
   \<and> total_votes dotted_vote_debate = 1
   \<and> sum_values (votes dotted_vote_debate) = Inl TypeError"
proof -
  have "reachable (snd (step started_store (Vote 1 (Some vote_for_doctor))))"
    using reachable_started_store by (rule reachable.after)
  then have "reachable (started_store\<lparr>debates := [1 \<mapsto> dotted_vote_debate]\<rparr>)"
    by (simp only: step_vote_for_doctor snd_conv)
  moreover have "sum_values (votes dotted_vote_debate) = Inl TypeError"
    by (simp add: dotted_vote_debate_def sum_values_def)
  ultimately show ?thesis
    using reachable_started_store step_vote_for_doctor by (simp add: dotted_vote_debate_def)
qed

subsection \<open>C7\<close>

text \<open>
  C7: in every reachable store, every argument of every debate is by one of the
  debate's participants.
\<close>

theorem arguments_only_from_participants:
  assumes "reachable st" and "debates st did = Some d" and "a \<in> set (arguments d)"
  shows "personality_id a \<in> set (participants d)"
  using reachable_store_ok [OF assms(1)] assms(2,3)
  by (auto simp: store_ok_def debate_ok_def list_all_iff)

text \<open>
  The two arguments of the started debate of the example run are by its two
  participants.
\<close>

theorem arguments_only_from_participants_witness:
  "reachable started_store \<and> debates started_store 1 = Some started_debate
   \<and> list_all (\<lambda>a. personality_id a \<in> set (participants started_debate))
        (arguments started_debate)"
proof -
  have d: "debates started_store 1 = Some started_debate" by (simp add: started_store_def)
  have "\<forall>a\<in>set (arguments started_debate). personality_id a \<in> set (participants started_debate)"
    using arguments_only_from_participants [OF reachable_started_store d] by blast
  with d reachable_started_store show ?thesis by (simp add: list_all_iff)
qed

subsection \<open>C8\<close>

text \<open>
  C8 says that every argument a round produces has at most
  \<open>MAX_ARGUMENT_LENGTH\<close> characters. \<^verbatim>\<open>_generate_argument\<close> truncates what
  the model generates, and returns a fallback template as it is. With no model
  loaded and a topic of 379 characters, the argument the start route stores for
  The Scientist has 513 characters.
\<close>

theorem fallback_exceeds_maximum_length:
  "10 \<le> length long_topic \<and> length long_topic \<le> 500
   \<and> map_option (\<lambda>d. map (\<lambda>a. (personality_id a, round_number a, length (content a)))
                        (arguments d))
        (debates (snd (start_debate_route no_model 0 long_topic_store 1)) 1)
       = Some [(''The Scientist'', 1, 513)]
   \<and> MAX_ARGUMENT_LENGTH < 513"
proof -
  let ?d = "(Debate_init long_topic None 1)\<lparr>participants := [''The Scientist'']\<rparr>"
  have len: "length long_topic = 379" by (simp add: long_topic_def length_concat sum_list_replicate)
  have seeded: "AIService_init (DebateService_init long_topic_store) = long_topic_store"
    by (simp add: service_init_seeded long_topic_store_def)
  have d: "debates long_topic_store 1 = Some ?d" by (simp add: long_topic_store_def)
  have s: "status ?d = ''created''" by (simp add: Debate_init_def)
  let ?new = "[DebateArgument_init ''The Scientist''
        (''The evidence regarding '' @ long_topic @ '' requires rigorous analysis of peer-reviewed research and empirical data before we can reach valid conclusions.'') 1]"
  have g: "fst (generate_debate_round no_model 0
                    (long_topic_store\<lparr>debates := (debates long_topic_store)(1 \<mapsto> ?d\<lparr>status := ''in_progress''\<rparr>)\<rparr>)
                    (from_dict (?d\<lparr>status := ''in_progress''\<rparr>)) 1) = ?new"
    by (simp add: generate_debate_round_def get_debate_personalities_def long_topic_store_def
        random_shuffle_def generate_argument_def generate_fallback_argument_def random_choice_def
        randbelow_def fallback_templates_def names_two from_dict_fields Debate_init_def
        no_model_fields)
  from start_route_generates [OF seeded d s g]
  have "debates (snd (start_debate_route no_model 0 long_topic_store 1)) 1
      = Some (?d\<lparr>status := ''in_progress'', arguments := arguments ?d @ ?new\<rparr>)"
    by simp
  then show ?thesis
    by (simp add: len MAX_ARGUMENT_LENGTH_def DebateArgument_init_def Debate_init_def)
qed

subsection \<open>C9\<close>

text \<open>
  C9 says that the stored average is \<open>(old_avg * old_n + votes_received) / new_n\<close>.
  \<^verbatim>\<open>update_personality_stats\<close> stores that value rounded to two decimals: for a
  personality with average 0.0 over 2 arguments and one vote received, it stores the
  float 0.33 and not the float nearest to a third.
\<close>

theorem update_stats_unrounded_counterexample:
  "find (\<lambda>q. name q = ''The Scientist'') (personalities veteran_store) = Some veteran
   \<and> map_option average_votes
        (find (\<lambda>q. name q = ''The Scientist'')
           (personalities (update_personality_stats veteran_store ''The Scientist'' True 1)))
       = Some (PyFloat (fl (33 / 100)))
   \<and> running_average (average_votes veteran) (total_arguments veteran) 1
       = Inr (PyFloat (fl (1 / 3)))
   \<and> fl (33 / 100) \<noteq> fl (1 / 3)"
proof -
  have f: "find (\<lambda>q. name q = ''The Scientist'') (personalities veteran_store) = Some veteran"
    by (simp add: veteran_store_def veteran_fields)
  have "and_then (if total_arguments veteran + 1 > 1
              then running_average (average_votes veteran) (total_arguments veteran) 1
              else Inr (PyInt 1)) py_round2 = Inr (PyFloat (fl (33 / 100)))"
    by (simp add: veteran_fields third_rounded and_then_simps)
  from update_personality_stats_written [OF f this, of True]
  have "map_option average_votes
        (find (\<lambda>q. name q = ''The Scientist'')
           (personalities (update_personality_stats veteran_store ''The Scientist'' True 1)))
       = Some (PyFloat (fl (33 / 100)))"
    by (auto simp: veteran_fields small_ints_encodable)
  with f show ?thesis by (simp add: veteran_fields third_rounded)
qed

text \<open>
  C9, amended: for the first personality of the given name, when it has at least one
  argument, \<^verbatim>\<open>update_personality_stats\<close> stores
  \<^verbatim>\<open>round((old_avg * old_n + votes_received) / (old_n + 1), 2)\<close>, computed in Python's
  arithmetic, adds one to the debates and to the arguments, and adds one to the wins
  exactly when \<open>won\<close>; when it has no argument yet, the average stored is
  \<open>votes_received\<close> itself. No other personality and no debate changes. When the
  arithmetic raises, or a new counter does not fit the eight bytes of a stored int,
  nothing is written. The method \<^verbatim>\<open>AIPersonality.update_stats\<close> computes the same
  average without rounding it.
\<close>

theorem update_stats_rounded:
  assumes "find (\<lambda>q. name q = nm) (personalities st) = Some p"
  shows
    "(\<forall>a. 1 \<le> total_arguments p
          \<and> and_then (running_average (average_votes p) (total_arguments p) v) py_round2 = Inr a
          \<and> bson_int (total_debates p + 1) \<and> bson_int (total_arguments p + 1)
          \<and> bson_int (wins p + (if won then 1 else 0)) \<and> bson_num a
        \<longrightarrow> (\<exists>ys zs. personalities st = ys @ p # zs \<and> list_all (\<lambda>y. name y \<noteq> nm) ys
               \<and> personalities (update_personality_stats st nm won v)
                   = ys @ p\<lparr>total_debates := total_debates p + 1,
                             total_arguments := total_arguments p + 1,
                             wins := wins p + (if won then 1 else 0),
                             average_votes := a\<rparr> # zs
               \<and> find (\<lambda>q. name q = nm) (personalities (update_personality_stats st nm won v))
                   = Some (p\<lparr>total_debates := total_debates p + 1,
                             total_arguments := total_arguments p + 1,
                             wins := wins p + (if won then 1 else 0),
                             average_votes := a\<rparr>)))
     \<and> (total_arguments p \<le> 0
          \<and> bson_int (total_debates p + 1) \<and> bson_int (total_arguments p + 1)
          \<and> bson_int (wins p + (if won then 1 else 0)) \<and> bson_int v
        \<longrightarrow> (\<exists>ys zs. personalities st = ys @ p # zs \<and> list_all (\<lambda>y. name y \<noteq> nm) ys
               \<and> personalities (update_personality_stats st nm won v)
                   = ys @ p\<lparr>total_debates := total_debates p + 1,
                             total_arguments := total_arguments p + 1,
                             wins := wins p + (if won then 1 else 0),
                             average_votes := PyInt v\<rparr> # zs
               \<and> find (\<lambda>q. name q = nm) (personalities (update_personality_stats st nm won v))
                   = Some (p\<lparr>total_debates := total_debates p + 1,
                             total_arguments := total_arguments p + 1,
                             wins := wins p + (if won then 1 else 0),
                             average_votes := PyInt v\<rparr>)))
     \<and> (1 \<le> total_arguments p
          \<and> (\<exists>e. and_then (running_average (average_votes p) (total_arguments p) v) py_round2 = Inl e)
        \<longrightarrow> update_personality_stats st nm won v = st)
     \<and> (\<not> (bson_int (total_debates p + 1) \<and> bson_int (total_arguments p + 1)
             \<and> bson_int (wins p + (if won then 1 else 0)))
        \<longrightarrow> update_personality_stats st nm won v = st)
     \<and> debates (update_personality_stats st nm won v) = debates st
     \<and> map name (personalities (update_personality_stats st nm won v)) = map name (personalities st)
     \<and> (1 \<le> total_arguments p \<longrightarrow>
          update_stats p won v =
            and_then (running_average (average_votes p) (total_arguments p) v)
              (\<lambda>a. Inr (p\<lparr>total_debates := total_debates p + 1,
                           total_arguments := total_arguments p + 1,
                           wins := wins p + (if won then 1 else 0),
                           average_votes := a\<rparr>)))"
proof (intro conjI allI impI)
  fix a
  assume h: "1 \<le> total_arguments p
          \<and> and_then (running_average (average_votes p) (total_arguments p) v) py_round2 = Inr a
          \<and> bson_int (total_debates p + 1) \<and> bson_int (total_arguments p + 1)
          \<and> bson_int (wins p + (if won then 1 else 0)) \<and> bson_num a"
  then have "and_then (if total_arguments p + 1 > 1
              then running_average (average_votes p) (total_arguments p) v
              else Inr (PyInt v)) py_round2 = Inr a" by simp
  from update_personality_stats_written [OF assms this] h
  show "\<exists>ys zs. personalities st = ys @ p # zs \<and> list_all (\<lambda>y. name y \<noteq> nm) ys
               \<and> personalities (update_personality_stats st nm won v)
                   = ys @ p\<lparr>total_debates := total_debates p + 1,
                             total_arguments := total_arguments p + 1,
                             wins := wins p + (if won then 1 else 0),
                             average_votes := a\<rparr> # zs
               \<and> find (\<lambda>q. name q = nm) (personalities (update_personality_stats st nm won v))
                   = Some (p\<lparr>total_debates := total_debates p + 1,
                             total_arguments := total_arguments p + 1,
                             wins := wins p + (if won then 1 else 0),
                             average_votes := a\<rparr>)"
    by blast
next
  assume h: "total_arguments p \<le> 0
          \<and> bson_int (total_debates p + 1) \<and> bson_int (total_arguments p + 1)
          \<and> bson_int (wins p + (if won then 1 else 0)) \<and> bson_int v"
  then have "and_then (if total_arguments p + 1 > 1
              then running_average (average_votes p) (total_arguments p) v
              else Inr (PyInt v)) py_round2 = Inr (PyInt v)" by (simp add: and_then_def)
  from update_personality_stats_written [OF assms this] h
  show "\<exists>ys zs. personalities st = ys @ p # zs \<and> list_all (\<lambda>y. name y \<noteq> nm) ys
               \<and> personalities (update_personality_stats st nm won v)
                   = ys @ p\<lparr>total_debates := total_debates p + 1,
                             total_arguments := total_arguments p + 1,
                             wins := wins p + (if won then 1 else 0),
                             average_votes := PyInt v\<rparr> # zs
               \<and> find (\<lambda>q. name q = nm) (personalities (update_personality_stats st nm won v))
                   = Some (p\<lparr>total_debates := total_debates p + 1,
                             total_arguments := total_arguments p + 1,
                             wins := wins p + (if won then 1 else 0),
                             average_votes := PyInt v\<rparr>)"
    by simp
next
  assume "1 \<le> total_arguments p
          \<and> (\<exists>e. and_then (running_average (average_votes p) (total_arguments p) v) py_round2 = Inl e)"
  then show "update_personality_stats st nm won v = st"
    unfolding update_personality_stats_found [OF assms] by auto
next
  assume "\<not> (bson_int (total_debates p + 1) \<and> bson_int (total_arguments p + 1)
             \<and> bson_int (wins p + (if won then 1 else 0)))"
  then show "update_personality_stats st nm won v = st"
    unfolding update_personality_stats_found [OF assms] by (auto split: sum.splits)
next
  show "debates (update_personality_stats st nm won v) = debates st"
    by (rule update_personality_stats_frame)
next
  show "map name (personalities (update_personality_stats st nm won v)) = map name (personalities st)"
    by (rule update_personality_stats_frame)
next
  assume "1 \<le> total_arguments p"
  then show "update_stats p won v =
            and_then (running_average (average_votes p) (total_arguments p) v)
              (\<lambda>a. Inr (p\<lparr>total_debates := total_debates p + 1,
                           total_arguments := total_arguments p + 1,
                           wins := wins p + (if won then 1 else 0),
                           average_votes := a\<rparr>))"
    by (rule update_stats_unrounded)
qed

text \<open>
  For the personality with two debates behind it, a win with one vote; for a fresh
  personality, a loss with no vote; and a vote count too large for a float.
\<close>

theorem update_stats_rounded_witness:
  "find (\<lambda>q. name q = ''The Scientist'')
     (personalities (update_personality_stats veteran_store ''The Scientist'' True 1))
   = Some (veteran\<lparr>total_debates := 3, total_arguments := 3, wins := 1,
                   average_votes := PyFloat (fl (33 / 100))\<rparr>)
   \<and> update_stats veteran True 1 =
       Inr (veteran\<lparr>total_debates := 3, total_arguments := 3, wins := 1,
                    average_votes := PyFloat (fl (1 / 3))\<rparr>)
   \<and> find (\<lambda>q. name q = ''The Advocate'')
       (personalities (update_personality_stats two_personalities ''The Advocate'' False 0))
     = Some (the_advocate\<lparr>total_debates := 1, total_arguments := 1, wins := 0,
                          average_votes := PyInt 0\<rparr>)
   \<and> update_personality_stats veteran_store ''The Scientist'' True huge_int = veteran_store"
proof -
  have f: "find (\<lambda>q. name q = ''The Scientist'') (personalities veteran_store) = Some veteran"
    by (simp add: veteran_store_def veteran_fields)
  have g: "find (\<lambda>q. name q = ''The Advocate'') (personalities two_personalities) = Some the_advocate"
    by (simp add: two_personalities_def names_two)
  note a = update_stats_rounded [OF f, of 1 True]
  note b = update_stats_rounded [OF g, of 0 False]
  note c = update_stats_rounded [OF f, of huge_int True]
  from a have 1: "find (\<lambda>q. name q = ''The Scientist'')
     (personalities (update_personality_stats veteran_store ''The Scientist'' True 1))
   = Some (veteran\<lparr>total_debates := 3, total_arguments := 3, wins := 1,
                   average_votes := PyFloat (fl (33 / 100))\<rparr>)"
    by (auto simp: veteran_fields third_rounded small_ints_encodable and_then_simps)
  from a have 2: "update_stats veteran True 1 =
       Inr (veteran\<lparr>total_debates := 3, total_arguments := 3, wins := 1,
                    average_votes := PyFloat (fl (1 / 3))\<rparr>)"
    by (simp add: veteran_fields third_rounded and_then_simps)
  from b have 3: "find (\<lambda>q. name q = ''The Advocate'')
       (personalities (update_personality_stats two_personalities ''The Advocate'' False 0))
     = Some (the_advocate\<lparr>total_debates := 1, total_arguments := 1, wins := 0,
                          average_votes := PyInt 0\<rparr>)"
    by (auto simp: fresh_statistics small_ints_encodable)
  from c have 4: "update_personality_stats veteran_store ''The Scientist'' True huge_int = veteran_store"
    by (simp add: veteran_fields huge_vote_overflows and_then_simps)
  from 1 2 3 4 show ?thesis by (intro conjI)
qed

subsection \<open>C10\<close>

text \<open>
  C10 says that the win rate is computed for every input and is the wins per debate
  times 100, rounded to two decimals. On ints whose quotient is beyond the range of a
  float, both functions raise \<^verbatim>\<open>OverflowError\<close>; and the value is rounded from the
  float product, not from the exact percentage: 23 wins in 160 debates are 14.375
  percent, which rounds to 14.38, and both functions return 14.37.
\<close>

theorem win_rate_counterexample:
  "calculate_win_rate huge_int 1 = Inl OverflowError
   \<and> get_win_rate (the_scientist\<lparr>wins := huge_int, total_debates := 1\<rparr>) = Inl OverflowError
   \<and> calculate_win_rate 23 160 = Inr (fl (1437 / 100))
   \<and> get_win_rate (the_scientist\<lparr>wins := 23, total_debates := 160\<rparr>) = Inr (fl (1437 / 100))
   \<and> of_int (round_half_even (23 / 160 * 100 * 100)) / 100 = (1438 / 100 :: rat)
   \<and> fl (1437 / 100) \<noteq> fl (1438 / 100)"
proof -
  have 1: "calculate_win_rate huge_int 1 = Inl OverflowError"
    by (simp add: calculate_win_rate_def huge_quotient_overflows)
  have 2: "calculate_win_rate 23 160 = Inr (fl (1437 / 100))"
    by (simp add: win_rate_formula win_rate_examples)
  have 3: "get_win_rate (the_scientist\<lparr>wins := 23, total_debates := 160\<rparr>)
      = calculate_win_rate 23 160"
    by (simp add: get_win_rate_def calculate_win_rate_def)
  have 4: "get_win_rate (the_scientist\<lparr>wins := huge_int, total_debates := 1\<rparr>)
      = calculate_win_rate huge_int 1"
    by (simp add: get_win_rate_def calculate_win_rate_def)
  show ?thesis using 1 2 win_rate_examples(3,4) unfolding 3 4 by simp
qed

text \<open>
  C10, amended: \<^verbatim>\<open>get_win_rate\<close> is \<^verbatim>\<open>calculate_win_rate\<close> of the wins and the
  debates; the computation never raises \<^verbatim>\<open>ZeroDivisionError\<close>, returns 0.0 when there
  are no debates and otherwise \<^verbatim>\<open>round((wins / total) * 100, 2)\<close> as binary floating
  point computes it. For counters that fit a stored int it returns a finite float; for
  wins between 0 and the debates that float is within 0.0051 of the exact percentage;
  and when the quotient is beyond the range of a float it raises
  \<^verbatim>\<open>OverflowError\<close>.
\<close>

theorem win_rate_total:
  "get_win_rate p = calculate_win_rate (wins p) (total_debates p)
   \<and> calculate_win_rate w 0 = Inr (Finite 0)
   \<and> calculate_win_rate w t \<noteq> Inl ZeroDivisionError
   \<and> (t \<noteq> 0 \<longrightarrow> calculate_win_rate w t =
        and_then (int_truediv w t) (\<lambda>q. float_round2 (float_mul q (Finite 100))))
   \<and> (bson_int w \<and> bson_int t \<longrightarrow> (\<exists>q. calculate_win_rate w t = Inr (Finite q)))
   \<and> (0 \<le> w \<and> w \<le> t \<and> t \<noteq> 0 \<longrightarrow>
        (\<exists>q. calculate_win_rate w t = Inr (Finite q)
              \<and> \<bar>q - 100 * of_int w / of_int t\<bar> \<le> 51 / 10000))
   \<and> (t \<noteq> 0 \<and> overflow_threshold \<le> \<bar>of_int w / of_int t\<bar> \<longrightarrow>
        calculate_win_rate w t = Inl OverflowError)"
proof (intro conjI impI)
  show "get_win_rate p = calculate_win_rate (wins p) (total_debates p)"
    by (simp add: get_win_rate_def calculate_win_rate_def)
  show "calculate_win_rate w 0 = Inr (Finite 0)" by (simp add: calculate_win_rate_def)
  show "calculate_win_rate w t \<noteq> Inl ZeroDivisionError"
    by (auto simp: calculate_win_rate_def int_truediv_def float_round2_def
        split: sum.splits double.splits if_splits)
  show "calculate_win_rate w t =
        and_then (int_truediv w t) (\<lambda>q. float_round2 (float_mul q (Finite 100)))" if "t \<noteq> 0"
    using that by (rule win_rate_formula)
  show "\<exists>q. calculate_win_rate w t = Inr (Finite q)" if "bson_int w \<and> bson_int t"
  proof (cases "t = 0")
    case True
    then show ?thesis by (simp add: calculate_win_rate_def)
  next
    case False
    with that show ?thesis by (intro win_rate_bson) simp_all
  qed
  show "\<exists>q. calculate_win_rate w t = Inr (Finite q)
              \<and> \<bar>q - 100 * of_int w / of_int t\<bar> \<le> 51 / 10000"
    if "0 \<le> w \<and> w \<le> t \<and> t \<noteq> 0"
    using that by (intro win_rate_close) simp_all
  show "calculate_win_rate w t = Inl OverflowError"
    if "t \<noteq> 0 \<and> overflow_threshold \<le> \<bar>of_int w / of_int t\<bar>"
  proof -
    have "0 < overflow_threshold" by (simp add: overflow_threshold_def)
    with that have "fl (of_int w / of_int t) = PosInf \<or> fl (of_int w / of_int t) = NegInf"
      by (auto simp: fl_def abs_if split: if_splits)
    with that show ?thesis by (auto simp: calculate_win_rate_def int_truediv_def)
  qed
qed

text \<open>
  23 wins in 160 debates are 14.37, within 0.0051 of 14.375; one win in three debates
  is 33.33; no debates is 0.0.
\<close>

theorem win_rate_total_witness:
  "calculate_win_rate 23 160 = Inr (fl (1437 / 100))
   \<and> get_win_rate (the_scientist\<lparr>wins := 1, total_debates := 3\<rparr>) = Inr (fl (3333 / 100))
   \<and> get_win_rate the_scientist = Inr (Finite 0)
   \<and> calculate_win_rate 5 0 = Inr (Finite 0)
   \<and> (\<exists>q. calculate_win_rate 23 160 = Inr (Finite q) \<and> \<bar>q - 2875 / 200\<bar> \<le> 51 / 10000)"
proof -
  note a = win_rate_total [of "the_scientist\<lparr>wins := 1, total_debates := 3\<rparr>" 23 160]
  note b = win_rate_total [of the_scientist 5 0]
  note d = win_rate_total [of the_scientist 0 0]
  note c = win_rate_total [of the_scientist 1 3]
  from a have 1: "calculate_win_rate 23 160 = Inr (fl (1437 / 100))"
    by (simp add: win_rate_examples)
  from a c have 2: "get_win_rate (the_scientist\<lparr>wins := 1, total_debates := 3\<rparr>) = Inr (fl (3333 / 100))"
    by (simp add: win_rate_examples)
  from b d have 3: "get_win_rate the_scientist = Inr (Finite 0)" "calculate_win_rate 5 0 = Inr (Finite 0)"
    by (simp_all add: fresh_statistics)
  from a have "0 \<le> (23 :: int) \<and> (23 :: int) \<le> 160 \<and> (160 :: int) \<noteq> 0 \<longrightarrow>
        (\<exists>q. calculate_win_rate 23 160 = Inr (Finite q)
              \<and> \<bar>q - 100 * of_int 23 / of_int 160\<bar> \<le> 51 / 10000)"
    by (elim conjE)
  then have 4: "\<exists>q. calculate_win_rate 23 160 = Inr (Finite q) \<and> \<bar>q - 2875 / 200\<bar> \<le> 51 / 10000"
    by simp
  from 1 2 3 4 show ?thesis by (intro conjI)
qed

end
